(* ===== verification/Go_Base.thy ===== *)
theory Go_Base
  imports Main "HOL-Library.Word" "HOL-Library.Char_ord" "HOL-Library.List_Lexorder"
    "HOL-Library.Sublist" "HOL-Library.Signed_Division"
begin

text \<open>
  The prelude of the development: what the Go language and its standard library give to
  every component.

  \<^item> 64-bit two's complement integers, as \<open>int\<close> with the wrap-around written out
    (\<open>wrap64\<close>), and the shift \<open>1 << n\<close> with its panic;
  \<^item> Go strings, which are byte sequences, as \<open>string\<close>: \<open>strings.TrimSpace\<close> with the
    UTF-8 encodings of Unicode white space, \<open>strconv.Atoi\<close>, \<open>strconv.Itoa\<close>, and the
    decoding of a string into runes;
  \<^item> Go errors as a datatype with the wrapping of \<open>fmt.Errorf ("%w")\<close>, so that
    \<open>errors.Is\<close>, \<open>errors.As\<close> and \<open>Error ()\<close> are functions on it;
  \<^item> the collections of rewrite rules the component theories share.
\<close>

named_theorems go_text \<open>rewrite rules for Go strings and numbers\<close>
named_theorems err_simps \<open>rewrite rules for errors.Is, errors.As and error texts\<close>
named_theorems op_defs \<open>unfoldings of the program's operations\<close>

section \<open>Lists\<close>

lemma filter_unique:
  assumes "distinct (map f xs)" "x \<in> set xs"
  shows "filter (\<lambda>y. f y = f x) xs = [x]"
  using assms
proof (induction xs)
  case (Cons y xs)
  show ?case
  proof (cases "y = x")
    case True
    then have "\<forall>z \<in> set xs. f z \<noteq> f x" using Cons.prems by (auto simp: image_iff)
    then show ?thesis using True by simp
  next
    case False
    then show ?thesis using Cons by (auto simp: image_iff)
  qed
qed simp

lemma find_SomeD: "find P xs = Some x \<Longrightarrow> x \<in> set xs \<and> P x"
  by (auto simp: find_Some_iff)

lemma find_append: "find P (xs @ ys) = (case find P xs of None \<Rightarrow> find P ys | Some x \<Rightarrow> Some x)"
  by (induction xs) auto

lemma concat_filter: "concat (map (\<lambda>e. if P e then [f e] else []) es) = map f (filter P es)"
  by (induction es) auto

lemma sort_take_largest:
  fixes k :: "'a \<Rightarrow> 'b :: linorder"
  assumes "x \<in> set xs" "x \<notin> set (take n (rev (sort_key k xs)))" "y \<in> set (take n (rev (sort_key k xs)))"
  shows "k x \<le> k y"
proof -
  let ?l = "rev (sort_key k xs)"
  have "sorted_wrt (\<lambda>a b. k b \<le> k a) ?l"
    by (simp add: sorted_wrt_rev sorted_wrt_map [symmetric] flip: sorted_wrt_map)
  then have "sorted_wrt (\<lambda>a b. k b \<le> k a) (take n ?l @ drop n ?l)" by simp
  moreover have "x \<in> set (drop n ?l)"
    using assms(1,2) by (metis Un_iff append_take_drop_id set_append set_rev set_sort)
  ultimately show ?thesis using assms(3) by (metis sorted_wrt_append)
qed


section \<open>Machine integers\<close>

definition wrap64 :: "int \<Rightarrow> int" where
  "wrap64 x = (x + 2 ^ 63) mod 2 ^ 64 - 2 ^ 63"

definition is_int64 :: "int \<Rightarrow> bool" where
  "is_int64 x \<longleftrightarrow> - (2 ^ 63) \<le> x \<and> x < 2 ^ 63"

definition is_int32 :: "int \<Rightarrow> bool" where
  "is_int32 x \<longleftrightarrow> - (2 ^ 31) \<le> x \<and> x < 2 ^ 31"

definition shl64 :: "int \<Rightarrow> int \<Rightarrow> int option" where
  "shl64 x n = (if n < 0 then None else if 64 \<le> n then Some 0 else Some (wrap64 (x * 2 ^ nat n)))"

lemma wrap64_id [simp]: "is_int64 x \<Longrightarrow> wrap64 x = x"
  by (simp add: wrap64_def is_int64_def)

lemma wrap64_range: "is_int64 (wrap64 x)"
  by (simp add: wrap64_def is_int64_def)

lemma wrap64_word: "wrap64 x = sint (word_of_int x :: 64 word)"
  by (simp add: wrap64_def sint_sbintrunc' signed_take_bit_eq_take_bit_shift take_bit_eq_mod)

lemma is_int64_numeral [simp]: "is_int64 (numeral n) \<longleftrightarrow> (numeral n :: int) < 2 ^ 63"
  "is_int64 0" "is_int64 1"
  by (simp_all add: is_int64_def order_trans[of _ 0])

lemma sdiv_pos: "0 \<le> (a::int) \<Longrightarrow> 0 < b \<Longrightarrow> a sdiv b = a div b"
  by (auto simp: signed_divide_int_def sgn_if)

lemma shl64_one:
  assumes "0 \<le> n" "n \<le> 62"
  shows "shl64 1 n = Some (2 ^ nat n)"
proof -
  have "(2::int) ^ nat n \<le> 2 ^ 62" using assms by (intro power_increasing) auto
  moreover have "(0::int) < 2 ^ nat n" by simp
  ultimately have "is_int64 (2 ^ nat n)" by (simp add: is_int64_def) (rule order_trans [of _ 0], simp_all)
  then show ?thesis using assms by (simp add: shl64_def)
qed

section \<open>Strings\<close>

type_synonym bytes = string

text \<open>The UTF-8 encodings of the runes for which \<open>unicode.IsSpace\<close> holds.\<close>

definition space_runes :: "bytes list" where
  "space_runes =
     [[CHR 0x09], [CHR 0x0A], [CHR 0x0B], [CHR 0x0C], [CHR 0x0D], [CHR 0x20],
      [CHR 0xC2, CHR 0x85], [CHR 0xC2, CHR 0xA0], [CHR 0xE1, CHR 0x9A, CHR 0x80],
      [CHR 0xE2, CHR 0x80, CHR 0x80], [CHR 0xE2, CHR 0x80, CHR 0x81],
      [CHR 0xE2, CHR 0x80, CHR 0x82], [CHR 0xE2, CHR 0x80, CHR 0x83],
      [CHR 0xE2, CHR 0x80, CHR 0x84], [CHR 0xE2, CHR 0x80, CHR 0x85],
      [CHR 0xE2, CHR 0x80, CHR 0x86], [CHR 0xE2, CHR 0x80, CHR 0x87],
      [CHR 0xE2, CHR 0x80, CHR 0x88], [CHR 0xE2, CHR 0x80, CHR 0x89],
      [CHR 0xE2, CHR 0x80, CHR 0x8A], [CHR 0xE2, CHR 0x80, CHR 0xA8],
      [CHR 0xE2, CHR 0x80, CHR 0xA9], [CHR 0xE2, CHR 0x80, CHR 0xAF],
      [CHR 0xE2, CHR 0x81, CHR 0x9F], [CHR 0xE3, CHR 0x80, CHR 0x80]]"

fun lead_len :: "bytes list \<Rightarrow> bytes \<Rightarrow> nat" where
  "lead_len [] s = 0"
| "lead_len (w # ws) s = (if take (length w) s = w then length w else lead_len ws s)"

function trim_by :: "bytes list \<Rightarrow> bytes \<Rightarrow> bytes" where
  "trim_by ws s = (if s = [] \<or> lead_len ws s = 0 then s else trim_by ws (drop (lead_len ws s) s))"
  by pat_completeness auto
termination by (relation "measure (\<lambda>(ws, s). length s)") auto

declare trim_by.simps [simp del]

definition trim_left :: "bytes \<Rightarrow> bytes" where
  "trim_left s = trim_by space_runes s"

definition trim_right :: "bytes \<Rightarrow> bytes" where
  "trim_right s = rev (trim_by (map rev space_runes) (rev s))"

definition TrimSpace :: "bytes \<Rightarrow> bytes" where
  "TrimSpace s = trim_right (trim_left s)"

text \<open>\<open>strings.TrimPrefix\<close>, \<open>strings.TrimSuffix\<close> and the one-character cut sets the program
  uses.\<close>

definition TrimPrefix :: "bytes \<Rightarrow> bytes \<Rightarrow> bytes" where
  "TrimPrefix s p = (if prefix p s then drop (length p) s else s)"

definition TrimSuffix :: "bytes \<Rightarrow> bytes \<Rightarrow> bytes" where
  "TrimSuffix s p = (if suffix p s then take (length s - length p) s else s)"

definition TrimRightChar :: "bytes \<Rightarrow> char \<Rightarrow> bytes" where
  "TrimRightChar s c = rev (dropWhile (\<lambda>x. x = c) (rev s))"

definition TrimChar :: "bytes \<Rightarrow> char \<Rightarrow> bytes" where
  "TrimChar s c = TrimRightChar (dropWhile (\<lambda>x. x = c) s) c"

text \<open>\<open>strings.Contains\<close>.\<close>

definition contains :: "bytes \<Rightarrow> bytes \<Rightarrow> bool" where
  "contains s t \<longleftrightarrow> list_ex (prefix t) (suffixes s)"

section \<open>Numbers in text\<close>

definition digit :: "nat \<Rightarrow> char" where
  "digit d = char_of (48 + d)"

fun nat_digits :: "nat \<Rightarrow> bytes" where
  "nat_digits n = (if n < 10 then [digit n] else nat_digits (n div 10) @ [digit (n mod 10)])"

declare nat_digits.simps [simp del]

definition Itoa :: "int \<Rightarrow> bytes" where
  "Itoa i = (if i < 0 then CHR ''-'' # nat_digits (nat (- i)) else nat_digits (nat i))"

definition is_digit :: "char \<Rightarrow> bool" where
  "is_digit c \<longleftrightarrow> 48 \<le> (of_char c :: nat) \<and> (of_char c :: nat) \<le> 57"

fun read_digits :: "int \<Rightarrow> bytes \<Rightarrow> int option" where
  "read_digits acc [] = Some acc"
| "read_digits acc (c # cs) =
     (if is_digit c then read_digits (10 * acc + (of_char c - 48)) cs else None)"

definition read_nat :: "bytes \<Rightarrow> int option" where
  "read_nat s = (if s = [] then None else read_digits 0 s)"

definition in_range64 :: "int \<Rightarrow> int option" where
  "in_range64 i = (if is_int64 i then Some i else None)"

definition Atoi :: "bytes \<Rightarrow> int option" where
  "Atoi s =
     (case s of
        [] \<Rightarrow> None
      | c # cs \<Rightarrow>
          if c = CHR ''-'' then
            (case read_nat cs of None \<Rightarrow> None | Some n \<Rightarrow> in_range64 (- n))
          else if c = CHR ''+'' then
            (case read_nat cs of None \<Rightarrow> None | Some n \<Rightarrow> in_range64 n)
          else
            (case read_nat s of None \<Rightarrow> None | Some n \<Rightarrow> in_range64 n))"

section \<open>Runes\<close>

text \<open>
  The size in bytes of the UTF-8 encoded rune at the head of a string, 0 where the head is
  not a valid encoding (the acceptance ranges of \<open>unicode/utf8\<close>).
\<close>

definition byte :: "char \<Rightarrow> nat" where
  "byte c = of_char c"

definition cont :: "char \<Rightarrow> bool" where
  "cont c \<longleftrightarrow> 0x80 \<le> byte c \<and> byte c \<le> 0xBF"

definition ok2 :: "char \<Rightarrow> char \<Rightarrow> bool" where
  "ok2 a b \<longleftrightarrow> 0xC2 \<le> byte a \<and> byte a \<le> 0xDF \<and> cont b"

definition ok3 :: "char \<Rightarrow> char \<Rightarrow> char \<Rightarrow> bool" where
  "ok3 a b c \<longleftrightarrow> 0xE0 \<le> byte a \<and> byte a \<le> 0xEF \<and> cont b \<and> cont c \<and>
     (byte a = 0xE0 \<longrightarrow> 0xA0 \<le> byte b) \<and> (byte a = 0xED \<longrightarrow> byte b \<le> 0x9F)"

definition ok4 :: "char \<Rightarrow> char \<Rightarrow> char \<Rightarrow> char \<Rightarrow> bool" where
  "ok4 a b c d \<longleftrightarrow> 0xF0 \<le> byte a \<and> byte a \<le> 0xF4 \<and> cont b \<and> cont c \<and> cont d \<and>
     (byte a = 0xF0 \<longrightarrow> 0x90 \<le> byte b) \<and> (byte a = 0xF4 \<longrightarrow> byte b \<le> 0x8F)"

fun rune_len :: "bytes \<Rightarrow> nat" where
  "rune_len [] = 0"
| "rune_len (a # s) =
     (if byte a < 0x80 then 1
      else case s of
        [] \<Rightarrow> 0
      | b # s2 \<Rightarrow> if ok2 a b then 2
          else (case s2 of
            [] \<Rightarrow> 0
          | c # s3 \<Rightarrow> if ok3 a b c then 3
              else (case s3 of [] \<Rightarrow> 0 | d # _ \<Rightarrow> if ok4 a b c d then 4 else 0)))"

definition rune_error :: bytes where
  "rune_error = [CHR 0xEF, CHR 0xBF, CHR 0xBD]"

text \<open>\<open>[]rune(s)\<close>, each rune given by its encoding; an invalid byte is the rune U+FFFD.\<close>

function runes :: "bytes \<Rightarrow> bytes list" where
  "runes s =
     (if s = [] then []
      else if rune_len s = 0 then rune_error # runes (tl s)
      else take (rune_len s) s # runes (drop (rune_len s) s))"
  by pat_completeness auto
termination by (relation "measure length") auto

declare runes.simps [simp del]

definition valid_utf8 :: "bytes \<Rightarrow> bool" where
  "valid_utf8 s \<longleftrightarrow> concat (runes s) = s"

text \<open>
  The verb \<open>%q\<close> of \<open>fmt\<close>, which only occurs in the texts of errors: a quoted string
  with the escapes of \<open>strconv.Quote\<close>. Every valid rune beyond ASCII counts as printable.
\<close>

definition hex_lower :: "nat \<Rightarrow> char" where
  "hex_lower d = (if d < 10 then char_of (48 + d) else char_of (87 + d))"

definition quote_ascii :: "char \<Rightarrow> bytes" where
  "quote_ascii a =
     (if a = CHR 0x22 \<or> a = CHR 0x5C then [CHR 0x5C, a]
      else if a = CHR 0x07 then [CHR 0x5C, CHR ''a'']
      else if a = CHR 0x08 then [CHR 0x5C, CHR ''b'']
      else if a = CHR 0x0C then [CHR 0x5C, CHR ''f'']
      else if a = CHR 0x0A then [CHR 0x5C, CHR ''n'']
      else if a = CHR 0x0D then [CHR 0x5C, CHR ''r'']
      else if a = CHR 0x09 then [CHR 0x5C, CHR ''t'']
      else if a = CHR 0x0B then [CHR 0x5C, CHR ''v'']
      else if 0x20 \<le> byte a \<and> byte a < 0x7F then [a]
      else [CHR 0x5C, CHR ''x'', hex_lower (byte a div 16), hex_lower (byte a mod 16)])"

function quote_body :: "bytes \<Rightarrow> bytes" where
  "quote_body s =
     (if s = [] then []
      else if byte (hd s) < 0x80 \<or> rune_len s = 0 then quote_ascii (hd s) @ quote_body (tl s)
      else take (rune_len s) s @ quote_body (drop (rune_len s) s))"
  by pat_completeness auto
termination by (relation "measure length") auto

declare quote_body.simps [simp del]

definition Quote :: "bytes \<Rightarrow> bytes" where
  "Quote s = CHR 0x22 # quote_body s @ [CHR 0x22]"

definition good_rune :: "bytes \<Rightarrow> bool" where
  "good_rune r \<longleftrightarrow> r \<noteq> [] \<and> rune_len r = length r"

section \<open>Errors\<close>

text \<open>
  A Go error: a sentinel variable, a message of \<open>errors.New\<close>, a wrapped error
  (\<open>fmt.Errorf\<close> with \<open>%w\<close>: the text before it, the error, the text after it), or the
  program's own error type \<open>*delivery.Failure\<close>. \<open>errors.Is\<close> is only ever called with a
  sentinel as its target, where the equality of the model is Go's comparison.
\<close>

datatype error =
    ErrNew bytes
  | ErrWrap bytes error bytes
  | ErrIdempotencyConflict
  | ErrEventNotFound
  | ErrDLQNotFound
  | ErrDLQNotOpen
  | ErrOutboxPublishFailed
  | ErrNoRows
  | ErrRedisNil
  | ErrExtraJSONValue
  | ErrMaxBytes int
  | ErrAIServiceUnavailable
  | ErrAIServiceInvalidResponse
  | ErrEventNotReadyForExplanation
  | FailureErr failure
and failure = Failure (Kind: bytes) (StatusCode: int) (Cause: "error option")

fun error_text :: "error \<Rightarrow> bytes" and failure_text :: "failure \<Rightarrow> bytes" where
  "error_text (ErrNew m) = m"
| "error_text (ErrWrap p e q) = p @ error_text e @ q"
| "error_text ErrIdempotencyConflict = ''idempotency key conflict''"
| "error_text ErrEventNotFound = ''event not found''"
| "error_text ErrDLQNotFound = ''DLQ record not found''"
| "error_text ErrDLQNotOpen = ''DLQ record is not open''"
| "error_text ErrOutboxPublishFailed = ''outbox publication failed''"
| "error_text ErrNoRows = ''no rows in result set''"
| "error_text ErrRedisNil = ''redis: nil''"
| "error_text ErrExtraJSONValue = ''request body must contain exactly one JSON value''"
| "error_text (ErrMaxBytes n) = ''http: request body too large''"
| "error_text ErrAIServiceUnavailable = ''AI service unavailable''"
| "error_text ErrAIServiceInvalidResponse = ''AI service invalid response''"
| "error_text ErrEventNotReadyForExplanation = ''event not ready for explanation''"
| "error_text (FailureErr f) = failure_text f"
| "failure_text (Failure k code c) =
     (let kind = (if k = [] then ''unknown'' else k) in
      if code \<noteq> 0 then
        (case c of
           Some e \<Rightarrow> kind @ '' delivery failure status='' @ Itoa code @ '': '' @ error_text e
         | None \<Rightarrow> kind @ '' delivery failure status='' @ Itoa code)
      else
        (case c of
           Some e \<Rightarrow> kind @ '' delivery failure: '' @ error_text e
         | None \<Rightarrow> kind @ '' delivery failure''))"

fun errors_is :: "error \<Rightarrow> error \<Rightarrow> bool" and failure_is :: "failure \<Rightarrow> error \<Rightarrow> bool" where
  "errors_is (ErrWrap p e q) t \<longleftrightarrow> ErrWrap p e q = t \<or> errors_is e t"
| "errors_is (FailureErr f) t \<longleftrightarrow> FailureErr f = t \<or> failure_is f t"
| "errors_is e t \<longleftrightarrow> e = t"
| "failure_is (Failure k code (Some c)) t \<longleftrightarrow> errors_is c t"
| "failure_is (Failure k code None) t \<longleftrightarrow> False"

text \<open>\<open>errors.As (err, &failure)\<close>: the first \<open>*delivery.Failure\<close> of the chain.\<close>

fun errors_as_failure :: "error \<Rightarrow> failure option" where
  "errors_as_failure (ErrWrap p e q) = errors_as_failure e"
| "errors_as_failure (FailureErr f) = Some f"
| "errors_as_failure e = None"

text \<open>\<open>errors.As (err, &maxBytesErr)\<close>.\<close>

fun errors_as_max_bytes :: "error \<Rightarrow> bool" and failure_as_max_bytes :: "failure \<Rightarrow> bool" where
  "errors_as_max_bytes (ErrWrap p e q) = errors_as_max_bytes e"
| "errors_as_max_bytes (ErrMaxBytes n) = True"
| "errors_as_max_bytes (FailureErr f) = failure_as_max_bytes f"
| "errors_as_max_bytes e = False"
| "failure_as_max_bytes (Failure k code (Some c)) = errors_as_max_bytes c"
| "failure_as_max_bytes (Failure k code None) = False"

section \<open>Lemmas on white space\<close>

lemma lead_len_nonempty_take: "lead_len ws s > 0 \<Longrightarrow> \<exists>w \<in> set ws. w \<noteq> [] \<and> take (length w) s = w"
  by (induction ws) (auto split: if_splits)

lemma lead_len_zero_iff:
  "[] \<notin> set ws \<Longrightarrow> lead_len ws s = 0 \<longleftrightarrow> (\<forall>w \<in> set ws. take (length w) s \<noteq> w)"
  by (induction ws) auto

lemma trim_by_lead: "trim_by ws s = [] \<or> lead_len ws (trim_by ws s) = 0"
proof (induction ws s rule: trim_by.induct)
  case (1 ws s)
  then show ?case by (cases "s = [] \<or> lead_len ws s = 0") (auto simp: trim_by.simps [of ws s])
qed

lemma trim_by_suffix: "suffix (trim_by ws s) s"
proof (induction ws s rule: trim_by.induct)
  case (1 ws s)
  show ?case
  proof (cases "s = [] \<or> lead_len ws s = 0")
    case True
    then show ?thesis by (subst trim_by.simps) auto
  next
    case False
    with 1 have "suffix (trim_by ws (drop (lead_len ws s) s)) s"
      by (meson suffix_drop suffix_order.trans)
    with False show ?thesis by (subst trim_by.simps) auto
  qed
qed

lemma trim_by_fix: "lead_len ws s = 0 \<Longrightarrow> trim_by ws s = s"
  by (subst trim_by.simps) auto

lemma trim_by_Nil [simp]: "trim_by ws [] = []"
  by (subst trim_by.simps) auto

lemma trim_by_idem: "trim_by ws (trim_by ws s) = trim_by ws s"
  using trim_by_lead [of ws s] by (auto simp: trim_by_fix)

lemma space_runes_nonempty: "[] \<notin> set space_runes"
  by (simp add: space_runes_def)

lemma lead_len_prefix:
  assumes "[] \<notin> set ws" "lead_len ws s = 0" "prefix p s"
  shows "lead_len ws p = 0"
proof -
  have "take (length w) s = w" if "take (length w) p = w" for w
  proof -
    from that have "length w \<le> length p" by (metis length_take min.absorb_iff2 min.commute nat_le_linear)
    then show ?thesis using \<open>prefix p s\<close> that by (auto simp: prefix_def)
  qed
  then show ?thesis using assms(1,2) by (auto simp: lead_len_zero_iff)
qed

lemma trim_right_prefix: "prefix (trim_right s) s"
  unfolding trim_right_def using trim_by_suffix [of "map rev space_runes" "rev s"]
  by (simp add: suffix_to_prefix)

lemma TrimSpace_Nil [simp, go_text]: "TrimSpace [] = []"
  by (simp add: TrimSpace_def trim_left_def trim_right_def)

lemma TrimSpace_idem [simp, go_text]: "TrimSpace (TrimSpace s) = TrimSpace s"
proof -
  have "lead_len space_runes (trim_left s) = 0"
    using trim_by_lead [of space_runes s] unfolding trim_left_def
    by (auto simp: lead_len_zero_iff space_runes_nonempty)
  then have "lead_len space_runes (TrimSpace s) = 0"
    unfolding TrimSpace_def
    by (rule lead_len_prefix [OF space_runes_nonempty _ trim_right_prefix])
  then have "trim_left (TrimSpace s) = TrimSpace s"
    by (simp add: trim_left_def trim_by_fix)
  then have "TrimSpace (TrimSpace s) = trim_right (TrimSpace s)" by (simp add: TrimSpace_def)
  also have "\<dots> = TrimSpace s" by (simp add: TrimSpace_def trim_right_def trim_by_idem)
  finally show ?thesis .
qed

lemma TrimSpace_sublist: "length (TrimSpace s) \<le> length s"
  unfolding TrimSpace_def
  by (metis prefix_length_le suffix_length_le order_trans trim_by_suffix trim_left_def trim_right_prefix)

text \<open>A character that belongs to no space is never trimmed.\<close>

lemma lead_len_drop: "\<exists>w \<in> insert [] (set ws). take (lead_len ws s) s = w"
  by (induction ws) (auto split: if_splits)

lemma trim_by_keeps: "c \<in> set s \<Longrightarrow> \<forall>w \<in> set ws. c \<notin> set w \<Longrightarrow> c \<in> set (trim_by ws s)"
proof (induction ws s rule: trim_by.induct)
  case (1 ws s)
  show ?case
  proof (cases "s = [] \<or> lead_len ws s = 0")
    case True
    then show ?thesis using "1.prems" by (subst trim_by.simps) auto
  next
    case False
    have "c \<notin> set (take (lead_len ws s) s)" using lead_len_drop [of ws s] "1.prems"(2) by auto
    then have "c \<in> set (drop (lead_len ws s) s)"
      using "1.prems"(1) by (metis Un_iff append_take_drop_id set_append)
    then show ?thesis using 1 False by (subst trim_by.simps) auto
  qed
qed

lemma TrimSpace_keeps:
  assumes "c \<in> set s" "c \<notin> set (concat space_runes)"
  shows "c \<in> set (TrimSpace s)"
proof -
  have "c \<in> set (trim_left s)" unfolding trim_left_def using assms by (intro trim_by_keeps) auto
  then have "c \<in> set (trim_by (map rev space_runes) (rev (trim_left s)))"
    using assms(2) by (intro trim_by_keeps) auto
  then show ?thesis by (simp add: TrimSpace_def trim_right_def)
qed

section \<open>Lemmas on numbers in text\<close>

lemma byte_digit: "d < 10 \<Longrightarrow> (of_char (digit d) :: nat) = 48 + d"
  by (simp add: digit_def)

lemma int_byte_digit: "d < 10 \<Longrightarrow> (of_char (digit d) :: int) = 48 + int d"
  using byte_digit [of d] by (metis of_nat_add of_nat_numeral of_nat_of_char)

lemma is_digit_digit [simp]: "d < 10 \<Longrightarrow> is_digit (digit d)"
  by (simp add: is_digit_def byte_digit)

lemma read_digits_append:
  "read_digits a (xs @ ys) = (case read_digits a xs of None \<Rightarrow> None | Some b \<Rightarrow> read_digits b ys)"
  by (induction xs arbitrary: a) auto

lemma nat_digits_nonempty [simp]: "nat_digits n \<noteq> []"
  by (subst nat_digits.simps) simp

lemma read_nat_digits: "read_digits 0 (nat_digits n) = Some (int n)"
proof (induction n rule: nat_digits.induct)
  case (1 n)
  then show ?case
    by (cases "n < 10") (auto simp: nat_digits.simps [of n] read_digits_append int_byte_digit zdiv_int zmod_int)
qed

lemma nat_digits_is_digit: "c \<in> set (nat_digits n) \<Longrightarrow> is_digit c"
proof (induction n rule: nat_digits.induct)
  case (1 n)
  then show ?case by (cases "n < 10") (auto simp: nat_digits.simps [of n])
qed

lemma is_digit_not_sign: "is_digit c \<Longrightarrow> c \<noteq> CHR ''-'' \<and> c \<noteq> CHR ''+''"
  by (auto simp: is_digit_def)

lemma Atoi_digits: "Atoi (nat_digits n) = in_range64 (int n)"
proof -
  obtain c cs where d: "nat_digits n = c # cs" by (metis list.exhaust nat_digits_nonempty)
  then have "is_digit c" using nat_digits_is_digit [of c n] by simp
  then have "c \<noteq> CHR ''-'' \<and> c \<noteq> CHR ''+''" by (rule is_digit_not_sign)
  then have "Atoi (c # cs) = (case read_nat (c # cs) of None \<Rightarrow> None | Some n \<Rightarrow> in_range64 n)"
    by (simp add: Atoi_def)
  moreover have "read_nat (c # cs) = Some (int n)"
    using read_nat_digits [of n] d by (simp add: read_nat_def)
  ultimately show ?thesis using d by simp
qed

lemma Atoi_Itoa [simp, go_text]: "is_int64 i \<Longrightarrow> Atoi (Itoa i) = Some i"
proof (cases "i < 0")
  case True
  assume "is_int64 i"
  with True show ?thesis
    by (simp add: Atoi_def Itoa_def read_nat_def read_nat_digits in_range64_def)
next
  case False
  assume "is_int64 i"
  with False show ?thesis by (simp add: Itoa_def Atoi_digits in_range64_def)
qed

lemma Atoi_range: "Atoi s = Some i \<Longrightarrow> is_int64 i"
  by (auto simp: Atoi_def in_range64_def split: list.splits if_splits option.splits)

section \<open>Lemmas on runes\<close>

lemma rune_len_le: "rune_len s \<le> length s"
  by (cases s rule: rune_len.cases) (auto split: list.split)

lemma ok_disjoint: "ok2 a b \<Longrightarrow> \<not> ok3 a b c" "ok2 a b \<Longrightarrow> \<not> ok4 a b c d" "ok3 a b c \<Longrightarrow> \<not> ok4 a b c d"
  by (auto simp: ok2_def ok3_def ok4_def)

lemma good_rune_append: "good_rune r \<Longrightarrow> rune_len (r @ t) = length r"
  by (cases r rule: rune_len.cases)
    (auto simp: good_rune_def split: list.splits if_splits)

lemma good_rune_take: "rune_len s \<noteq> 0 \<Longrightarrow> good_rune (take (rune_len s) s)"
  by (cases s rule: rune_len.cases)
    (auto simp: good_rune_def split: list.splits if_splits)

lemma good_rune_error: "good_rune rune_error"
  by (simp add: good_rune_def rune_error_def byte_def ok2_def ok3_def cont_def)

lemma runes_Nil [simp]: "runes [] = []"
  by (subst runes.simps) simp

lemma runes_eq_Nil [simp]: "runes s = [] \<longleftrightarrow> s = []"
  by (subst runes.simps) simp

lemma runes_good: "r \<in> set (runes s) \<Longrightarrow> good_rune r"
proof (induction s rule: runes.induct)
  case (1 s)
  then show ?case
    by (cases "s = []"; cases "rune_len s = 0")
      (auto simp: runes.simps [of s] good_rune_error good_rune_take)
qed

lemma runes_Cons_append: "good_rune r \<Longrightarrow> runes (r @ t) = r # runes t"
  by (subst runes.simps) (auto simp: good_rune_append, auto simp: good_rune_def)

lemma runes_concat: "(\<And>r. r \<in> set rs \<Longrightarrow> good_rune r) \<Longrightarrow> runes (concat rs) = rs"
  by (induction rs) (auto simp: runes_Cons_append)

lemma runes_concat_take [simp]: "runes (concat (take n (runes s))) = take n (runes s)"
  by (rule runes_concat) (metis in_set_takeD runes_good)

lemma valid_utf8_concat: "(\<And>r. r \<in> set rs \<Longrightarrow> good_rune r) \<Longrightarrow> valid_utf8 (concat rs)"
  by (simp add: valid_utf8_def runes_concat)

lemma ascii_rune: "byte a < 0x80 \<Longrightarrow> good_rune [a]"
  by (simp add: good_rune_def)

lemma ascii_valid: "(\<And>c. c \<in> set s \<Longrightarrow> byte c < 0x80) \<Longrightarrow> valid_utf8 s"
proof -
  assume "\<And>c. c \<in> set s \<Longrightarrow> byte c < 0x80"
  then have "valid_utf8 (concat (map (\<lambda>c. [c]) s))"
    by (intro valid_utf8_concat) (auto simp: ascii_rune)
  then show ?thesis by simp
qed

lemma Itoa_valid: "valid_utf8 (Itoa i)"
proof (rule ascii_valid)
  fix c assume "c \<in> set (Itoa i)"
  then have "c = CHR ''-'' \<or> is_digit c"
    using nat_digits_is_digit [of c] by (auto simp: Itoa_def split: if_splits)
  then show "byte c < 0x80" by (auto simp: is_digit_def byte_def)
qed

end
