(* ===== verification/Go_Json.thy ===== *)
theory Go_Json
  imports Go_Base
begin

text \<open>
  What the program uses of \<open>encoding/json\<close>.

  \<^item> \<open>json\<close>: decoded values. A number keeps its literal, as \<open>Decoder.UseNumber\<close> does.
    An object is a list of members; the value of a Go map is kept in the canonical form
    \<open>normalize\<close> (sorted keys, the last of two equal keys), which is the order in which
    \<open>json.Marshal\<close> prints a map.
  \<^item> \<open>marshal\<close>: \<open>json.Marshal\<close> with its escapes (HTML characters, control characters,
    U+2028 and U+2029, invalid UTF-8).
  \<^item> \<open>parse_value\<close>: one value at the head of the input, as \<open>Decoder.Decode\<close> reads it, with
    the nesting limit of the package. Every call spends one unit of fuel;
    \<open>json_decode\<close> starts it with more than the input can use (\<open>parse_fuel_enough\<close>).

  Lemmas: a string written by \<open>marshal\<close> is read back (\<open>parse_str_escape\<close>), and so is
  every well-formed value (\<open>parse_marshal\<close>).
\<close>

datatype json =
    JNull
  | JBool bool
  | JNum bytes
  | JStr bytes
  | JArr "json list"
  | JObj "(bytes \<times> json) list"

section \<open>Go maps\<close>

fun obj_put :: "bytes \<Rightarrow> 'v \<Rightarrow> (bytes \<times> 'v) list \<Rightarrow> (bytes \<times> 'v) list" where
  "obj_put k v [] = [(k, v)]"
| "obj_put k v ((k', v') # m) =
     (if k = k' then (k, v) # m
      else if k < k' then (k, v) # (k', v') # m
      else (k', v') # obj_put k v m)"

fun go_map :: "(bytes \<times> 'v) list \<Rightarrow> (bytes \<times> 'v) list" where
  "go_map [] = []"
| "go_map ((k, v) # kvs) = (if k \<in> fst ` set kvs then go_map kvs else obj_put k v (go_map kvs))"

fun normalize :: "json \<Rightarrow> json" where
  "normalize (JArr xs) = JArr (map normalize xs)"
| "normalize (JObj kvs) = JObj (go_map (map (\<lambda>(k, v). (k, normalize v)) kvs))"
| "normalize v = v"

section \<open>json.Marshal\<close>

definition hex_digit :: "nat \<Rightarrow> char" where
  "hex_digit d = (if d < 10 then char_of (48 + d) else char_of (87 + d))"

definition esc_u :: "nat \<Rightarrow> bytes" where
  "esc_u r = [CHR 0x5C, CHR ''u'', hex_digit (r div 4096 mod 16), hex_digit (r div 256 mod 16),
              hex_digit (r div 16 mod 16), hex_digit (r mod 16)]"

definition esc_ascii :: "char \<Rightarrow> bytes" where
  "esc_ascii a =
     (if a = CHR 0x22 \<or> a = CHR 0x5C then [CHR 0x5C, a]
      else if a = CHR 0x08 then [CHR 0x5C, CHR ''b'']
      else if a = CHR 0x0C then [CHR 0x5C, CHR ''f'']
      else if a = CHR 0x0A then [CHR 0x5C, CHR ''n'']
      else if a = CHR 0x0D then [CHR 0x5C, CHR ''r'']
      else if a = CHR 0x09 then [CHR 0x5C, CHR ''t'']
      else if byte a < 0x20 \<or> a = CHR ''<'' \<or> a = CHR ''>'' \<or> a = CHR ''&'' then esc_u (byte a)
      else [a])"

function escape :: "bytes \<Rightarrow> bytes" where
  "escape s =
     (if s = [] then []
      else if byte (hd s) < 0x80 then esc_ascii (hd s) @ escape (tl s)
      else if rune_len s = 0 then esc_u 0xFFFD @ escape (tl s)
      else if take 3 s = [CHR 0xE2, CHR 0x80, CHR 0xA8] then esc_u 0x2028 @ escape (drop 3 s)
      else if take 3 s = [CHR 0xE2, CHR 0x80, CHR 0xA9] then esc_u 0x2029 @ escape (drop 3 s)
      else take (rune_len s) s @ escape (drop (rune_len s) s))"
  by pat_completeness auto
termination by (relation "measure length") auto

declare escape.simps [simp del]

definition quote :: "bytes \<Rightarrow> bytes" where
  "quote s = CHR 0x22 # escape s @ [CHR 0x22]"

fun marshal :: "json \<Rightarrow> bytes"
and marshal_elems :: "json list \<Rightarrow> bytes"
and marshal_members :: "(bytes \<times> json) list \<Rightarrow> bytes" where
  "marshal JNull = ''null''"
| "marshal (JBool True) = ''true''"
| "marshal (JBool False) = ''false''"
| "marshal (JNum n) = n"
| "marshal (JStr s) = quote s"
| "marshal (JArr []) = ''[]''"
| "marshal (JArr (x # xs)) = CHR ''['' # marshal x @ marshal_elems xs"
| "marshal (JObj []) = ''{}''"
| "marshal (JObj ((k, v) # kvs)) =
     CHR ''{'' # quote k @ CHR '':'' # marshal v @ marshal_members kvs"
| "marshal_elems [] = '']''"
| "marshal_elems (x # xs) = CHR '','' # marshal x @ marshal_elems xs"
| "marshal_members [] = ''}''"
| "marshal_members ((k, v) # kvs) =
     CHR '','' # quote k @ CHR '':'' # marshal v @ marshal_members kvs"

section \<open>Decoding\<close>

definition is_json_space :: "char \<Rightarrow> bool" where
  "is_json_space c \<longleftrightarrow> c = CHR 0x20 \<or> c = CHR 0x09 \<or> c = CHR 0x0D \<or> c = CHR 0x0A"

definition skip_space :: "bytes \<Rightarrow> bytes" where
  "skip_space s = dropWhile is_json_space s"

definition hex_val :: "char \<Rightarrow> nat option" where
  "hex_val c =
     (if 48 \<le> byte c \<and> byte c \<le> 57 then Some (byte c - 48)
      else if 97 \<le> byte c \<and> byte c \<le> 102 then Some (byte c - 87)
      else if 65 \<le> byte c \<and> byte c \<le> 70 then Some (byte c - 55)
      else None)"

fun hex4 :: "bytes \<Rightarrow> nat option" where
  "hex4 (a # b # c # d # s) =
     (case (hex_val a, hex_val b, hex_val c, hex_val d) of
        (Some w, Some x, Some y, Some z) \<Rightarrow> Some (4096 * w + 256 * x + 16 * y + z)
      | _ \<Rightarrow> None)"
| "hex4 s = None"

definition utf8_encode :: "nat \<Rightarrow> bytes" where
  "utf8_encode r =
     (if r < 0x80 then [char_of r]
      else if r < 0x800 then [char_of (0xC0 + r div 64), char_of (0x80 + r mod 64)]
      else if r < 0x10000 then
        [char_of (0xE0 + r div 4096), char_of (0x80 + r div 64 mod 64), char_of (0x80 + r mod 64)]
      else
        [char_of (0xF0 + r div 262144), char_of (0x80 + r div 4096 mod 64),
         char_of (0x80 + r div 64 mod 64), char_of (0x80 + r mod 64)])"

text \<open>
  The text of one \<open>\u\<close> escape after its four digits are known: the bytes it stands for and
  how much of the following input it takes with it (the second half of a surrogate pair).
\<close>

definition unescape_u :: "nat \<Rightarrow> bytes \<Rightarrow> bytes \<times> nat" where
  "unescape_u r s =
     (if r < 0xD800 \<or> 0xDFFF < r then (utf8_encode r, 0)
      else
        case (if take 2 s = [CHR 0x5C, CHR ''u''] then hex4 (drop 2 s) else None) of
          None \<Rightarrow> (rune_error, 0)
        | Some r2 \<Rightarrow>
            if r < 0xDC00 \<and> 0xDC00 \<le> r2 \<and> r2 \<le> 0xDFFF
            then (utf8_encode ((r - 0xD800) * 1024 + (r2 - 0xDC00) + 0x10000), 6)
            else (rune_error, 0))"

definition esc_char :: "char \<Rightarrow> char option" where
  "esc_char e =
     (if e = CHR 0x22 \<or> e = CHR 0x5C \<or> e = CHR 0x2F then Some e
      else if e = CHR ''b'' then Some (CHR 0x08)
      else if e = CHR ''f'' then Some (CHR 0x0C)
      else if e = CHR ''n'' then Some (CHR 0x0A)
      else if e = CHR ''r'' then Some (CHR 0x0D)
      else if e = CHR ''t'' then Some (CHR 0x09)
      else None)"

definition prepend :: "bytes \<Rightarrow> (bytes \<times> bytes) option \<Rightarrow> (bytes \<times> bytes) option" where
  "prepend x r = map_option (\<lambda>(d, s). (x @ d, s)) r"

text \<open>The rest of a string literal, after its opening quote: the decoded string and what
  follows the closing quote.\<close>

function parse_str :: "bytes \<Rightarrow> (bytes \<times> bytes) option" where
  "parse_str [] = None"
| "parse_str (a # t) =
     (if a = CHR 0x22 then Some ([], t)
      else if a = CHR 0x5C then
        (if t = [] then None
         else if hd t = CHR ''u'' then
           (case hex4 (tl t) of
              None \<Rightarrow> None
            | Some r \<Rightarrow>
                let w = unescape_u r (drop 5 t) in prepend (fst w) (parse_str (drop (5 + snd w) t)))
         else
           (case esc_char (hd t) of
              None \<Rightarrow> None
            | Some c \<Rightarrow> prepend [c] (parse_str (tl t))))
      else if byte a < 0x20 then None
      else if byte a < 0x80 then prepend [a] (parse_str t)
      else if rune_len (a # t) = 0 then prepend rune_error (parse_str t)
      else prepend (take (rune_len (a # t)) (a # t)) (parse_str (drop (rune_len (a # t)) (a # t))))"
  by pat_completeness auto
termination
  by (relation "measure length") auto

declare parse_str.simps [simp del]

fun scan_exp :: "bytes \<Rightarrow> bytes \<Rightarrow> (bytes \<times> bytes) option" where
  "scan_exp acc [] = Some (acc, [])"
| "scan_exp acc (c # s) =
     (if c = CHR ''e'' \<or> c = CHR ''E'' then
        (let sign = (if s \<noteq> [] \<and> (hd s = CHR ''+'' \<or> hd s = CHR ''-'') then [hd s] else []);
             t = drop (length sign) s; ds = takeWhile is_digit t
         in if ds = [] then None else Some (acc @ c # sign @ ds, dropWhile is_digit t))
      else Some (acc, c # s))"

fun scan_frac :: "bytes \<Rightarrow> bytes \<Rightarrow> (bytes \<times> bytes) option" where
  "scan_frac acc [] = Some (acc, [])"
| "scan_frac acc (c # s) =
     (if c = CHR ''.'' then
        (let ds = takeWhile is_digit s in
         if ds = [] then None else scan_exp (acc @ c # ds) (dropWhile is_digit s))
      else scan_exp acc (c # s))"

definition scan_number :: "bytes \<Rightarrow> (bytes \<times> bytes) option" where
  "scan_number s =
     (let sign = (if s \<noteq> [] \<and> hd s = CHR ''-'' then ''-'' else []); t = drop (length sign) s in
      if t = [] then None
      else if hd t = CHR ''0'' then scan_frac (sign @ ''0'') (tl t)
      else if is_digit (hd t) then scan_frac (sign @ takeWhile is_digit t) (dropWhile is_digit t)
      else None)"

definition literal :: "bytes \<Rightarrow> json \<Rightarrow> bytes \<Rightarrow> (json \<times> bytes) option" where
  "literal w v s = (if take (length w) s = w then Some (v, drop (length w) s) else None)"

definition maxNestingDepth :: int where "maxNestingDepth = 10000"

fun parse_value :: "nat \<Rightarrow> int \<Rightarrow> bytes \<Rightarrow> (json \<times> bytes) option"
and parse_elems :: "nat \<Rightarrow> int \<Rightarrow> bytes \<Rightarrow> (json list \<times> bytes) option"
and parse_members :: "nat \<Rightarrow> int \<Rightarrow> bytes \<Rightarrow> ((bytes \<times> json) list \<times> bytes) option" where
  "parse_value 0 d s = None"
| "parse_value (Suc n) d s =
     (case skip_space s of
        [] \<Rightarrow> None
      | c # t \<Rightarrow>
          if c = CHR 0x22 then map_option (\<lambda>(x, r). (JStr x, r)) (parse_str t)
          else if c = CHR ''['' then
            (if maxNestingDepth \<le> d then None
             else if take 1 (skip_space t) = '']'' then Some (JArr [], tl (skip_space t))
             else map_option (\<lambda>(xs, r). (JArr xs, r)) (parse_elems n (d + 1) t))
          else if c = CHR ''{'' then
            (if maxNestingDepth \<le> d then None
             else if take 1 (skip_space t) = ''}'' then Some (JObj [], tl (skip_space t))
             else map_option (\<lambda>(kvs, r). (JObj kvs, r)) (parse_members n (d + 1) t))
          else if c = CHR ''t'' then literal ''true'' (JBool True) (c # t)
          else if c = CHR ''f'' then literal ''false'' (JBool False) (c # t)
          else if c = CHR ''n'' then literal ''null'' JNull (c # t)
          else map_option (\<lambda>(x, r). (JNum x, r)) (scan_number (c # t)))"
| "parse_elems 0 d s = None"
| "parse_elems (Suc n) d s =
     (case parse_value n d s of
        None \<Rightarrow> None
      | Some (v, r) \<Rightarrow>
          (case skip_space r of
             [] \<Rightarrow> None
           | c # t \<Rightarrow>
               if c = CHR '']'' then Some ([v], t)
               else if c = CHR '','' then map_option (\<lambda>(xs, u). (v # xs, u)) (parse_elems n d t)
               else None))"
| "parse_members 0 d s = None"
| "parse_members (Suc n) d s =
     (if take 1 (skip_space s) \<noteq> [CHR 0x22] then None
      else
        case parse_str (tl (skip_space s)) of
          None \<Rightarrow> None
        | Some (k, r) \<Rightarrow>
            if take 1 (skip_space r) \<noteq> '':'' then None
            else
              (case parse_value n d (tl (skip_space r)) of
                 None \<Rightarrow> None
               | Some (v, r2) \<Rightarrow>
                   (case skip_space r2 of
                      [] \<Rightarrow> None
                    | c # t \<Rightarrow>
                        if c = CHR ''}'' then Some ([(k, v)], t)
                        else if c = CHR '','' then
                          map_option (\<lambda>(kvs, u). ((k, v) # kvs, u)) (parse_members n d t)
                        else None)))"

definition json_fuel :: "bytes \<Rightarrow> nat" where
  "json_fuel s = 2 * length s + 2"

text \<open>One call of \<open>Decoder.Decode\<close>: end of input, a syntax error, or a value and the rest.\<close>

datatype decoded = DecEOF | DecErr | DecVal json bytes

definition json_decode :: "bytes \<Rightarrow> decoded" where
  "json_decode s =
     (if skip_space s = [] then DecEOF
      else case parse_value (json_fuel s) 0 s of None \<Rightarrow> DecErr | Some (v, r) \<Rightarrow> DecVal v r)"

text \<open>\<open>json.Unmarshal\<close>: exactly one value, with nothing but white space around it.\<close>

definition json_unmarshal :: "bytes \<Rightarrow> json option" where
  "json_unmarshal s =
     (case json_decode s of
        DecVal v r \<Rightarrow> if skip_space r = [] then Some v else None
      | _ \<Rightarrow> None)"

text \<open>
  Library functions that stay parameters: the SHA-256 digest, the texts of the syntax errors of
  \<open>encoding/json\<close>, and the text of a number that went through a \<open>float64\<close>
  (\<open>None\<close> when it is out of range).
\<close>

record golib =
  lib_sha256 :: "bytes \<Rightarrow> bytes"
  lib_json_error :: "bytes \<Rightarrow> error"
  lib_float64 :: "bytes \<Rightarrow> bytes option"

text \<open>An example of such a library, used in concrete evaluations.\<close>

definition plain_lib :: golib where
  "plain_lib = \<lparr>lib_sha256 = (\<lambda>x. x), lib_json_error = (\<lambda>_. ErrNew ''invalid''), lib_float64 = Some\<rparr>"

text \<open>A JSON value decoded into an \<open>any\<close>: numbers go through a \<open>float64\<close>, objects become
  maps. \<open>None\<close> when a number is out of range.\<close>

fun to_any :: "golib \<Rightarrow> json \<Rightarrow> json option"
and to_any_list :: "golib \<Rightarrow> json list \<Rightarrow> json list option"
and to_any_members :: "golib \<Rightarrow> (bytes \<times> json) list \<Rightarrow> (bytes \<times> json) list option" where
  "to_any lib (JNum t) = map_option JNum (lib_float64 lib t)"
| "to_any lib (JArr xs) = map_option JArr (to_any_list lib xs)"
| "to_any lib (JObj kvs) = map_option (\<lambda>m. JObj (go_map m)) (to_any_members lib kvs)"
| "to_any lib v = Some v"
| "to_any_list lib [] = Some []"
| "to_any_list lib (x # xs) =
     (case to_any lib x of None \<Rightarrow> None | Some y \<Rightarrow> map_option (\<lambda>ys. y # ys) (to_any_list lib xs))"
| "to_any_members lib [] = Some []"
| "to_any_members lib (kv # kvs) =
     (case to_any lib (snd kv) of
        None \<Rightarrow> None
      | Some y \<Rightarrow> map_option (\<lambda>ys. (fst kv, y) # ys) (to_any_members lib kvs))"

definition hex_encode :: "bytes \<Rightarrow> bytes" where
  "hex_encode s = concat (map (\<lambda>c. [hex_digit (byte c div 16), hex_digit (byte c mod 16)]) s)"

text \<open>What is true of every Go map in the model: its keys are sorted and distinct.\<close>

definition sorted_keys :: "(bytes \<times> 'v) list \<Rightarrow> bool" where
  "sorted_keys m \<longleftrightarrow> sorted_wrt (<) (map fst m)"

text \<open>Values that \<open>marshal\<close> prints faithfully: valid UTF-8, valid number literals. What may
  follow a number without being read as part of it, and what a value may start with.\<close>

definition num_stop :: "bytes \<Rightarrow> bool" where
  "num_stop t \<longleftrightarrow> t = [] \<or> \<not> is_digit (hd t) \<and> hd t \<notin> {CHR ''.'', CHR ''e'', CHR ''E''}"

fun wf_json :: "json \<Rightarrow> bool" where
  "wf_json (JNum n) \<longleftrightarrow> scan_number n = Some (n, [])"
| "wf_json (JStr s) \<longleftrightarrow> valid_utf8 s"
| "wf_json (JArr xs) \<longleftrightarrow> (\<forall>x \<in> set xs. wf_json x)"
| "wf_json (JObj kvs) \<longleftrightarrow> (\<forall>(k, v) \<in> set kvs. valid_utf8 k \<and> wf_json v)"
| "wf_json v \<longleftrightarrow> True"

fun json_depth :: "json \<Rightarrow> int" where
  "json_depth (JArr xs) = 1 + fold max (map json_depth xs) 0"
| "json_depth (JObj kvs) = 1 + fold max (map (\<lambda>(k, v). json_depth v) kvs) 0"
| "json_depth v = 0"

definition value_head :: "char \<Rightarrow> bool" where
  "value_head c \<longleftrightarrow> \<not> is_json_space c \<and> c \<notin> {CHR '']'', CHR ''}'', CHR '','', CHR '':''}"

section \<open>Reading back a marshalled string\<close>

lemma hex_val_digit [simp]: "d < 16 \<Longrightarrow> hex_val (hex_digit d) = Some d"
  by (auto simp: hex_val_def hex_digit_def byte_def)

lemma hex4_esc: "r < 65536 \<Longrightarrow> hex4 (tl (tl (esc_u r)) @ t) = Some r"
proof -
  assume "r < 65536"
  define a b c where "a = r div 16" and "b = a div 16" and "c = b div 16"
  have "r div 256 = b" "r div 4096 = c"
    by (simp_all add: a_def b_def c_def flip: div_mult2_eq)
  moreover have "c < 16" using \<open>r < 65536\<close> by (simp add: a_def b_def c_def flip: div_mult2_eq)
  moreover have "r = 16 * a + r mod 16" "a = 16 * b + a mod 16" "b = 16 * c + b mod 16"
    by (simp_all add: a_def b_def c_def)
  ultimately have "4096 * (r div 4096) + 256 * (r div 256 mod 16) + 16 * (r div 16 mod 16) + r mod 16 = r"
    and "r div 4096 < 16"
    unfolding a_def [symmetric] by simp_all
  then show ?thesis by (simp add: esc_u_def)
qed

lemma byte_lt_256: "byte c < 256"
  by (simp add: byte_def of_char_def)
   
lemma char_of_byte [simp]: "char_of (byte c) = c"
  by (simp add: byte_def)

lemma byte_inject [simp]: "byte a = byte b \<longleftrightarrow> a = b"
  by (metis char_of_byte)

lemma parse_str_esc_u:
  assumes "r < 65536" "r < 0xD800 \<or> 0xDFFF < r"
  shows "parse_str (esc_u r @ t) = prepend (utf8_encode r) (parse_str t)"
proof -
  obtain w x y z where e: "esc_u r = CHR 0x5C # CHR ''u'' # w # x # y # [z]"
    by (simp add: esc_u_def)
  have "hex4 (w # x # y # z # t) = Some r" using hex4_esc [OF assms(1), of t] e by simp
  then show ?thesis using assms(2)
    by (simp add: e parse_str.simps unescape_u_def del: hex4.simps)
qed

lemma parse_str_plain:
  "\<lbrakk> 0x20 \<le> byte a; byte a < 0x80; a \<noteq> CHR 0x22; a \<noteq> CHR 0x5C \<rbrakk> \<Longrightarrow>
   parse_str (a # t) = prepend [a] (parse_str t)"
  by (simp add: parse_str.simps(2))

lemma parse_str_esc_ascii:
  assumes "byte a < 0x80"
  shows "parse_str (esc_ascii a @ t) = prepend [a] (parse_str t)"
proof (cases "a \<in> {CHR 0x22, CHR 0x5C, CHR 0x08, CHR 0x0C, CHR 0x0A, CHR 0x0D, CHR 0x09}")
  case True
  then show ?thesis by (auto simp: esc_ascii_def parse_str.simps(2) esc_char_def)
next
  case sp: False
  show ?thesis
  proof (cases "byte a < 0x20 \<or> a = CHR ''<'' \<or> a = CHR ''>'' \<or> a = CHR ''&''")
    case True
    with sp have "esc_ascii a = esc_u (byte a)" by (simp add: esc_ascii_def)
    then show ?thesis using assms by (simp add: parse_str_esc_u utf8_encode_def)
  next
    case False
    with sp assms show ?thesis by (simp add: esc_ascii_def parse_str_plain)
  qed
qed

lemma good_rune_multi:
  assumes "good_rune r" "0x80 \<le> byte (hd r)"
  shows "parse_str (r @ t) = prepend r (parse_str t)"
proof -
  obtain a r' where r: "r = a # r'" using assms by (cases r) (auto simp: good_rune_def)
  have "rune_len (a # r' @ t) = length r" using good_rune_append [OF assms(1), of t] r by simp
  moreover have "a \<noteq> CHR 0x22" "a \<noteq> CHR 0x5C" using assms(2) r by (auto simp: byte_def)
  ultimately show ?thesis using assms(2) r by (simp add: parse_str.simps(2))
qed

lemma rune_error_long: "valid_utf8 s \<Longrightarrow> s \<noteq> [] \<Longrightarrow> rune_len s \<noteq> 0 \<and> valid_utf8 (drop (rune_len s) s)"
proof -
  assume v: "valid_utf8 s" and ne: "s \<noteq> []"
  have grow: "length u \<le> length (concat (runes u))" for u
  proof (induction u rule: runes.induct)
    case (1 u)
    show ?case
    proof (cases "u = []")
      case False
      with 1 rune_len_le [of u] show ?thesis
        by (cases "rune_len u = 0") (auto simp: runes.simps [of u] rune_error_def)
    qed simp
  qed
  show ?thesis
  proof (cases "rune_len s = 0")
    case True
    then have "length (concat (runes s)) = 3 + length (concat (runes (tl s)))"
      using ne by (subst runes.simps) (simp add: rune_error_def)
    then have "length (concat (runes s)) > length s" using grow [of "tl s"] by simp
    then show ?thesis using v by (simp add: valid_utf8_def)
  next
    case False
    then have "take (rune_len s) s @ concat (runes (drop (rune_len s) s)) = take (rune_len s) s @ drop (rune_len s) s"
      using v ne unfolding valid_utf8_def by (subst (asm) runes.simps) simp
    then have "concat (runes (drop (rune_len s) s)) = drop (rune_len s) s"
      by (simp only: same_append_eq)
    then show ?thesis using False by (simp add: valid_utf8_def)
  qed
qed

lemma utf8_encode_separators:
  "utf8_encode 0x2028 = [CHR 0xE2, CHR 0x80, CHR 0xA8]"
  "utf8_encode 0x2029 = [CHR 0xE2, CHR 0x80, CHR 0xA9]"
proof -
  have "char_of (0xE2 :: nat) = CHR 0xE2" "char_of (0x80 :: nat) = CHR 0x80"
    "char_of (0xA8 :: nat) = CHR 0xA8" "char_of (0xA9 :: nat) = CHR 0xA9" by code_simp+
  then show "utf8_encode 0x2028 = [CHR 0xE2, CHR 0x80, CHR 0xA8]"
    "utf8_encode 0x2029 = [CHR 0xE2, CHR 0x80, CHR 0xA9]"
    by (simp_all add: utf8_encode_def)
qed

lemma take3_rune:
  assumes "take 3 s = [a, b, c]" "ok3 a b c" 
  shows "rune_len s = 3"
proof -
  obtain t where s: "s = a # b # c # t"
    using assms(1) by (metis append_Cons append_Nil append_take_drop_id)
  have "\<not> ok2 a b" "\<not> byte a < 0x80" using assms(2) by (auto simp: ok2_def ok3_def)
  then show ?thesis using assms(2) s by simp
qed

lemma parse_str_escape: "valid_utf8 s \<Longrightarrow> parse_str (escape s @ CHR 0x22 # t) = Some (s, t)"
proof (induction s rule: escape.induct)
  case (1 s)
  let ?P = "\<lambda>s. parse_str (escape s @ CHR 0x22 # t) = Some (s, t)"
  show ?case
  proof (cases "s = []")
    case True
    then show ?thesis by (subst escape.simps) (simp add: parse_str.simps)
  next
    case ne: False
    have len: "rune_len s \<noteq> 0" and rest: "valid_utf8 (drop (rune_len s) s)"
      using rune_error_long [OF 1(6) ne] by auto
    show ?thesis
    proof (cases "byte (hd s) < 0x80")
      case True
      then have "rune_len s = 1" using ne by (cases s) auto
      with rest have "?P (tl s)" using 1(1) ne True by (simp add: drop_Suc)
      then show ?thesis using ne True
        by (subst escape.simps) (simp add: parse_str_esc_ascii prepend_def)
    next
      case high: False
      consider (a) "take 3 s = [CHR 0xE2, CHR 0x80, CHR 0xA8]" | (b) "take 3 s = [CHR 0xE2, CHR 0x80, CHR 0xA9]"
        | (c) "take 3 s \<noteq> [CHR 0xE2, CHR 0x80, CHR 0xA8]" "take 3 s \<noteq> [CHR 0xE2, CHR 0x80, CHR 0xA9]" by blast
      then show ?thesis
      proof cases
        case a
        then have "rune_len s = 3" by (rule take3_rune) (simp add: ok3_def cont_def byte_def)
        with rest have "?P (drop 3 s)" using 1(3) ne high len a by simp
        moreover have "utf8_encode 0x2028 = take 3 s" by (simp only: utf8_encode_separators a)
        moreover have "escape s = esc_u 0x2028 @ escape (drop 3 s)"
          using ne high len a by (subst escape.simps) simp
        ultimately show ?thesis by (simp add: parse_str_esc_u prepend_def)
      next
        case b
        then have "rune_len s = 3" by (rule take3_rune) (simp add: ok3_def cont_def byte_def)
        with rest have "?P (drop 3 s)" using 1(4) ne high len b by simp
        moreover have "utf8_encode 0x2029 = take 3 s" by (simp only: utf8_encode_separators b)
        moreover have "escape s = esc_u 0x2029 @ escape (drop 3 s)"
          using ne high len b by (subst escape.simps) simp
        ultimately show ?thesis by (simp add: parse_str_esc_u prepend_def)
      next
        case c
        then have "?P (drop (rune_len s) s)" using 1(5) ne high len rest by simp
        moreover have "hd (take (rune_len s) s) = hd s" using len by (simp add: hd_take)
        ultimately show ?thesis using ne high len c
          by (subst escape.simps) (simp add: good_rune_multi good_rune_take prepend_def)
      qed
    qed
  qed
qed

section \<open>Reading back a marshalled value\<close>

lemma fold_max_le: "fold max xs (a::int) \<le> b \<longleftrightarrow> a \<le> b \<and> (\<forall>x \<in> set xs. x \<le> b)"
  by (induction xs arbitrary: a) auto

lemma fold_max_ge: "a \<le> fold max xs (a::int)"
  by (induction xs arbitrary: a) (auto intro: order_trans [OF max.cobounded2])

lemma takeWhile_stop: "num_stop t \<Longrightarrow> takeWhile is_digit (s @ t) = takeWhile is_digit s"
  "num_stop t \<Longrightarrow> dropWhile is_digit (s @ t) = dropWhile is_digit s @ t"
  by (induction s) (auto simp: num_stop_def, (cases t; auto)+)

lemma scan_exp_append:
  "scan_exp acc s = Some (x, r) \<Longrightarrow> num_stop t \<Longrightarrow> r = [] \<Longrightarrow> scan_exp acc (s @ t) = Some (x, t)"
proof (induction acc s rule: scan_exp.induct)
  case (1 acc)
  then show ?case by (cases t) (auto simp: num_stop_def)
next
  case (2 acc c s)
  then show ?case
    by (cases s) (auto simp: Let_def takeWhile_stop split: if_splits)
qed

lemma scan_frac_append:
  "scan_frac acc s = Some (x, []) \<Longrightarrow> num_stop t \<Longrightarrow> scan_frac acc (s @ t) = Some (x, t)"
proof (induction acc s rule: scan_frac.induct)
  case (1 acc)
  then show ?case by (cases t) (auto simp: num_stop_def scan_exp_append)
next
  case (2 acc c s)
  then show ?case
    using scan_exp_append [of acc "c # s" x "[]" t]
    by (auto simp: Let_def takeWhile_stop scan_exp_append split: if_splits)
qed

lemma scan_number_append:
  assumes "scan_number s = Some (x, [])" "num_stop t"
  shows "scan_number (s @ t) = Some (x, t)"
proof -
  have ne: "s \<noteq> []" using assms(1) by (auto simp: scan_number_def)
  define sign where "sign = (if hd s = CHR ''-'' then ''-'' else [])"
  define u where "u = drop (length sign) s"
  have u: "drop (length sign) (s @ t) = u @ t"
    using ne by (cases s) (auto simp: sign_def u_def)
  have une: "u \<noteq> []" using assms(1) ne by (auto simp: scan_number_def Let_def sign_def u_def split: if_splits)
  have "scan_number (s @ t) =
     (if hd u = CHR ''0'' then scan_frac (sign @ ''0'') (tl u @ t)
      else if is_digit (hd u) then scan_frac (sign @ takeWhile is_digit u) (dropWhile is_digit u @ t)
      else None)"
    using ne une u assms(2)
    by (simp add: scan_number_def Let_def takeWhile_stop del: drop_append drop_eq_Nil flip: sign_def)
  moreover have "scan_number s =
     (if hd u = CHR ''0'' then scan_frac (sign @ ''0'') (tl u)
      else if is_digit (hd u) then scan_frac (sign @ takeWhile is_digit u) (dropWhile is_digit u)
      else None)"
    using ne une by (simp add: scan_number_def Let_def del: drop_eq_Nil flip: sign_def u_def)
  ultimately show ?thesis using assms by (auto simp: scan_frac_append split: if_splits)
qed

lemma scan_number_head:
  "scan_number s = Some (x, r) \<Longrightarrow> \<exists>c t. s = c # t \<and> (c = CHR ''-'' \<or> is_digit c)"
  by (cases s) (auto simp: scan_number_def Let_def is_digit_def split: if_splits)

lemma marshal_head: "wf_json v \<Longrightarrow> \<exists>c t. marshal v = c # t \<and> value_head c"
  by (cases v rule: marshal.cases)
    (auto simp: value_head_def is_json_space_def quote_def is_digit_def dest!: scan_number_head)

lemma marshal_elems_stop: "num_stop (marshal_elems xs @ t)"
  by (cases xs) (auto simp: num_stop_def is_digit_def)

lemma marshal_members_stop: "num_stop (marshal_members xs @ t)"
  by (cases xs rule: marshal_members.cases) (auto simp: num_stop_def is_digit_def)

lemma skip_space_head: "\<not> is_json_space c \<Longrightarrow> skip_space (c # t) = c # t"
  by (simp add: skip_space_def)


declare parse_value.simps [simp del] parse_elems.simps [simp del] parse_members.simps [simp del]

text \<open>One step of each parser.\<close>

lemma parse_value_quote:
  "valid_utf8 x \<Longrightarrow> parse_value (Suc n) d (quote x @ t) = Some (JStr x, t)"
  by (simp add: quote_def skip_space_head is_json_space_def parse_str_escape parse_value.simps)

lemma parse_value_num:
  assumes "scan_number x = Some (x, [])" "num_stop t"
  shows "parse_value (Suc n) d (x @ t) = Some (JNum x, t)"
proof -
  obtain c u where x: "x = c # u" "c = CHR ''-'' \<or> is_digit c"
    using scan_number_head [OF assms(1)] by auto
  have "\<not> is_json_space c" "c \<notin> {CHR 0x22, CHR ''['', CHR ''{'', CHR ''t'', CHR ''f'', CHR ''n''}"
    using x(2) by (auto simp: is_digit_def is_json_space_def)
  then show ?thesis using scan_number_append [OF assms] x(1)
    by (simp add: skip_space_head parse_value.simps)
qed

lemma parse_value_literals:
  "parse_value (Suc n) d (''null'' @ t) = Some (JNull, t)"
  "parse_value (Suc n) d (''true'' @ t) = Some (JBool True, t)"
  "parse_value (Suc n) d (''false'' @ t) = Some (JBool False, t)"
  by (simp_all add: skip_space_head is_json_space_def literal_def parse_value.simps)

lemma parse_value_empty:
  "d < maxNestingDepth \<Longrightarrow> parse_value (Suc n) d (''[]'' @ t) = Some (JArr [], t)"
  "d < maxNestingDepth \<Longrightarrow> parse_value (Suc n) d (''{}'' @ t) = Some (JObj [], t)"
  by (simp_all add: skip_space_head is_json_space_def parse_value.simps)

lemma parse_value_arr:
  "\<lbrakk>d < maxNestingDepth; value_head c; parse_elems n (d + 1) (c # u) = Some (xs, t)\<rbrakk> \<Longrightarrow>
   parse_value (Suc n) d (CHR ''['' # c # u) = Some (JArr xs, t)"
  by (simp add: value_head_def skip_space_head parse_value.simps is_json_space_def)

lemma parse_value_obj:
  "\<lbrakk>d < maxNestingDepth; parse_members n (d + 1) (quote k @ u) = Some (kvs, t)\<rbrakk> \<Longrightarrow>
   parse_value (Suc n) d (CHR ''{'' # quote k @ u) = Some (JObj kvs, t)"
  by (simp add: quote_def skip_space_head parse_value.simps is_json_space_def)

lemma parse_elems_last:
  "parse_value n d s = Some (v, CHR '']'' # t) \<Longrightarrow> parse_elems (Suc n) d s = Some ([v], t)"
  by (simp add: parse_elems.simps skip_space_head is_json_space_def)

lemma parse_elems_more:
  "\<lbrakk>parse_value n d s = Some (v, CHR '','' # t); parse_elems n d t = Some (xs, u)\<rbrakk> \<Longrightarrow>
   parse_elems (Suc n) d s = Some (v # xs, u)"
  by (simp add: parse_elems.simps skip_space_head is_json_space_def)

lemma parse_members_last:
  "\<lbrakk>valid_utf8 k; parse_value n d s = Some (v, CHR ''}'' # t)\<rbrakk> \<Longrightarrow>
   parse_members (Suc n) d (quote k @ CHR '':'' # s) = Some ([(k, v)], t)"
  by (simp add: parse_members.simps quote_def skip_space_head is_json_space_def parse_str_escape)

lemma parse_members_more:
  "\<lbrakk>valid_utf8 k; parse_value n d s = Some (v, CHR '','' # t); parse_members n d t = Some (kvs, u)\<rbrakk> \<Longrightarrow>
   parse_members (Suc n) d (quote k @ CHR '':'' # s) = Some ((k, v) # kvs, u)"
  by (simp add: parse_members.simps quote_def skip_space_head is_json_space_def parse_str_escape)

lemma json_depth_nonneg: "0 \<le> json_depth v"
  using fold_max_ge [of 0] by (cases v rule: json_depth.cases) (auto simp: add_nonneg_nonneg)

lemma parse_marshal_aux:
  "wf_json v \<Longrightarrow> 2 * length (marshal v) \<le> n \<Longrightarrow> d + json_depth v \<le> maxNestingDepth \<Longrightarrow>
     num_stop t \<Longrightarrow> parse_value n d (marshal v @ t) = Some (v, t)"
  "(\<forall>x \<in> set xs. wf_json x \<and> d + json_depth x \<le> maxNestingDepth) \<Longrightarrow>
     2 * length (s @ marshal_elems xs) \<le> n \<Longrightarrow>
     (\<And>m u. 2 * length s \<le> m \<Longrightarrow> num_stop u \<Longrightarrow> parse_value m d (s @ u) = Some (y, u)) \<Longrightarrow>
     parse_elems n d (s @ marshal_elems xs @ t) = Some (y # xs, t)"
  "(\<forall>(k, x) \<in> set kvs. valid_utf8 k \<and> wf_json x \<and> d + json_depth x \<le> maxNestingDepth) \<Longrightarrow>
     valid_utf8 j \<Longrightarrow>
     2 * length (quote j @ CHR '':'' # s @ marshal_members kvs) \<le> n \<Longrightarrow>
     (\<And>m u. 2 * length s \<le> m \<Longrightarrow> num_stop u \<Longrightarrow> parse_value m d (s @ u) = Some (y, u)) \<Longrightarrow>
     parse_members n d (quote j @ CHR '':'' # s @ marshal_members kvs @ t) = Some ((j, y) # kvs, t)"
proof (induction v and xs and kvs arbitrary: n d t and n d t s y and n d t s y j
    rule: marshal_marshal_elems_marshal_members.induct)
  case 1
  then show ?case by (cases n) (simp, simp only: marshal.simps parse_value_literals)
next
  case 2
  then show ?case by (cases n) (simp, simp only: marshal.simps parse_value_literals)
next
  case 3
  then show ?case by (cases n) (simp, simp only: marshal.simps parse_value_literals)
next
  case (4 x)
  then show ?case using scan_number_head [of x x "[]"] by (cases n) (auto intro: parse_value_num)
next
  case (5 s)
  then show ?case by (cases n) (simp add: quote_def, simp add: parse_value_quote)
next
  case 6
  then show ?case
    by (cases n) (simp, simp only: marshal.simps, intro parse_value_empty, simp)
next
  case (7 x xs)
  then obtain m where n: "n = Suc m" by (cases n) auto
  obtain c u where c: "marshal x = c # u" "value_head c" using marshal_head [of x] 7(3) by auto
  have dep: "\<forall>y \<in> set (x # xs). wf_json y \<and> d + 1 + json_depth y \<le> maxNestingDepth"
    using 7(3,5) fold_max_le [of "map json_depth (x # xs)" 0 "maxNestingDepth - d - 1"]
    by (auto simp del: fold_simps)
  have "parse_elems m (d + 1) (marshal x @ marshal_elems xs @ t) = Some (x # xs, t)"
    using 7(4) dep n by (intro 7(2)) (auto intro: 7(1))
  moreover have "d < maxNestingDepth" using dep json_depth_nonneg [of x] by auto
  ultimately show ?case using c n by (simp add: parse_value_arr)
next
  case 8
  then show ?case
    by (cases n) (simp, simp only: marshal.simps, intro parse_value_empty, simp)
next
  case (9 k v kvs)
  then obtain m where n: "n = Suc m" by (cases n) auto
  have dep: "\<forall>(j, y) \<in> set ((k, v) # kvs). valid_utf8 j \<and> wf_json y \<and> d + 1 + json_depth y \<le> maxNestingDepth"
    using 9(3,5) fold_max_le [of "map (\<lambda>(k, v). json_depth v) ((k, v) # kvs)" 0 "maxNestingDepth - d - 1"]
    by (auto simp del: fold_simps)
  have "parse_members m (d + 1) (quote k @ CHR '':'' # marshal v @ marshal_members kvs @ t) =
      Some ((k, v) # kvs, t)"
    using 9(4) dep n by (intro 9(2)) (auto intro: 9(1))
  moreover have "d < maxNestingDepth" using dep json_depth_nonneg [of v] by auto
  ultimately show ?case using n by (simp add: parse_value_obj)
next
  case 10
  then obtain m where n: "n = Suc m" by (cases n) auto
  have "parse_value m d (s @ CHR '']'' # t) = Some (y, CHR '']'' # t)"
    using 10(2) n by (intro 10(3)) (auto simp: num_stop_def is_digit_def)
  then show ?case using n by (simp add: parse_elems_last)
next
  case (11 x xs)
  then obtain m where n: "n = Suc m" by (cases n) auto
  have "parse_value m d (s @ CHR '','' # marshal x @ marshal_elems xs @ t) =
      Some (y, CHR '','' # marshal x @ marshal_elems xs @ t)"
    using 11(4) n by (intro 11(5)) (auto simp: num_stop_def is_digit_def)
  moreover have "parse_elems m d (marshal x @ marshal_elems xs @ t) = Some (x # xs, t)"
    using 11(3,4) n by (intro 11(2)) (auto intro: 11(1))
  ultimately show ?case using n by (simp add: parse_elems_more)
next
  case 12
  then obtain m where n: "n = Suc m" by (cases n) auto
  have "parse_value m d (s @ CHR ''}'' # t) = Some (y, CHR ''}'' # t)"
    using 12(3) n by (intro 12(4)) (auto simp: num_stop_def is_digit_def)
  then show ?case using n 12(2) by (simp add: parse_members_last)
next
  case (13 k v kvs)
  then obtain m where n: "n = Suc m" by (cases n) auto
  have "parse_value m d (s @ CHR '','' # quote k @ CHR '':'' # marshal v @ marshal_members kvs @ t) =
      Some (y, CHR '','' # quote k @ CHR '':'' # marshal v @ marshal_members kvs @ t)"
    using 13(5) n by (intro 13(6)) (auto simp: num_stop_def is_digit_def)
  moreover have "parse_members m d (quote k @ CHR '':'' # marshal v @ marshal_members kvs @ t) =
      Some ((k, v) # kvs, t)"
    using 13(3,5) n by (intro 13(2)) (auto intro: 13(1))
  ultimately show ?case using n 13(4) by (simp add: parse_members_more)
qed

lemma marshal_nonspace: "wf_json v \<Longrightarrow> skip_space (marshal v @ t) = marshal v @ t"
  using marshal_head [of v] by (auto simp: value_head_def skip_space_head)

lemma parse_marshal:
  assumes "wf_json v" "json_depth v \<le> maxNestingDepth" "num_stop t"
  shows "json_decode (marshal v @ t) = DecVal v t"
proof -
  have "parse_value (json_fuel (marshal v @ t)) 0 (marshal v @ t) = Some (v, t)"
    using assms by (intro parse_marshal_aux(1)) (auto simp: json_fuel_def)
  moreover have "marshal v @ t \<noteq> []" using marshal_head [OF assms(1)] by auto
  ultimately show ?thesis using assms(1) by (simp add: json_decode_def marshal_nonspace)
qed

lemma unmarshal_marshal:
  "wf_json v \<Longrightarrow> json_depth v \<le> maxNestingDepth \<Longrightarrow> json_unmarshal (marshal v) = Some v"
  using parse_marshal [of v "[]"] by (simp add: json_unmarshal_def num_stop_def skip_space_def)

section \<open>Enough fuel\<close>

text \<open>The fuel of \<open>json_decode\<close> is enough: every parser consumes input.\<close>

lemma prepend_Some: "prepend x y = Some (d, s) \<longleftrightarrow> (\<exists>d'. y = Some (d', s) \<and> d = x @ d')"
  by (auto simp: prepend_def)

lemma parse_str_step:
  "parse_str (a # t) = Some (x, r) \<Longrightarrow> r = t \<or> (\<exists>u y. length u \<le> length t \<and> parse_str u = Some (y, r))"
proof -
  assume p: "parse_str (a # t) = Some (x, r)"
  have *: "\<exists>u y. length u \<le> length t \<and> parse_str u = Some (y, r)"
    if "parse_str (drop k t) = Some (y, r)" for k y
    by (rule exI [of _ "drop k t"], rule exI [of _ y]) (use that in auto)
  have tl: "parse_str (tl t) = Some (y, r) \<Longrightarrow> parse_str (drop 1 t) = Some (y, r)" for y
    by (simp add: drop_Suc)
  have rl: "drop (rune_len (a # t)) (a # t) = drop (rune_len (a # t) - 1) t" if "rune_len (a # t) \<noteq> 0"
    using that by (cases "rune_len (a # t)") (auto simp del: rune_len.simps)
  show ?thesis
    using p rl * * [of 0]
    by (auto simp: parse_str.simps(2) [of a t] prepend_Some Let_def simp del: rune_len.simps
        dest!: tl split: if_splits option.splits)
qed

lemma parse_str_shorter: "parse_str s = Some (x, r) \<Longrightarrow> length r < length s"
proof (induction s arbitrary: x rule: measure_induct_rule [of length])
  case (less s)
  obtain a t where s: "s = a # t" using less.prems by (cases s) (auto simp: parse_str.simps)
  from parse_str_step [OF less.prems [unfolded s]] show ?case
  proof
    assume "\<exists>u y. length u \<le> length t \<and> parse_str u = Some (y, r)"
    then obtain u y where "length u \<le> length t" "parse_str u = Some (y, r)" by blast
    with less.IH [of u y] show ?thesis by (simp add: s)
  qed (simp add: s)
qed

lemma skip_space_shorter: "length (skip_space s) \<le> length s"
  by (simp add: skip_space_def length_dropWhile_le)

lemma skip_space_Cons: "skip_space s = c # t \<Longrightarrow> length t < length s"
  using skip_space_shorter [of s] by simp

lemma drop_digits_shorter:
  "length (dropWhile is_digit (drop k s)) \<le> length s" "length (dropWhile is_digit s) \<le> length s"
  using length_dropWhile_le [of is_digit "drop k s"] length_dropWhile_le [of is_digit s] by auto

lemma scan_exp_shorter: "scan_exp acc s = Some (x, r) \<Longrightarrow> length r \<le> length s"
  by (cases s) (auto simp: Let_def le_SucI drop_digits_shorter split: if_splits)

lemma scan_frac_shorter: "scan_frac acc s = Some (x, r) \<Longrightarrow> length r \<le> length s"
  using length_dropWhile_le [of is_digit "tl s"]
  by (cases s) (auto simp: Let_def simp del: scan_exp.simps split: if_splits dest!: scan_exp_shorter)

lemma scan_number_shorter: "scan_number s = Some (x, r) \<Longrightarrow> length r < length s"
proof -
  assume n: "scan_number s = Some (x, r)"
  then obtain u acc where "scan_frac acc u = Some (x, r)" "length u < length s"
  proof (cases s)
    case (Cons c t)
    have "length (dropWhile is_digit y) < length y" if "y \<noteq> []" "is_digit (hd y)" for y
      using that length_dropWhile_le [of is_digit "tl y"] by (cases y) auto
    then show ?thesis using n that Cons
      by (fastforce simp: scan_number_def Let_def split: if_splits)
  qed (simp add: scan_number_def)
  then show ?thesis using scan_frac_shorter by fastforce
qed


lemma literal_shorter: "literal w v s = Some (x, r) \<Longrightarrow> w \<noteq> [] \<Longrightarrow> length r < length s"
  by (auto simp: literal_def split: if_splits) (cases s; cases w; auto)

lemma parse_shorter:
  "(\<forall>v r. parse_value n d s = Some (v, r) \<longrightarrow> length r < length s) \<and>
   (\<forall>xs r. parse_elems n d s = Some (xs, r) \<longrightarrow> length r < length s) \<and>
   (\<forall>kvs r. parse_members n d s = Some (kvs, r) \<longrightarrow> length r < length s)"
proof (induction n arbitrary: d s)
  case 0
  then show ?case by (simp add: parse_value.simps parse_elems.simps parse_members.simps)
next
  case (Suc n)
  note IH = Suc [THEN conjunct1, rule_format] Suc [THEN conjunct2, THEN conjunct1, rule_format]
    Suc [THEN conjunct2, THEN conjunct2, rule_format]
  have tl: "length (tl (skip_space t)) \<le> length t" for t
    using skip_space_shorter [of t] by simp
  have v: "length r < length s" if p: "parse_value (Suc n) d s = Some (v, r)" for v r
  proof -
    from p obtain c t where s: "skip_space s = c # t" by (auto simp: parse_value.simps split: list.splits)
    have "length r < length (c # t)"
      using p s tl [of t] by (auto simp: parse_value.simps less_Suc_eq_le
          dest!: parse_str_shorter scan_number_shorter literal_shorter IH split: if_splits)
    then show ?thesis using skip_space_shorter [of s] s by simp
  qed
  have e: "length r < length s" if p: "parse_elems (Suc n) d s = Some (v, r)" for v r
    using p by (auto simp: parse_elems.simps split: option.splits list.splits if_splits
        dest!: IH skip_space_Cons)
  have m: "length r < length s" if p: "parse_members (Suc n) d s = Some (v, r)" for v r
  proof -
    from p obtain k u y w c t where 1: "parse_str (tl (skip_space s)) = Some (k, u)"
      and 2: "parse_value n d (tl (skip_space u)) = Some (y, w)" and 3: "skip_space w = c # t"
      and 4: "r = t \<or> (\<exists>kvs. parse_members n d t = Some (kvs, r))"
      by (auto simp: parse_members.simps split: option.splits list.splits if_splits)
    have "length r \<le> length t" using 4 IH(3) by force
    also have "length t < length w" using 3 by (rule skip_space_Cons)
    also have "length w < length (tl (skip_space u))" using 2 by (rule IH(1))
    also have "\<dots> \<le> length u" by (rule tl)
    also have "\<dots> < length (tl (skip_space s))" using 1 by (rule parse_str_shorter)
    also have "\<dots> \<le> length s" by (rule tl)
    finally show ?thesis by simp
  qed
  from v e m show ?case by blast
qed


lemmas parse_value_shorter = parse_shorter [THEN conjunct1, rule_format]

lemma parse_fuel:
  "(2 * length s \<le> n \<longrightarrow> 2 * length s \<le> m \<longrightarrow> parse_value n d s = parse_value m d s) \<and>
   (2 * length s < n \<longrightarrow> 2 * length s < m \<longrightarrow> parse_elems n d s = parse_elems m d s) \<and>
   (2 * length s < n \<longrightarrow> 2 * length s < m \<longrightarrow> parse_members n d s = parse_members m d s)"
proof (induction n arbitrary: m d s)
  case 0
  then show ?case by (cases m) (auto simp: parse_value.simps skip_space_def)
next
  case (Suc n)
  note IH = Suc [THEN conjunct1, rule_format] Suc [THEN conjunct2, THEN conjunct1, rule_format]
    Suc [THEN conjunct2, THEN conjunct2, rule_format]
  have v: "parse_value (Suc n) d s = parse_value m d s" if le: "2 * length s \<le> Suc n" "2 * length s \<le> m"
  proof (cases "skip_space s")
    case Nil
    then show ?thesis by (cases m) (simp_all add: parse_value.simps)
  next
    case (Cons c t)
    then have "length t < length s" by (rule skip_space_Cons)
    then obtain k where "m = Suc k" "2 * length t < n" "2 * length t < k"
      using le by (cases m) auto
    then show ?thesis using Cons IH(2,3) [of t k "d + 1"] by (simp add: parse_value.simps)
  qed
  have e: "parse_elems (Suc n) d s = parse_elems m d s" if le: "2 * length s < Suc n" "2 * length s < m"
  proof -
    from le obtain k where m: "m = Suc k" "2 * length s \<le> n" "2 * length s \<le> k" by (cases m) auto
    have eq: "parse_value n d s = parse_value k d s" using m by (intro IH(1))
    have "parse_elems n d t = parse_elems k d t" if "parse_value k d s = Some (y, w)" "skip_space w = c # t" for y w c t
      using parse_value_shorter [OF that(1)] skip_space_Cons [OF that(2)] m by (intro IH(2)) auto
    then show ?thesis using m(1) eq by (auto simp: parse_elems.simps split: option.splits list.splits)
  qed
  have p: "parse_members (Suc n) d s = parse_members m d s" if le: "2 * length s < Suc n" "2 * length s < m"
  proof -
    from le obtain k where m: "m = Suc k" "2 * length s \<le> n" "2 * length s \<le> k" by (cases m) auto
    have tl: "length (tl (skip_space t)) \<le> length t" for t using skip_space_shorter [of t] by simp
    have eq: "parse_value n d (tl (skip_space u)) = parse_value k d (tl (skip_space u))"
      and len: "length (tl (skip_space u)) < length s"
      if "parse_str (tl (skip_space s)) = Some (x, u)" for x u
    proof -
      have "length (tl (skip_space u)) < length s"
        using parse_str_shorter [OF that] tl [of s] tl [of u] by simp
      then show "length (tl (skip_space u)) < length s"
        "parse_value n d (tl (skip_space u)) = parse_value k d (tl (skip_space u))"
        using m by (auto intro: IH(1))
    qed
    have "parse_members n d t = parse_members k d t"
      if "parse_str (tl (skip_space s)) = Some (x, u)"
        "parse_value k d (tl (skip_space u)) = Some (y, w)" "skip_space w = c # t" for x u y w c t
      using len [OF that(1)] parse_value_shorter [OF that(2)] skip_space_Cons [OF that(3)] m
      by (intro IH(3)) auto
    then show ?thesis using m(1) eq
      by (auto simp: parse_members.simps split: option.splits list.splits)
  qed
  from v e p show ?case by blast
qed

lemma parse_fuel_enough:
  "json_fuel s \<le> n \<Longrightarrow> parse_value n d s = parse_value (json_fuel s) d s"
  using parse_fuel [of s n "json_fuel s" d] by (simp add: json_fuel_def)

section \<open>Maps\<close>

lemma map_of_obj_put [simp]: "map_of (obj_put k v m) = (map_of m)(k \<mapsto> v)"
  by (induction m) (auto simp: fun_eq_iff)

lemma keys_obj_put [simp]: "fst ` set (obj_put k v m) = insert k (fst ` set m)"
  by (simp flip: dom_map_of_conv_image_fst)

lemma set_obj_put: "set (obj_put k v m) \<subseteq> insert (k, v) (set m)"
  by (induction m) (auto split: if_splits)

lemma sorted_obj_put: "sorted_keys m \<Longrightarrow> sorted_keys (obj_put k v m)"
proof (induction m)
  case (Cons kv m)
  obtain k' v' where kv: "kv = (k', v')" by force
  show ?case
  proof (cases "k \<le> k'")
    case True
    then show ?thesis using Cons.prems by (auto simp: sorted_keys_def kv)
  next
    case False
    then have "obj_put k v (kv # m) = (k', v') # obj_put k v m" by (auto simp: kv)
    moreover have "sorted_keys (obj_put k v m)" using Cons by (simp add: sorted_keys_def)
    moreover have "\<forall>x \<in> fst ` set (obj_put k v m). k' < x"
      using Cons.prems False by (auto simp: sorted_keys_def kv)
    ultimately show ?thesis by (auto simp: sorted_keys_def)
  qed
qed (simp add: sorted_keys_def)

lemma sorted_go_map [simp]: "sorted_keys (go_map kvs)"
  by (induction kvs rule: go_map.induct) (simp_all add: sorted_obj_put, simp add: sorted_keys_def)

lemma keys_go_map [simp]: "fst ` set (go_map kvs) = fst ` set kvs"
  by (induction kvs rule: go_map.induct) auto

lemma set_go_map: "set (go_map kvs) \<subseteq> set kvs"
proof (induction kvs rule: go_map.induct)
  case (2 k v kvs)
  then show ?case using set_obj_put [of k v "go_map kvs"] by auto
qed simp

lemma go_map_sorted: "sorted_keys m \<Longrightarrow> go_map m = m"
proof (induction m)
  case (Cons kv m)
  obtain k v where kv: "kv = (k, v)" by force
  have "go_map m = m" using Cons by (simp add: sorted_keys_def)
  moreover have "k \<notin> fst ` set m" using Cons.prems by (auto simp: sorted_keys_def kv)
  moreover have "obj_put k v m = (k, v) # m" using Cons.prems by (cases m) (auto simp: sorted_keys_def kv)
  ultimately show ?case by (simp add: kv)
qed simp

lemma go_map_idem [simp]: "go_map (go_map m) = go_map m"
  by (simp add: go_map_sorted)

lemma map_of_go_map: "map_of (go_map kvs) k = map_of (rev kvs) k"
proof (induction kvs rule: go_map.induct)
  case (2 k' v kvs)
  have "map_of (rev kvs) k' = None \<longleftrightarrow> k' \<notin> fst ` set kvs" by (simp add: map_of_eq_None_iff)
  then show ?case using 2 by (auto simp: map_add_def split: option.splits)
qed simp

lemma map_of_rev: "sorted_keys m \<Longrightarrow> map_of (rev m) = map_of m"
  by (simp add: go_map_sorted fun_eq_iff flip: map_of_go_map)

end
