(* ===== verification/Go_Time.thy ===== *)
theory Go_Time
  imports Go_Base
begin

text \<open>
  What the program uses of the package \<open>time\<close>: instants as nanoseconds since the epoch in
  UTC, durations as nanoseconds in a 64-bit integer, and the layouts \<open>time.RFC3339\<close> and
  \<open>time.RFC3339Nano\<close> in UTC. PostgreSQL's \<open>TIMESTAMPTZ\<close> keeps microseconds.
\<close>

type_synonym time = int
type_synonym duration = int

definition Second :: duration where "Second = 1000000000"

text \<open>The day, month and year of a number of days since 1970-01-01.\<close>

definition civil :: "int \<Rightarrow> int \<times> int \<times> int" where
  "civil days =
     (let z = days + 719468; era = z div 146097; doe = z mod 146097;
          yoe = (doe - doe div 1460 + doe div 36524 - doe div 146096) div 365;
          doy = doe - (365 * yoe + yoe div 4 - yoe div 100);
          mp = (5 * doy + 2) div 153;
          day = doy - (153 * mp + 2) div 5 + 1;
          month = (if mp < 10 then mp + 3 else mp - 9);
          year = yoe + era * 400 + (if month \<le> 2 then 1 else 0)
      in (year, month, day))"

definition pad :: "nat \<Rightarrow> int \<Rightarrow> bytes" where
  "pad w i =
     (if i < 0 then CHR ''-'' # replicate (w - length (Itoa (- i))) (CHR ''0'') @ Itoa (- i)
      else replicate (w - length (Itoa i)) (CHR ''0'') @ Itoa i)"

definition datetime :: "time \<Rightarrow> bytes" where
  "datetime t =
     (let secs = t div Second; days = secs div 86400; sod = secs mod 86400
      in case civil days of (y, m, d) \<Rightarrow>
        pad 4 y @ ''-'' @ pad 2 m @ ''-'' @ pad 2 d @ ''T'' @
        pad 2 (sod div 3600) @ '':'' @ pad 2 (sod div 60 mod 60) @ '':'' @ pad 2 (sod mod 60))"

definition RFC3339 :: "time \<Rightarrow> bytes" where
  "RFC3339 t = datetime t @ ''Z''"

definition fraction :: "int \<Rightarrow> bytes" where
  "fraction ns =
     (if ns = 0 then []
      else CHR ''.'' # rev (dropWhile (\<lambda>c. c = CHR ''0'') (rev (pad 9 ns))))"

definition RFC3339Nano :: "time \<Rightarrow> bytes" where
  "RFC3339Nano t = datetime t @ fraction (t mod Second) @ ''Z''"

section \<open>time.Parse\<close>

text \<open>
  \<open>time.Parse (time.RFC3339, s)\<close>: as the package reads the layout, the hour may have one digit,
  a comma may stand for the point of the fraction, and digits of the fraction beyond the ninth
  are dropped.
\<close>

definition days_from_civil :: "int \<Rightarrow> int \<Rightarrow> int \<Rightarrow> int" where
  "days_from_civil year month day =
     (let y = (if month \<le> 2 then year - 1 else year); era = y div 400; yoe = y mod 400;
          mp = (if 2 < month then month - 3 else month + 9);
          doy = (153 * mp + 2) div 5 + day - 1;
          doe = yoe * 365 + yoe div 4 - yoe div 100 + doy
      in era * 146097 + doe - 719468)"

definition leap_year :: "int \<Rightarrow> bool" where
  "leap_year y \<longleftrightarrow> y mod 4 = 0 \<and> (y mod 100 \<noteq> 0 \<or> y mod 400 = 0)"

definition daysIn :: "int \<Rightarrow> int \<Rightarrow> int" where
  "daysIn month year =
     (if month = 2 then (if leap_year year then 29 else 28)
      else if month \<in> {4, 6, 9, 11} then 30 else 31)"

text \<open>A number of exactly \<open>k\<close> digits, and the rest.\<close>

definition take_num :: "nat \<Rightarrow> bytes \<Rightarrow> (int \<times> bytes) option" where
  "take_num k s =
     (if length s < k then None
      else map_option (\<lambda>n. (n, drop k s)) (read_digits 0 (take k s)))"

definition take_hour :: "bytes \<Rightarrow> (int \<times> bytes) option" where
  "take_hour s =
     (case s of
        [] \<Rightarrow> None
      | [a] \<Rightarrow> take_num 1 s
      | a # b # t \<Rightarrow> if is_digit b then take_num 2 s else take_num 1 s)"

definition take_char :: "char \<Rightarrow> bytes \<Rightarrow> bytes option" where
  "take_char c s = (if s \<noteq> [] \<and> hd s = c then Some (tl s) else None)"

definition take_fraction :: "bytes \<Rightarrow> int \<times> bytes" where
  "take_fraction s =
     (case s of
        a # b # t \<Rightarrow>
          if (a = CHR ''.'' \<or> a = CHR '','') \<and> is_digit b then
            (let ds = takeWhile is_digit (b # t); nine = take 9 (ds @ replicate 9 (CHR ''0''))
             in (case read_digits 0 nine of None \<Rightarrow> 0 | Some n \<Rightarrow> n, dropWhile is_digit (b # t)))
          else (0, s)
      | _ \<Rightarrow> (0, s))"

text \<open>The offset of the zone in seconds.\<close>

definition take_zone :: "bytes \<Rightarrow> (int \<times> bytes) option" where
  "take_zone s =
     (case s of
        [] \<Rightarrow> None
      | c # t \<Rightarrow>
          if c = CHR ''Z'' then Some (0, t)
          else if c = CHR ''+'' \<or> c = CHR ''-'' then
            (case take_num 2 t of None \<Rightarrow> None | Some (h, t1) \<Rightarrow>
             case take_char (CHR '':'') t1 of None \<Rightarrow> None | Some t2 \<Rightarrow>
             case take_num 2 t2 of None \<Rightarrow> None | Some (m, t3) \<Rightarrow>
             if 24 < h \<or> 60 < m then None
             else Some ((if c = CHR ''-'' then - 1 else 1) * (3600 * h + 60 * m), t3))
          else None)"

definition take_date :: "bytes \<Rightarrow> ((int \<times> int \<times> int) \<times> bytes) option" where
  "take_date s =
     (case take_num 4 s of None \<Rightarrow> None | Some (year, s1) \<Rightarrow>
      case take_char (CHR ''-'') s1 of None \<Rightarrow> None | Some s2 \<Rightarrow>
      case take_num 2 s2 of None \<Rightarrow> None | Some (month, s3) \<Rightarrow>
      case take_char (CHR ''-'') s3 of None \<Rightarrow> None | Some s4 \<Rightarrow>
      case take_num 2 s4 of None \<Rightarrow> None | Some (day, s5) \<Rightarrow>
      if 1 \<le> month \<and> month \<le> 12 \<and> 1 \<le> day \<and> day \<le> daysIn month year
      then Some ((year, month, day), s5) else None)"

definition take_clock :: "bytes \<Rightarrow> (int \<times> bytes) option" where
  "take_clock s =
     (case take_hour s of None \<Rightarrow> None | Some (hour, s1) \<Rightarrow>
      case take_char (CHR '':'') s1 of None \<Rightarrow> None | Some s2 \<Rightarrow>
      case take_num 2 s2 of None \<Rightarrow> None | Some (minute, s3) \<Rightarrow>
      case take_char (CHR '':'') s3 of None \<Rightarrow> None | Some s4 \<Rightarrow>
      case take_num 2 s4 of None \<Rightarrow> None | Some (second, s5) \<Rightarrow>
      if hour < 24 \<and> minute < 60 \<and> second < 60
      then Some (3600 * hour + 60 * minute + second, s5) else None)"

definition ParseRFC3339 :: "bytes \<Rightarrow> time option" where
  "ParseRFC3339 s =
     (case take_date s of None \<Rightarrow> None | Some ((year, month, day), s1) \<Rightarrow>
      case take_char (CHR ''T'') s1 of None \<Rightarrow> None | Some s2 \<Rightarrow>
      case take_clock s2 of None \<Rightarrow> None | Some (secs, s3) \<Rightarrow>
      case take_fraction s3 of (nanos, s4) \<Rightarrow>
      case take_zone s4 of None \<Rightarrow> None | Some (offset, s5) \<Rightarrow>
      if s5 \<noteq> [] then None
      else Some ((days_from_civil year month day * 86400 + secs - offset) * Second + nanos))"

section \<open>Timestamps of the database\<close>

text \<open>The timestamp the database keeps of an instant, and the instant of a timestamp.\<close>

definition to_pg :: "time \<Rightarrow> int" where "to_pg t = t div 1000"

definition of_pg :: "int \<Rightarrow> time" where "of_pg us = 1000 * us"

lemma to_pg_of_pg [simp]: "to_pg (of_pg us) = us"
  by (simp add: to_pg_def of_pg_def)

end
