(* ===== verification/Go_Http.thy ===== *)
theory Go_Http
  imports Go_Json Go_Time "HOL-Library.Monad_Syntax"
begin

text \<open>
  What the program uses of \<open>net/http\<close>, and of \<open>encoding/json\<close> where a request or a response
  is read into a struct.

  \<^item> \<open>Request\<close>, \<open>Response\<close>: one exchange as a handler sees it. A body is the bytes that
    arrive and the error the reader gives after them, \<open>None\<close> for the end of the body. Names of
    headers are in their canonical form.
  \<^item> \<open>read_value\<close>: one \<open>Decode\<close> on such a body. Where the reader fails the decoder has to
    tell a syntax error from a value that is not complete, which the scanner
    \<open>scan_ok\<close> of the package decides byte by byte.
  \<^item> \<open>field_values\<close> and the \<open>get_\<close> functions: the fields of a struct, found without regard
    to case, the last of two equal names on top of the earlier one.
  \<^item> \<open>raw_members\<close>, \<open>compact\<close>: \<open>json.RawMessage\<close> in and out.
\<close>

section \<open>Requests and responses\<close>

type_synonym header = "(bytes \<times> bytes) list"

record Request =
  req_Method :: bytes
  req_Path :: bytes
  req_Query :: header
  req_Header :: header
  req_Body :: bytes
  req_BodyError :: "error option"

record Response =
  rsp_Status :: int
  rsp_Header :: header
  rsp_Body :: bytes

text \<open>\<open>Header.Get\<close> and \<open>Values.Get\<close>: the first value or the empty string.\<close>

definition header_get :: "header \<Rightarrow> bytes \<Rightarrow> bytes" where
  "header_get h k = (case map_of h k of None \<Rightarrow> [] | Some v \<Rightarrow> v)"

fun header_set :: "bytes \<Rightarrow> bytes \<Rightarrow> header \<Rightarrow> header" where
  "header_set k v [] = [(k, v)]"
| "header_set k v ((k', v') # h) = (if k = k' then (k, v) # h else (k', v') # header_set k v h)"

text \<open>A response written through a \<open>ResponseWriter\<close> whose headers \<open>h\<close> are already set.\<close>

definition with_headers :: "header \<Rightarrow> Response \<Rightarrow> Response" where
  "with_headers h r = r\<lparr>rsp_Header := foldl (\<lambda>m kv. header_set (fst kv) (snd kv) m) h (rsp_Header r)\<rparr>"

definition status_only :: "int \<Rightarrow> Response" where
  "status_only code = \<lparr>rsp_Status = code, rsp_Header = [], rsp_Body = []\<rparr>"

definition http_Error :: "bytes \<Rightarrow> int \<Rightarrow> Response" where
  "http_Error msg code =
     \<lparr>rsp_Status = code,
      rsp_Header = [(''Content-Type'', ''text/plain; charset=utf-8''),
                    (''X-Content-Type-Options'', ''nosniff'')],
      rsp_Body = msg @ [CHR 0x0A]\<rparr>"

text \<open>\<open>json.NewEncoder(w).Encode(value)\<close>; \<open>None\<close> where \<open>value\<close> cannot be encoded and
  nothing is written.\<close>

definition encode_json :: "json option \<Rightarrow> bytes" where
  "encode_json value = (case value of None \<Rightarrow> [] | Some v \<Rightarrow> marshal v @ [CHR 0x0A])"

definition json_response :: "int \<Rightarrow> json option \<Rightarrow> Response" where
  "json_response code value =
     \<lparr>rsp_Status = code, rsp_Header = [(''Content-Type'', ''application/json'')],
      rsp_Body = encode_json value\<rparr>"

definition method_not_allowed :: "bytes \<Rightarrow> Response" where
  "method_not_allowed allow = \<lparr>rsp_Status = 405, rsp_Header = [(''Allow'', allow)], rsp_Body = []\<rparr>"

section \<open>The scanner\<close>

text \<open>The states of the scanner of \<open>encoding/json\<close> and its stack of open brackets.\<close>

datatype parse_state = ParseObjectKey | ParseObjectValue | ParseArrayValue

datatype scan_state =
    BeginValue | BeginValueOrEmpty | BeginString | BeginStringOrEmpty | EndValue
  | InString | InStringEsc | InStringEscU nat
  | Neg | Digits | Zero | Dot | DotDigits | Exp | ExpSign | ExpDigits
  | Lit bytes | EndTop

type_synonym scanner = "scan_state \<times> parse_state list"

definition close_bracket :: "parse_state list \<Rightarrow> scanner" where
  "close_bracket ps = (if tl ps = [] then (EndTop, []) else (EndValue, tl ps))"

definition push_bracket :: "scan_state \<Rightarrow> parse_state \<Rightarrow> parse_state list \<Rightarrow> scanner option" where
  "push_bracket st p ps =
     (if maxNestingDepth \<le> int (length ps) then None else Some (st, p # ps))"

definition begin_value :: "parse_state list \<Rightarrow> char \<Rightarrow> scanner option" where
  "begin_value ps c =
     (if is_json_space c then Some (BeginValue, ps)
      else if c = CHR ''{'' then push_bracket BeginStringOrEmpty ParseObjectKey ps
      else if c = CHR ''['' then push_bracket BeginValueOrEmpty ParseArrayValue ps
      else if c = CHR 0x22 then Some (InString, ps)
      else if c = CHR ''-'' then Some (Neg, ps)
      else if c = CHR ''0'' then Some (Zero, ps)
      else if c = CHR ''t'' then Some (Lit ''rue'', ps)
      else if c = CHR ''f'' then Some (Lit ''alse'', ps)
      else if c = CHR ''n'' then Some (Lit ''ull'', ps)
      else if is_digit c then Some (Digits, ps)
      else None)"

definition begin_string :: "parse_state list \<Rightarrow> char \<Rightarrow> scanner option" where
  "begin_string ps c =
     (if is_json_space c then Some (BeginString, ps)
      else if c = CHR 0x22 then Some (InString, ps)
      else None)"

definition end_value :: "parse_state list \<Rightarrow> char \<Rightarrow> scanner option" where
  "end_value ps c =
     (case ps of
        [] \<Rightarrow> Some (EndTop, [])
      | p # qs \<Rightarrow>
          if is_json_space c then Some (EndValue, ps)
          else
            (case p of
               ParseObjectKey \<Rightarrow>
                 if c = CHR '':'' then Some (BeginValue, ParseObjectValue # qs) else None
             | ParseObjectValue \<Rightarrow>
                 if c = CHR '','' then Some (BeginString, ParseObjectKey # qs)
                 else if c = CHR ''}'' then Some (close_bracket ps)
                 else None
             | ParseArrayValue \<Rightarrow>
                 if c = CHR '','' then Some (BeginValue, ps)
                 else if c = CHR '']'' then Some (close_bracket ps)
                 else None))"

definition after_zero :: "parse_state list \<Rightarrow> char \<Rightarrow> scanner option" where
  "after_zero ps c =
     (if c = CHR ''.'' then Some (Dot, ps)
      else if c = CHR ''e'' \<or> c = CHR ''E'' then Some (Exp, ps)
      else end_value ps c)"

definition exp_sign :: "parse_state list \<Rightarrow> char \<Rightarrow> scanner option" where
  "exp_sign ps c = (if is_digit c then Some (ExpDigits, ps) else None)"

text \<open>One byte; \<open>None\<close> is a syntax error.\<close>

fun scan_step :: "scanner \<Rightarrow> char \<Rightarrow> scanner option" where
  "scan_step (BeginValue, ps) c = begin_value ps c"
| "scan_step (BeginValueOrEmpty, ps) c =
     (if is_json_space c then Some (BeginValueOrEmpty, ps)
      else if c = CHR '']'' then Some (close_bracket ps)
      else begin_value ps c)"
| "scan_step (BeginString, ps) c = begin_string ps c"
| "scan_step (BeginStringOrEmpty, ps) c =
     (if is_json_space c then Some (BeginStringOrEmpty, ps)
      else if c = CHR ''}'' then Some (close_bracket ps)
      else begin_string ps c)"
| "scan_step (EndValue, ps) c = end_value ps c"
| "scan_step (InString, ps) c =
     (if c = CHR 0x22 then Some (EndValue, ps)
      else if c = CHR 0x5C then Some (InStringEsc, ps)
      else if byte c < 0x20 then None
      else Some (InString, ps))"
| "scan_step (InStringEsc, ps) c =
     (if c = CHR ''u'' then Some (InStringEscU 4, ps)
      else if esc_char c \<noteq> None then Some (InString, ps)
      else None)"
| "scan_step (InStringEscU n, ps) c =
     (if hex_val c = None then None
      else if n \<le> 1 then Some (InString, ps)
      else Some (InStringEscU (n - 1), ps))"
| "scan_step (Neg, ps) c =
     (if c = CHR ''0'' then Some (Zero, ps) else if is_digit c then Some (Digits, ps) else None)"
| "scan_step (Digits, ps) c = (if is_digit c then Some (Digits, ps) else after_zero ps c)"
| "scan_step (Zero, ps) c = after_zero ps c"
| "scan_step (Dot, ps) c = (if is_digit c then Some (DotDigits, ps) else None)"
| "scan_step (DotDigits, ps) c =
     (if is_digit c then Some (DotDigits, ps)
      else if c = CHR ''e'' \<or> c = CHR ''E'' then Some (Exp, ps)
      else end_value ps c)"
| "scan_step (Exp, ps) c =
     (if c = CHR ''+'' \<or> c = CHR ''-'' then Some (ExpSign, ps) else exp_sign ps c)"
| "scan_step (ExpSign, ps) c = exp_sign ps c"
| "scan_step (ExpDigits, ps) c = (if is_digit c then Some (ExpDigits, ps) else end_value ps c)"
| "scan_step (Lit w, ps) c =
     (case w of
        [] \<Rightarrow> end_value ps c
      | x # xs \<Rightarrow> if c = x then Some (if xs = [] then EndValue else Lit xs, ps) else None)"
| "scan_step (EndTop, ps) c = Some (EndTop, ps)"

fun scan_from :: "scanner \<Rightarrow> bytes \<Rightarrow> bool" where
  "scan_from sc [] = True"
| "scan_from sc (c # s) = (case scan_step sc c of None \<Rightarrow> False | Some sc1 \<Rightarrow> scan_from sc1 s)"

definition scan_ok :: "bytes \<Rightarrow> bool" where
  "scan_ok s = scan_from (BeginValue, []) s"

section \<open>Decoding a body\<close>

text \<open>
  One \<open>Decode\<close> on a reader that gives the bytes \<open>s\<close> and then the error \<open>e\<close>, or the end of
  the body when \<open>e\<close> is \<open>None\<close>. A value other than an object or an array is only
  complete when a byte or the end of the body follows it.
\<close>

datatype read = ReadEOF | ReadSyntax | ReadFail error | ReadVal json bytes

fun bracketed :: "json \<Rightarrow> bool" where
  "bracketed (JArr xs) = True"
| "bracketed (JObj kvs) = True"
| "bracketed v = False"

definition read_value :: "error option \<Rightarrow> bytes \<Rightarrow> read" where
  "read_value e s =
     (case json_decode s of
        DecEOF \<Rightarrow> (case e of None \<Rightarrow> ReadEOF | Some x \<Rightarrow> ReadFail x)
      | DecErr \<Rightarrow>
          (case e of None \<Rightarrow> ReadSyntax | Some x \<Rightarrow> if scan_ok s then ReadFail x else ReadSyntax)
      | DecVal v r \<Rightarrow>
          (case e of
             Some x \<Rightarrow> if r = [] \<and> \<not> bracketed v then ReadFail x else ReadVal v r
           | None \<Rightarrow> ReadVal v r))"

text \<open>\<open>http.MaxBytesReader\<close>.\<close>

definition max_bytes_reader :: "int \<Rightarrow> bytes \<Rightarrow> error option \<Rightarrow> bytes \<times> error option" where
  "max_bytes_reader limit body e =
     (if limit < int (length body) then (take (nat limit) body, Some (ErrMaxBytes limit))
      else (body, e))"

section \<open>Structs\<close>

text \<open>
  Names of fields are compared after folding: the runes that fold to an ASCII letter are the
  letter in both cases, U+017F for \<open>s\<close> and U+212A for \<open>k\<close>.
\<close>

definition fold_rune :: "bytes \<Rightarrow> bytes" where
  "fold_rune r =
     (if r = [CHR 0xC5, CHR 0xBF] then ''S''
      else if r = [CHR 0xE2, CHR 0x84, CHR 0xAA] then ''K''
      else map (\<lambda>c. if 97 \<le> byte c \<and> byte c \<le> 122 then char_of (byte c - 32) else c) r)"

definition fold_name :: "bytes \<Rightarrow> bytes" where
  "fold_name s = concat (map fold_rune (runes s))"

definition field_values :: "bytes \<Rightarrow> (bytes \<times> 'v) list \<Rightarrow> 'v list" where
  "field_values name kvs = map snd (filter (\<lambda>(k, v). fold_name k = fold_name name) kvs)"

fun fold_field :: "('a \<Rightarrow> json \<Rightarrow> 'a option) \<Rightarrow> 'a \<Rightarrow> json list \<Rightarrow> 'a option" where
  "fold_field f acc [] = Some acc"
| "fold_field f acc (v # vs) = (case f acc v of None \<Rightarrow> None | Some a \<Rightarrow> fold_field f a vs)"

definition put_string :: "bytes \<Rightarrow> json \<Rightarrow> bytes option" where
  "put_string acc v = (case v of JStr t \<Rightarrow> Some t | JNull \<Rightarrow> Some acc | _ \<Rightarrow> None)"

definition put_int :: "int \<Rightarrow> json \<Rightarrow> int option" where
  "put_int acc v = (case v of JNum t \<Rightarrow> Atoi t | JNull \<Rightarrow> Some acc | _ \<Rightarrow> None)"

text \<open>A pointer to a string or to an int: \<open>null\<close> sets it to nil.\<close>

definition put_string_ptr :: "bytes option \<Rightarrow> json \<Rightarrow> bytes option option" where
  "put_string_ptr acc v = (case v of JStr t \<Rightarrow> Some (Some t) | JNull \<Rightarrow> Some None | _ \<Rightarrow> None)"

definition put_int_ptr :: "int option \<Rightarrow> json \<Rightarrow> int option option" where
  "put_int_ptr acc v =
     (case v of JNum t \<Rightarrow> map_option Some (Atoi t) | JNull \<Rightarrow> Some None | _ \<Rightarrow> None)"

text \<open>A \<open>map[string]any\<close>: members are added to the map that is there.\<close>

definition put_any_map :: "golib \<Rightarrow> (bytes \<times> json) list \<Rightarrow> json \<Rightarrow> (bytes \<times> json) list option" where
  "put_any_map lib acc v =
     (case v of
        JObj kvs \<Rightarrow> map_option (\<lambda>m. go_map (acc @ m)) (to_any_members lib kvs)
      | JNull \<Rightarrow> Some []
      | _ \<Rightarrow> None)"

text \<open>
  A slice: nil, or its backing array and its length. An element is decoded on top of what the
  backing array has in its place; an empty array drops the backing array.
\<close>

type_synonym 'a slice = "('a list \<times> nat) option"

fun put_elems :: "('a \<Rightarrow> json \<Rightarrow> 'a option) \<Rightarrow> 'a \<Rightarrow> 'a list \<Rightarrow> json list \<Rightarrow> 'a list option" where
  "put_elems f z old [] = Some old"
| "put_elems f z old (v # vs) =
     (case f (if old = [] then z else hd old) v of
        None \<Rightarrow> None
      | Some a \<Rightarrow> map_option (\<lambda>as. a # as) (put_elems f z (tl old) vs))"

definition put_slice :: "('a \<Rightarrow> json \<Rightarrow> 'a option) \<Rightarrow> 'a \<Rightarrow> 'a slice \<Rightarrow> json \<Rightarrow> 'a slice option" where
  "put_slice f z acc v =
     (case v of
        JArr vs \<Rightarrow>
          if vs = [] then Some (Some ([], 0))
          else map_option (\<lambda>as. Some (as, length vs))
                 (put_elems f z (case acc of None \<Rightarrow> [] | Some (as, n) \<Rightarrow> as) vs)
      | JNull \<Rightarrow> Some None
      | _ \<Rightarrow> None)"

definition get_string :: "bytes \<Rightarrow> (bytes \<times> json) list \<Rightarrow> bytes option" where
  "get_string name kvs = fold_field put_string [] (field_values name kvs)"

definition get_int :: "bytes \<Rightarrow> (bytes \<times> json) list \<Rightarrow> int option" where
  "get_int name kvs = fold_field put_int 0 (field_values name kvs)"

definition get_string_ptr :: "bytes \<Rightarrow> (bytes \<times> json) list \<Rightarrow> bytes option option" where
  "get_string_ptr name kvs = fold_field put_string_ptr None (field_values name kvs)"

definition get_int_ptr :: "bytes \<Rightarrow> (bytes \<times> json) list \<Rightarrow> int option option" where
  "get_int_ptr name kvs = fold_field put_int_ptr None (field_values name kvs)"

definition get_slice ::
    "('a \<Rightarrow> json \<Rightarrow> 'a option) \<Rightarrow> 'a \<Rightarrow> bytes \<Rightarrow> (bytes \<times> json) list \<Rightarrow> 'a list option option" where
  "get_slice f z name kvs =
     map_option (map_option (\<lambda>(as, n). take n as))
       (fold_field (put_slice f z) None (field_values name kvs))"

text \<open>A struct inside a struct, on top of what is there.\<close>

definition put_struct :: "('a \<Rightarrow> (bytes \<times> json) list \<Rightarrow> 'a option) \<Rightarrow> 'a \<Rightarrow> json \<Rightarrow> 'a option" where
  "put_struct f acc v = (case v of JObj kvs \<Rightarrow> f acc kvs | JNull \<Rightarrow> Some acc | _ \<Rightarrow> None)"

definition upd_string :: "bytes \<Rightarrow> bytes \<Rightarrow> (bytes \<times> json) list \<Rightarrow> bytes option" where
  "upd_string name old kvs = fold_field put_string old (field_values name kvs)"

text \<open>A slice in an encoded value.\<close>

definition slice_json :: "('a \<Rightarrow> json) \<Rightarrow> 'a list option \<Rightarrow> json" where
  "slice_json f xs = (case xs of None \<Rightarrow> JNull | Some as \<Rightarrow> JArr (map f as))"

definition slice_list :: "'a list option \<Rightarrow> 'a list" where
  "slice_list xs = (case xs of None \<Rightarrow> [] | Some as \<Rightarrow> as)"

section \<open>Raw messages\<close>

text \<open>The members of an object with the text of each value, after the opening bracket.\<close>

fun raw_members :: "nat \<Rightarrow> int \<Rightarrow> bytes \<Rightarrow> (bytes \<times> json \<times> bytes) list" where
  "raw_members 0 d s = []"
| "raw_members (Suc n) d s =
     (case parse_str (tl (skip_space s)) of
        None \<Rightarrow> []
      | Some (k, r) \<Rightarrow>
      let u = tl (skip_space r) in
      case parse_value n d u of
        None \<Rightarrow> []
      | Some (v, r2) \<Rightarrow>
          (k, v, take (length (skip_space u) - length r2) (skip_space u)) #
          (case skip_space r2 of
             [] \<Rightarrow> []
           | c # t \<Rightarrow> if c = CHR '','' then raw_members n d t else []))"

text \<open>The members of the object at the head of \<open>s\<close>; a top-level \<open>null\<close> leaves a struct as it is.\<close>

definition raw_object :: "bytes \<Rightarrow> (bytes \<times> json \<times> bytes) list" where
  "raw_object s =
     (case skip_space s of
        [] \<Rightarrow> []
      | c # t \<Rightarrow>
          if take 1 (skip_space t) = ''}'' then [] else raw_members (2 * length s + 1) 1 t)"

definition plain_members :: "(bytes \<times> json \<times> bytes) list \<Rightarrow> (bytes \<times> json) list" where
  "plain_members ms = map (\<lambda>(k, v, t). (k, v)) ms"

definition decode_struct ::
    "((bytes \<times> json \<times> bytes) list \<Rightarrow> 'a option) \<Rightarrow> json \<Rightarrow> bytes \<Rightarrow> 'a option" where
  "decode_struct f v s =
     (case v of JObj kvs \<Rightarrow> f (raw_object s) | JNull \<Rightarrow> f [] | _ \<Rightarrow> None)"

definition get_raw :: "bytes \<Rightarrow> (bytes \<times> json \<times> bytes) list \<Rightarrow> bytes" where
  "get_raw name ms =
     (let ts = field_values name (map (\<lambda>(k, v, t). (k, t)) ms) in if ts = [] then [] else last ts)"

text \<open>The text of a valid value without its white space, with the characters escaped that
  \<open>json.Marshal\<close> escapes in a raw message.\<close>

function compact_from :: "bool \<Rightarrow> bytes \<Rightarrow> bytes" where
  "compact_from q s =
     (if s = [] then []
      else if q then
        (if hd s = CHR 0x5C then take 2 s @ compact_from True (drop 2 s)
         else if hd s = CHR 0x22 then hd s # compact_from False (tl s)
         else if hd s = CHR ''<'' \<or> hd s = CHR ''>'' \<or> hd s = CHR ''&''
         then esc_u (byte (hd s)) @ compact_from True (tl s)
         else if take 3 s = [CHR 0xE2, CHR 0x80, CHR 0xA8] then esc_u 0x2028 @ compact_from True (drop 3 s)
         else if take 3 s = [CHR 0xE2, CHR 0x80, CHR 0xA9] then esc_u 0x2029 @ compact_from True (drop 3 s)
         else hd s # compact_from True (tl s))
      else if is_json_space (hd s) then compact_from False (tl s)
      else hd s # compact_from (hd s = CHR 0x22) (tl s))"
  by pat_completeness auto
termination by (relation "measure (\<lambda>(q, s). length s)") auto

declare compact_from.simps [simp del]

text \<open>A raw message in an encoded value, printed as it is; a nil one is \<open>null\<close>.\<close>

definition raw_json :: "bytes \<Rightarrow> json option" where
  "raw_json t =
     (if t = [] then Some JNull
      else if json_unmarshal t = None then None
      else Some (JNum (compact_from False t)))"

text \<open>A \<open>time.Time\<close> of the process, whose zone is UTC, and a pointer to a value.\<close>

definition time_json :: "time \<Rightarrow> json option" where
  "time_json t =
     (case civil (t div Second div 86400) of (y, _, _) \<Rightarrow>
        if 0 \<le> y \<and> y \<le> 9999 then Some (JStr (RFC3339Nano t)) else None)"

definition ptr_json :: "('a \<Rightarrow> json) \<Rightarrow> 'a option \<Rightarrow> json" where
  "ptr_json f x = (case x of None \<Rightarrow> JNull | Some v \<Rightarrow> f v)"

text \<open>An object whose members are encoded one after the other, and an array.\<close>

fun all_some :: "'a option list \<Rightarrow> 'a list option" where
  "all_some [] = Some []"
| "all_some (x # xs) =
     (case x of None \<Rightarrow> None | Some a \<Rightarrow> map_option (\<lambda>as. a # as) (all_some xs))"

definition obj_json :: "(bytes \<times> json option) list \<Rightarrow> json option" where
  "obj_json kvs = map_option (\<lambda>vs. JObj (zip (map fst kvs) vs)) (all_some (map snd kvs))"

definition arr_json :: "json option list \<Rightarrow> json option" where
  "arr_json xs = map_option JArr (all_some xs)"

section \<open>Strings\<close>

definition HasSuffix :: "bytes \<Rightarrow> bytes \<Rightarrow> bool" where
  "HasSuffix s t \<longleftrightarrow> suffix t s"

fun split_on :: "char \<Rightarrow> bytes \<Rightarrow> bytes list" where
  "split_on c [] = [[]]"
| "split_on c (x # xs) =
     (if x = c then [] # split_on c xs
      else case split_on c xs of [] \<Rightarrow> [[x]] | w # ws \<Rightarrow> (x # w) # ws)"

lemma split_on_none: "c \<notin> set s \<Longrightarrow> split_on c s = [s]"
  by (induction s) auto

lemma split_on_append: "c \<notin> set s \<Longrightarrow> split_on c (s @ c # t) = s # split_on c t"
  by (induction s) auto

text \<open>
  \<open>strings.ToLower\<close> as far as a search for ASCII text can tell: U+0130 and U+212A are the
  runes beyond ASCII whose lower case is in it.
\<close>

definition lower_rune :: "bytes \<Rightarrow> bytes" where
  "lower_rune r =
     (if r = [CHR 0xC4, CHR 0xB0] then ''i''
      else if r = [CHR 0xE2, CHR 0x84, CHR 0xAA] then ''k''
      else map (\<lambda>c. if 65 \<le> byte c \<and> byte c \<le> 90 then char_of (byte c + 32) else c) r)"

definition ToLower :: "bytes \<Rightarrow> bytes" where
  "ToLower s = concat (map lower_rune (runes s))"

section \<open>Reading back what the encoder writes\<close>

lemma raw_members_parse: "parse_members n d s = Some (kvs, r) \<Longrightarrow> plain_members (raw_members n d s) = kvs"
proof (induction n arbitrary: s kvs)
  case (Suc n)
  from Suc.prems obtain k u v r2 c t where p: "parse_str (tl (skip_space s)) = Some (k, u)"
    "parse_value n d (tl (skip_space u)) = Some (v, r2)" "skip_space r2 = c # t"
    and rest: "c = CHR ''}'' \<and> kvs = [(k, v)] \<or>
      c = CHR '','' \<and> (\<exists>kvs'. kvs = (k, v) # kvs' \<and> parse_members n d t = Some (kvs', r))"
    by (auto simp: parse_members.simps split: if_splits option.splits list.splits)
  from rest show ?case using p Suc.IH by (auto simp: plain_members_def Let_def)
qed (simp add: parse_members.simps)

lemma raw_object_parse:
  assumes "json_decode s = DecVal (JObj kvs) r"
  shows "plain_members (raw_object s) = kvs"
proof -
  from assms have p: "parse_value (Suc (2 * length s + 1)) 0 s = Some (JObj kvs, r)"
    by (auto simp: json_decode_def json_fuel_def split: if_splits option.splits)
  then show ?thesis
    by (auto simp: parse_value.simps raw_object_def literal_def plain_members_def [of "[]"]
        split: list.splits if_splits dest!: raw_members_parse)
qed

lemma put_elems_map:
  assumes "\<And>x. x \<in> set xs \<Longrightarrow> f z (g x) = Some x"
  shows "put_elems f z [] (map g xs) = Some xs"
  using assms by (induction xs) auto

lemma get_slice_json:
  assumes "\<And>x. x \<in> set (slice_list xs) \<Longrightarrow> f z (g x) = Some x" "field_values name kvs = [slice_json g xs]"
  shows "get_slice f z name kvs = Some xs"
  using assms put_elems_map [of "slice_list xs" f z g]
  by (cases xs) (auto simp: get_slice_def put_slice_def slice_json_def slice_list_def)

text \<open>Names of lower-case letters and underscores are told apart.\<close>

definition plain_name :: "bytes \<Rightarrow> bool" where
  "plain_name s \<longleftrightarrow> list_all (\<lambda>c. 97 \<le> byte c \<and> byte c \<le> 122 \<or> byte c = 95) s"

definition upper_char :: "char \<Rightarrow> char" where
  "upper_char c = (if 97 \<le> byte c \<and> byte c \<le> 122 then char_of (byte c - 32) else c)"

lemma runes_ascii: "(\<And>c. c \<in> set s \<Longrightarrow> byte c < 0x80) \<Longrightarrow> runes s = map (\<lambda>c. [c]) s"
proof -
  assume "\<And>c. c \<in> set s \<Longrightarrow> byte c < 0x80"
  then have "runes (concat (map (\<lambda>c. [c]) s)) = map (\<lambda>c. [c]) s"
    by (intro runes_concat) (auto simp: ascii_rune)
  then show ?thesis by simp
qed

lemma fold_name_plain: "plain_name s \<Longrightarrow> fold_name s = map upper_char s"
proof -
  assume "plain_name s"
  then have "runes s = map (\<lambda>c. [c]) s"
    by (intro runes_ascii) (auto simp: plain_name_def list_all_iff)
  then show ?thesis by (simp add: fold_name_def fold_rune_def upper_char_def comp_def)
qed

lemma byte_upper: "byte (upper_char c) = (if 97 \<le> byte c \<and> byte c \<le> 122 then byte c - 32 else byte c)"
  by (auto simp: upper_char_def byte_def)

lemma fold_name_eq:
  assumes "plain_name a" "plain_name b"
  shows "fold_name a = fold_name b \<longleftrightarrow> a = b"
proof -
  have "inj_on upper_char (set a \<union> set b)"
  proof (rule inj_onI)
    fix x y assume x: "x \<in> set a \<union> set b" "y \<in> set a \<union> set b" and e: "upper_char x = upper_char y"
    have p: "97 \<le> byte c \<and> byte c \<le> 122 \<or> byte c = 95" if "c \<in> set a \<union> set b" for c
      using assms that by (auto simp: plain_name_def list_all_iff)
    have "(if 97 \<le> m \<and> m \<le> 122 then m - 32 else m) = (if 97 \<le> n \<and> n \<le> 122 then n - 32 else n) \<Longrightarrow> m = n"
      if "97 \<le> m \<and> m \<le> 122 \<or> m = 95" "97 \<le> n \<and> n \<le> 122 \<or> n = 95" for m n :: nat
      using that by (auto split: if_splits)
    from this [OF p [OF x(1)] p [OF x(2)]] arg_cong [OF e, of byte, unfolded byte_upper]
    show "x = y" by (simp add: byte_def)
  qed
  then show ?thesis using assms by (simp add: fold_name_plain inj_on_map_eq_map)
qed

lemma field_values_Nil [simp]: "field_values n [] = []" by (simp add: field_values_def)

lemma field_values_Cons:
  "plain_name k \<Longrightarrow> plain_name n \<Longrightarrow>
   field_values n ((k, v) # kvs) = (if k = n then v # field_values n kvs else field_values n kvs)"
  by (simp add: field_values_def fold_name_eq)

lemma get_string_ptr_json:
  "field_values name kvs = [ptr_json JStr p] \<Longrightarrow> get_string_ptr name kvs = Some p"
  by (cases p) (simp_all add: get_string_ptr_def ptr_json_def put_string_ptr_def)

lemma get_string_json:
  "field_values name kvs = [JStr t] \<Longrightarrow> get_string name kvs = Some t"
  by (simp add: get_string_def put_string_def)

end
