(* ===== verification/Http_Api.thy ===== *)
theory Http_Api
  imports Go_Http
begin

text \<open>
  The shared parts of \<open>internal/httpapi\<close>: the reading of a JSON request (\<open>json.go\<close>), the
  cross-origin wrapper (\<open>cors.go\<close>) and the handlers for health and version
  (\<open>operations.go\<close>). A handler takes the request and the state \<open>'w\<close> of what it calls and
  gives the response and the new state.
\<close>

type_synonym 'w handler = "Request \<Rightarrow> 'w \<Rightarrow> Response \<times> 'w"

section \<open>JSON requests\<close>

definition MaxJSONRequestBodyBytes :: int where "MaxJSONRequestBodyBytes = 2 ^ 20"

definition io_EOF :: error where "io_EOF = ErrNew ''EOF''"

definition decodeJSONRequest ::
    "golib \<Rightarrow> Request \<Rightarrow> ((bytes \<times> json \<times> bytes) list \<Rightarrow> 'a option) \<Rightarrow> int \<Rightarrow> error + 'a" where
  "decodeJSONRequest lib r dst limit =
     (case max_bytes_reader limit (req_Body r) (req_BodyError r) of (body, e) \<Rightarrow>
      case read_value e body of
        ReadEOF \<Rightarrow> Inl io_EOF
      | ReadSyntax \<Rightarrow> Inl (lib_json_error lib body)
      | ReadFail x \<Rightarrow> Inl x
      | ReadVal v rest \<Rightarrow>
      case decode_struct dst v body of
        None \<Rightarrow> Inl (lib_json_error lib body)
      | Some result \<Rightarrow>
      case read_value e rest of
        ReadEOF \<Rightarrow> Inr result
      | ReadVal extra _ \<Rightarrow>
          if to_any lib extra = None then Inl (lib_json_error lib rest) else Inl ErrExtraJSONValue
      | ReadSyntax \<Rightarrow> Inl (lib_json_error lib rest)
      | ReadFail x \<Rightarrow> Inl x)"

definition DecodeJSONRequest ::
    "golib \<Rightarrow> Request \<Rightarrow> ((bytes \<times> json \<times> bytes) list \<Rightarrow> 'a option) \<Rightarrow> error + 'a" where
  "DecodeJSONRequest lib r dst = decodeJSONRequest lib r dst MaxJSONRequestBodyBytes"

definition IsRequestBodyTooLarge :: "error \<Rightarrow> bool" where
  "IsRequestBodyTooLarge err = errors_as_max_bytes err"

section \<open>Cross-origin requests\<close>

definition cors_allowed :: "bytes list \<Rightarrow> bytes list" where
  "cors_allowed allowedOrigins = filter (\<lambda>origin. origin \<noteq> []) (map TrimSpace allowedOrigins)"

definition WithCORS :: "'w handler \<Rightarrow> bytes list \<Rightarrow> 'w handler" where
  "WithCORS next allowedOrigins r w =
     (let origin = TrimSpace (header_get (req_Header r) ''Origin'');
          ok = (origin \<in> set (cors_allowed allowedOrigins));
          h = (if ok then
                 [(''Access-Control-Allow-Origin'', origin), (''Vary'', ''Origin''),
                  (''Access-Control-Allow-Methods'', ''GET, POST, OPTIONS''),
                  (''Access-Control-Allow-Headers'', ''Content-Type, Idempotency-Key'')]
               else [])
      in if req_Method r = ''OPTIONS'' then
           (with_headers h (status_only (if origin \<noteq> [] \<and> \<not> ok then 403 else 204)), w)
         else case next r w of (rsp, w1) \<Rightarrow> (with_headers h rsp, w1))"

section \<open>Health and version\<close>

text \<open>\<open>requireGet\<close>: the response of a request with another method.\<close>

definition requireGet :: "Request \<Rightarrow> Response option" where
  "requireGet r = (if req_Method r = ''GET'' then None else Some (method_not_allowed ''GET''))"

definition writeJSON :: "int \<Rightarrow> json option \<Rightarrow> Response" where
  "writeJSON status value = json_response status value"

definition livenessResponse :: "bytes \<Rightarrow> json" where
  "livenessResponse status = JObj [(''status'', JStr status)]"

definition readinessResponse :: "bytes \<Rightarrow> bytes \<Rightarrow> bytes \<Rightarrow> json" where
  "readinessResponse status postgres redis =
     JObj [(''status'', JStr status), (''postgres'', JStr postgres), (''redis'', JStr redis)]"

definition versionResponse :: "bytes \<Rightarrow> bytes \<Rightarrow> bytes \<Rightarrow> bytes \<Rightarrow> json" where
  "versionResponse service version commit builtAt =
     JObj [(''service'', JStr service), (''version'', JStr version), (''commit'', JStr commit),
           (''built_at'', JStr builtAt)]"

definition NewLivenessHandler :: "'w handler" where
  "NewLivenessHandler r w =
     (case requireGet r of
        Some rsp \<Rightarrow> (rsp, w)
      | None \<Rightarrow> (writeJSON 200 (Some (livenessResponse ''ok'')), w))"

type_synonym 'w DependencyCheck = "'w \<Rightarrow> error option \<times> 'w"

definition dependencyStatus :: "'w DependencyCheck option \<Rightarrow> 'w \<Rightarrow> bytes \<times> 'w" where
  "dependencyStatus check w =
     (case check of
        None \<Rightarrow> (''ok'', w)
      | Some c \<Rightarrow> (case c w of (Some _, w1) \<Rightarrow> (''error'', w1) | (None, w1) \<Rightarrow> (''ok'', w1)))"

definition NewReadinessHandler ::
    "'w DependencyCheck option \<Rightarrow> 'w DependencyCheck option \<Rightarrow> 'w handler" where
  "NewReadinessHandler postgresCheck redisCheck r w =
     (case requireGet r of
        Some rsp \<Rightarrow> (rsp, w)
      | None \<Rightarrow>
      case dependencyStatus postgresCheck w of (pgStatus, w1) \<Rightarrow>
      case dependencyStatus redisCheck w1 of (redisStatus, w2) \<Rightarrow>
      let degraded = (pgStatus \<noteq> ''ok'' \<or> redisStatus \<noteq> ''ok'')
      in (writeJSON (if degraded then 503 else 200)
            (Some (readinessResponse (if degraded then ''degraded'' else ''ok'') pgStatus redisStatus)),
          w2))"

definition NewVersionHandler :: "bytes \<Rightarrow> bytes \<Rightarrow> bytes \<Rightarrow> bytes \<Rightarrow> 'w handler" where
  "NewVersionHandler service version commit builtAt r w =
     (case requireGet r of
        Some rsp \<Rightarrow> (rsp, w)
      | None \<Rightarrow> (writeJSON 200 (Some (versionResponse service version commit builtAt)), w))"

section \<open>Routing\<close>

text \<open>
  \<open>http.ServeMux\<close> for patterns without methods, hosts and wildcards, on paths without percent
  escapes: a pattern that ends in a slash matches every path below it, the longest matching
  pattern wins, and a path that is not clean is redirected to its clean form. The
  redirect itself is an argument.
\<close>

definition clean_segments :: "bytes \<Rightarrow> bytes list" where
  "clean_segments path =
     foldl (\<lambda>segs seg. if seg = [] \<or> seg = ''.'' then segs
                       else if seg = ''..'' then butlast segs
                       else segs @ [seg]) [] (split_on (CHR ''/'') path)"

definition cleanPath :: "bytes \<Rightarrow> bytes" where
  "cleanPath path =
     (let np = (if clean_segments path = [] then ''/''
                else concat (map (\<lambda>seg. CHR ''/'' # seg) (clean_segments path)))
      in if path \<noteq> [] \<and> last path = CHR ''/'' \<and> np \<noteq> ''/'' then np @ ''/'' else np)"

definition pattern_matches :: "bytes \<Rightarrow> bytes \<Rightarrow> bool" where
  "pattern_matches pat path \<longleftrightarrow>
     (if pat \<noteq> [] \<and> last pat = CHR ''/'' then prefix pat path else pat = path)"

fun longest_match :: "bytes \<Rightarrow> (bytes \<times> 'h) list \<Rightarrow> (bytes \<times> 'h) option" where
  "longest_match path [] = None"
| "longest_match path ((pat, h) # routes) =
     (case longest_match path routes of
        None \<Rightarrow> if pattern_matches pat path then Some (pat, h) else None
      | Some (pat2, h2) \<Rightarrow>
          if pattern_matches pat path \<and> length pat2 < length pat then Some (pat, h) else Some (pat2, h2))"

definition serve_mux ::
    "(bytes \<Rightarrow> Request \<Rightarrow> Response) \<Rightarrow> (bytes \<times> 'w handler) list \<Rightarrow> 'w handler" where
  "serve_mux redirect routes r w =
     (if req_Method r \<noteq> ''CONNECT'' \<and> cleanPath (req_Path r) \<noteq> req_Path r
      then (redirect (cleanPath (req_Path r)) r, w)
      else
        case longest_match (req_Path r) routes of
          None \<Rightarrow> (http_Error ''404 page not found'' 404, w)
        | Some (pat, h) \<Rightarrow> h r w)"

section \<open>Lemmas on headers\<close>

lemma map_of_header_set [simp]: "map_of (header_set k v h) = (map_of h)(k \<mapsto> v)"
  by (induction k v h rule: header_set.induct) (auto simp: fun_eq_iff)

lemma header_get_with_headers:
  "k \<notin> fst ` set (rsp_Header r) \<Longrightarrow> header_get (rsp_Header (with_headers h r)) k = header_get h k"
proof -
  have "k \<notin> fst ` set kvs \<Longrightarrow>
      map_of (foldl (\<lambda>m kv. header_set (fst kv) (snd kv) m) h kvs) k = map_of h k" for kvs
    by (induction kvs arbitrary: h) auto
  then show "k \<notin> fst ` set (rsp_Header r) \<Longrightarrow> ?thesis"
    by (simp add: header_get_def with_headers_def)
qed

lemma with_headers_sel [simp]:
  "rsp_Status (with_headers h r) = rsp_Status r" "rsp_Body (with_headers h r) = rsp_Body r"
  by (simp_all add: with_headers_def)

lemma status_only_sel [simp]: "rsp_Status (status_only c) = c" "rsp_Header (status_only c) = []"
  by (simp_all add: status_only_def)

lemma header_get_simps [simp]:
  "header_get [] k = []" "header_get ((k', v) # h) k = (if k = k' then v else header_get h k)"
  by (simp_all add: header_get_def)

lemma cors_allowed_mem: "o' \<in> set (cors_allowed os) \<longleftrightarrow> o' \<noteq> [] \<and> o' \<in> TrimSpace ` set os"
  by (auto simp: cors_allowed_def)

section \<open>Properties\<close>

text \<open>
  C37: Another origin is only granted access when it is configured. For a handler that sets no such
  header itself, the wrapped handler answers with \<open>Access-Control-Allow-Origin\<close> if and only if the
  origin of the request is one of the configured ones, and then with that origin; and a preflight
  request never reaches the handler: it leaves the state as it is and is refused with 403 when
  its origin is unknown.
\<close>

theorem cors_grants_configured_origins:
  assumes "''Access-Control-Allow-Origin'' \<notin> fst ` set (rsp_Header (fst (next r w)))"
    and "origin = TrimSpace (header_get (req_Header r) ''Origin'')"
    and "WithCORS next os r w = (rsp, w')"
  shows "header_get (rsp_Header rsp) ''Access-Control-Allow-Origin'' =
      (if origin \<noteq> [] \<and> origin \<in> TrimSpace ` set os then origin else []) \<and>
    (req_Method r = ''OPTIONS'' \<longrightarrow> w' = w \<and>
       rsp_Status rsp = (if origin \<noteq> [] \<and> origin \<notin> TrimSpace ` set os then 403 else 204)) \<and>
    (req_Method r \<noteq> ''OPTIONS'' \<longrightarrow> w' = snd (next r w) \<and> rsp_Status rsp = rsp_Status (fst (next r w)))"
proof -
  obtain rsp0 w0 where n: "next r w = (rsp0, w0)" by fastforce
  have k: "header_get (rsp_Header (with_headers h rsp0)) ''Access-Control-Allow-Origin'' =
      header_get h ''Access-Control-Allow-Origin''"
    "header_get (rsp_Header (with_headers h (status_only c))) ''Access-Control-Allow-Origin'' =
      header_get h ''Access-Control-Allow-Origin''" for h c
    using assms(1) n by (simp_all add: header_get_with_headers status_only_def)
  show ?thesis using assms(3) n
    by (simp add: WithCORS_def Let_def cors_allowed_mem flip: assms(2) split: if_splits)
      (auto simp: k)
qed

theorem cors_grants_configured_origins_witness:
  "header_get (rsp_Header (fst (WithCORS NewLivenessHandler ['' http://a '']
     \<lparr>req_Method = ''GET'', req_Path = ''/health/live'', req_Query = [],
      req_Header = [(''Origin'', ''http://b'')], req_Body = [], req_BodyError = None\<rparr> ())))
     ''Access-Control-Allow-Origin'' = []"
proof -
  let ?r = "\<lparr>req_Method = ''GET'', req_Path = ''/health/live'', req_Query = [],
      req_Header = [(''Origin'', ''http://b'')], req_Body = [], req_BodyError = None\<rparr>"
  obtain rsp w where run: "WithCORS NewLivenessHandler ['' http://a ''] ?r () = (rsp, w)" by (metis surj_pair)
  have "''Access-Control-Allow-Origin'' \<notin> fst ` set (rsp_Header (fst (NewLivenessHandler ?r ())))"
    by code_simp
  moreover have "TrimSpace '' http://a '' = ''http://a''" "TrimSpace ''http://b'' = ''http://b''" by code_simp+
  ultimately show ?thesis
    using cors_grants_configured_origins [OF _ refl run] run by (simp add: header_get_def)
qed

text \<open>
  The readiness probe. A \<open>GET\<close> is answered with 200 if and only if neither check fails, and
  with 503 otherwise; both checks run, in order, and the body names the one that failed.
\<close>

theorem readiness_reports_checks:
  assumes "req_Method r = ''GET''" "pgCheck w = (pgErr, w1)" "redisCheck w1 = (redisErr, w2)"
  shows "NewReadinessHandler (Some pgCheck) (Some redisCheck) r w =
    (json_response (if pgErr = None \<and> redisErr = None then 200 else 503)
      (Some (JObj [(''status'', JStr (if pgErr = None \<and> redisErr = None then ''ok'' else ''degraded'')),
                   (''postgres'', JStr (if pgErr = None then ''ok'' else ''error'')),
                   (''redis'', JStr (if redisErr = None then ''ok'' else ''error''))])), w2)"
  using assms
  by (auto simp: NewReadinessHandler_def requireGet_def dependencyStatus_def writeJSON_def
      readinessResponse_def Let_def split: option.splits)

theorem readiness_reports_checks_witness:
  "rsp_Status (fst (NewReadinessHandler (Some (\<lambda>w. (None, w))) (Some (\<lambda>w. (Some ErrNoRows, w)))
     \<lparr>req_Method = ''GET'', req_Path = ''/health'', req_Query = [], req_Header = [], req_Body = [],
      req_BodyError = None\<rparr> ())) = 503"
  using readiness_reports_checks [of "\<lparr>req_Method = ''GET'', req_Path = ''/health'', req_Query = [],
      req_Header = [], req_Body = [], req_BodyError = None\<rparr>" "\<lambda>w. (None, w)" "()" None "()"
      "\<lambda>w. (Some ErrNoRows, w)" "Some ErrNoRows" "()"]
  by (simp add: json_response_def)

end
