(* ===== verification/Database.thy ===== *)
theory Database
  imports Go_Json Go_Time "HOL-Library.Product_Lexorder"
begin

text \<open>
  The PostgreSQL tables of \<open>migrations/*.sql\<close> as lists of rows in insertion order, with the
  constraints of the schema: primary keys, the unique indexes, the foreign keys and the checks.
  Each SQL statement of the program is a function on these tables in the theory of the package
  that issues it.

  What PostgreSQL decides and the program does not is the record \<open>pg\<close>, an argument of every
  operation: the transaction's \<open>now()\<close>, the values of \<open>uuid_generate_v4()\<close>, which
  statement fails and whether a failed \<open>COMMIT\<close> took effect all the same, which outbox rows
  are locked by other transactions, the reading of a text as a \<open>uuid\<close>, the text in
  which a \<open>jsonb\<close> value is returned, and how many rows arrive before the reading of rows fails. A transaction that does not commit leaves the
  tables as they were; the gaps it leaves in a sequence are not kept, because identifiers of
  the sequences are only compared.
\<close>

section \<open>Tables\<close>

record event_row =
  ev_id :: bytes
  ev_event_type :: bytes
  ev_source :: bytes
  ev_payload :: bytes
  ev_created_at :: int
  ev_idempotency_key :: "bytes option"
  ev_request_hash :: "bytes option"

record outbox_row =
  ob_id :: bytes
  ob_event_id :: bytes
  ob_status :: bytes
  ob_attempt_count :: int
  ob_next_attempt_at :: int
  ob_published_at :: "int option"
  ob_last_error :: "bytes option"
  ob_created_at :: int
  ob_updated_at :: int

record history_row =
  h_id :: int
  h_event_id :: bytes
  h_status :: bytes
  h_details :: bytes
  h_created_at :: int

record attempt_row =
  a_id :: int
  a_event_id :: bytes
  a_attempt_number :: int
  a_outcome :: bytes
  a_response_code :: "int option"
  a_error :: "bytes option"
  a_started_at :: int
  a_completed_at :: int

record dlq_row =
  q_event_id :: bytes
  q_original_stream_id :: bytes
  q_attempt_count :: int
  q_last_error :: "bytes option"
  q_status :: bytes
  q_dead_lettered_at :: int
  q_redriven_at :: "int option"
  q_updated_at :: int

record db =
  events :: "event_row list"
  outbox :: "outbox_row list"
  history :: "history_row list"
  attempts :: "attempt_row list"
  dlq :: "dlq_row list"
  history_seq :: int
  attempts_seq :: int

definition empty_db :: db where
  "empty_db = \<lparr>events = [], outbox = [], history = [], attempts = [], dlq = [],
     history_seq = 1, attempts_seq = 1\<rparr>"

section \<open>The server\<close>

datatype stmt =
    Begin
  | Commit
  | Rollback
  | InsertEvent
  | SelectByKey
  | InsertOutbox
  | InsertHistory bytes
  | SelectPending
  | MarkPublished
  | Reschedule
  | InsertAttempt
  | UpsertDLQ
  | LockDLQ
  | MarkRedriven
  | FetchEvent
  | FetchHistory
  | ReadHistory
  | FetchAttempts
  | ReadAttempts
  | SelectDLQ
  | ReadDLQ
  | SelectMetrics
  | SelectEvent
  | SelectReplay
  | ReadReplay

record pg =
  pg_now :: int
  pg_event_id :: bytes
  pg_outbox_id :: bytes
  pg_fault :: "stmt \<Rightarrow> error option"
  pg_commit_applied :: bool
  pg_locked :: "bytes \<Rightarrow> bool"
  pg_uuid :: "bytes \<Rightarrow> bytes option"
  pg_jsonb :: "bytes \<Rightarrow> bytes"
  pg_rows :: nat

text \<open>The errors of the constraints, by their SQLSTATE.\<close>

definition unique_violation :: error where "unique_violation = ErrNew ''SQLSTATE 23505''"
definition foreign_key_violation :: error where "foreign_key_violation = ErrNew ''SQLSTATE 23503''"
definition check_violation :: error where "check_violation = ErrNew ''SQLSTATE 23514''"
definition invalid_text :: error where "invalid_text = ErrNew ''SQLSTATE 22P02''"
definition out_of_range :: error where "out_of_range = ErrNew ''SQLSTATE 22003''"

definition guard :: "pg \<Rightarrow> stmt \<Rightarrow> (error + 'a) \<Rightarrow> error + 'a" where
  "guard p st r = (case pg_fault p st of Some e \<Rightarrow> Inl e | None \<Rightarrow> r)"

definition commit :: "pg \<Rightarrow> db \<Rightarrow> db \<Rightarrow> error option \<times> db" where
  "commit p d0 d1 =
     (case pg_fault p Commit of
        None \<Rightarrow> (None, d1)
      | Some e \<Rightarrow> (Some e, if pg_commit_applied p then d1 else d0))"

definition cast_uuid :: "pg \<Rightarrow> bytes \<Rightarrow> error + bytes" where
  "cast_uuid p t = (case pg_uuid p t of None \<Rightarrow> Inl invalid_text | Some u \<Rightarrow> Inr u)"

definition has_event :: "db \<Rightarrow> bytes \<Rightarrow> bool" where
  "has_event d e = list_ex (\<lambda>r. ev_id r = e) (events d)"

definition find_event :: "db \<Rightarrow> bytes \<Rightarrow> event_row option" where
  "find_event d e = find (\<lambda>r. ev_id r = e) (events d)"

text \<open>PostgreSQL's \<open>btrim\<close> with its default character, the space.\<close>

definition btrim :: "bytes \<Rightarrow> bytes" where
  "btrim s = TrimChar s (CHR '' '')"

text \<open>A server on which no statement fails, and an example of one.\<close>

definition no_faults :: "pg \<Rightarrow> bool" where
  "no_faults p \<longleftrightarrow> pg_fault p = (\<lambda>_. None)"

definition quiet_pg :: "bytes \<Rightarrow> bytes \<Rightarrow> int \<Rightarrow> pg" where
  "quiet_pg e o' t = \<lparr>pg_now = t, pg_event_id = e, pg_outbox_id = o', pg_fault = (\<lambda>_. None),
     pg_commit_applied = False, pg_locked = (\<lambda>_. False), pg_uuid = Some, pg_jsonb = (\<lambda>x. x),
     pg_rows = 0\<rparr>"

section \<open>The invariant of the schema\<close>

text \<open>
  \<open>uuid_laws u\<close>: the cast from text to \<open>uuid\<close> and back gives the canonical text, which is
  its own cast. \<open>server u p\<close>: the server of this transaction reads identifiers with \<open>u\<close> and
  generates canonical ones.
\<close>

definition uuid_laws :: "(bytes \<Rightarrow> bytes option) \<Rightarrow> bool" where
  "uuid_laws u \<longleftrightarrow> (\<forall>t x. u t = Some x \<longrightarrow> u x = Some x)"

definition server :: "(bytes \<Rightarrow> bytes option) \<Rightarrow> pg \<Rightarrow> bool" where
  "server u p \<longleftrightarrow> uuid_laws u \<and> pg_uuid p = u \<and> u (pg_event_id p) = Some (pg_event_id p) \<and>
     u (pg_outbox_id p) = Some (pg_outbox_id p)"

definition event_ids :: "db \<Rightarrow> bytes set" where
  "event_ids d = ev_id ` set (events d)"

text \<open>Primary keys, unique indexes, foreign keys and checks.\<close>

definition keys_ok :: "(bytes \<Rightarrow> bytes option) \<Rightarrow> db \<Rightarrow> bool" where
  "keys_ok u d \<longleftrightarrow>
     distinct (map ev_id (events d)) \<and> distinct (map ob_id (outbox d)) \<and>
     distinct (map ob_event_id (outbox d)) \<and> distinct (map q_event_id (dlq d)) \<and>
     (\<forall>e \<in> set (events d). u (ev_id e) = Some (ev_id e)) \<and>
     (\<forall>r \<in> set (outbox d). u (ob_id r) = Some (ob_id r)) \<and>
     (\<forall>e \<in> set (events d). \<forall>e' \<in> set (events d).
        ev_source e = ev_source e' \<and> ev_idempotency_key e = ev_idempotency_key e' \<and>
        ev_idempotency_key e \<noteq> None \<longrightarrow> e = e')"

definition refs_ok :: "db \<Rightarrow> bool" where
  "refs_ok d \<longleftrightarrow>
     ob_event_id ` set (outbox d) \<subseteq> event_ids d \<and> h_event_id ` set (history d) \<subseteq> event_ids d \<and>
     a_event_id ` set (attempts d) \<subseteq> event_ids d \<and> q_event_id ` set (dlq d) \<subseteq> event_ids d"

definition checks_ok :: "db \<Rightarrow> bool" where
  "checks_ok d \<longleftrightarrow>
     (\<forall>r \<in> set (outbox d). 0 \<le> ob_attempt_count r) \<and>
     (\<forall>h \<in> set (history d). btrim (h_status h) \<noteq> []) \<and>
     (\<forall>a \<in> set (attempts d). 0 < a_attempt_number a \<and> btrim (a_outcome a) \<noteq> []) \<and>
     (\<forall>q \<in> set (dlq d). 0 < q_attempt_count q \<and> btrim (q_status q) \<noteq> [])"

definition sequences_ok :: "db \<Rightarrow> bool" where
  "sequences_ok d \<longleftrightarrow>
     distinct (map h_id (history d)) \<and> (\<forall>h \<in> set (history d). h_id h < history_seq d) \<and>
     distinct (map a_id (attempts d)) \<and> (\<forall>a \<in> set (attempts d). a_id a < attempts_seq d)"

definition schema_ok :: "(bytes \<Rightarrow> bytes option) \<Rightarrow> db \<Rightarrow> bool" where
  "schema_ok u d \<longleftrightarrow> keys_ok u d \<and> refs_ok d \<and> checks_ok d \<and> sequences_ok d"

lemmas schema_defs = schema_ok_def keys_ok_def refs_ok_def checks_ok_def sequences_ok_def

text \<open>The event \<open>u\<close> has the status \<open>st\<close> in its history, an attempt with the outcome
  \<open>oc\<close>.\<close>

definition logged :: "db \<Rightarrow> bytes \<Rightarrow> bytes \<Rightarrow> bool" where
  "logged d u st \<longleftrightarrow> list_ex (\<lambda>h. h_event_id h = u \<and> h_status h = st) (history d)"

definition attempted :: "db \<Rightarrow> bytes \<Rightarrow> bytes \<Rightarrow> bool" where
  "attempted d u oc \<longleftrightarrow> list_ex (\<lambda>a. a_event_id a = u \<and> a_outcome a = oc) (attempts d)"

section \<open>Lemmas\<close>

lemma guard_Inr [simp]: "guard p st r = Inr x \<longleftrightarrow> pg_fault p st = None \<and> r = Inr x"
  by (auto simp: guard_def split: option.splits)

lemma commit_cases: "commit p d0 d1 = (r, d) \<Longrightarrow> d = d0 \<or> d = d1"
  by (auto simp: commit_def split: option.splits if_splits)

lemma commit_ok: "commit p d0 d1 = (None, d) \<Longrightarrow> d = d1"
  by (auto simp: commit_def split: option.splits)

lemma cast_uuid_Inr [simp]: "cast_uuid p t = Inr u \<longleftrightarrow> pg_uuid p t = Some u"
  by (auto simp: cast_uuid_def split: option.splits)

lemma has_event_iff: "has_event d e \<longleftrightarrow> e \<in> ev_id ` set (events d)"
  by (auto simp: has_event_def list_ex_iff)

lemma find_event_Some: "find_event d e = Some r \<Longrightarrow> r \<in> set (events d) \<and> ev_id r = e"
  by (auto simp: find_event_def find_Some_iff)

lemma find_event_None: "find_event d e = None \<longleftrightarrow> \<not> has_event d e"
  by (auto simp: find_event_def find_None_iff has_event_def list_ex_iff)

lemma event_ids_has: "has_event d e \<longleftrightarrow> e \<in> event_ids d"
  by (simp add: has_event_iff event_ids_def)

lemma logged_iff: "logged d u st \<longleftrightarrow> (\<exists>h \<in> set (history d). h_event_id h = u \<and> h_status h = st)"
  by (simp add: logged_def list_ex_iff)

lemma attempted_iff:
  "attempted d u oc \<longleftrightarrow> (\<exists>a \<in> set (attempts d). a_event_id a = u \<and> a_outcome a = oc)"
  by (simp add: attempted_def list_ex_iff)

lemma schema_empty: "schema_ok u empty_db"
  by (simp add: schema_defs empty_db_def)

lemma find_event_eq:
  assumes "schema_ok u d" "r \<in> set (events d)"
  shows "find_event d (ev_id r) = Some r"
proof -
  have "find_event d (ev_id r) \<noteq> None" using assms(2) by (auto simp: find_event_None has_event_iff)
  then obtain x where x: "find_event d (ev_id r) = Some x" by auto
  then have "x \<in> set (events d)" "ev_id x = ev_id r" by (auto dest: find_event_Some)
  moreover have "distinct (map ev_id (events d))" using assms(1) by (simp add: schema_defs)
  ultimately show ?thesis using assms(2) x by (simp add: distinct_map inj_on_def)
qed

lemma cast_known:
  assumes "schema_ok u d" "pg_uuid p = u" "has_event d e"
  shows "pg_uuid p e = Some e"
  using assms by (auto simp: schema_defs has_event_iff)

lemma logged_known: "schema_ok u d \<Longrightarrow> logged d x st \<Longrightarrow> x \<in> event_ids d"
  by (auto simp: logged_iff schema_ok_def refs_ok_def)

lemma attempted_known: "schema_ok u d \<Longrightarrow> attempted d x oc \<Longrightarrow> x \<in> event_ids d"
  by (auto simp: attempted_iff schema_ok_def refs_ok_def)

lemma quiet_server: "server Some (quiet_pg e o' t)" "no_faults (quiet_pg e o' t)"
  by (simp_all add: server_def uuid_laws_def quiet_pg_def no_faults_def)

end
