(* ===== verification/Operations_Store.thy ===== *)
theory Operations_Store
  imports Database
begin

text \<open>
  The operations store of \<open>internal/operations/store.go\<close>: the status history, the delivery
  attempts and the dead-letter records of an event, written by the delivery worker and read by
  the HTTP handlers, and the redrive of a dead-letter record.

  A \<open>*Store\<close> is \<open>None\<close> when it is nil and \<open>Some b\<close> with \<open>b\<close> telling whether it has a
  pool. A write returns its error, if any, and the tables; a read returns an error or its
  result.
\<close>

section \<open>Data\<close>

definition StatusStored :: bytes where "StatusStored = ''STORED''"
definition StatusPendingPublication :: bytes where
  "StatusPendingPublication = ''PENDING_PUBLICATION''"
definition StatusPublished :: bytes where "StatusPublished = ''PUBLISHED''"
definition StatusProcessing :: bytes where "StatusProcessing = ''PROCESSING''"
definition StatusRetrying :: bytes where "StatusRetrying = ''RETRYING''"
definition StatusDelivered :: bytes where "StatusDelivered = ''DELIVERED''"
definition StatusDeadLettered :: bytes where "StatusDeadLettered = ''DEAD_LETTERED''"
definition StatusRedriven :: bytes where "StatusRedriven = ''REDRIVEN''"

definition DeliveryOutcomeSucceeded :: bytes where "DeliveryOutcomeSucceeded = ''SUCCESS''"
definition DeliveryOutcomeFailed :: bytes where "DeliveryOutcomeFailed = ''FAILED''"

definition DLQStatusOpen :: bytes where "DLQStatusOpen = ''OPEN''"
definition DLQStatusRedriven :: bytes where "DLQStatusRedriven = ''REDRIVEN''"

lemmas status_consts =
  StatusStored_def StatusPendingPublication_def StatusPublished_def StatusProcessing_def
  StatusRetrying_def StatusDelivered_def StatusDeadLettered_def StatusRedriven_def

lemmas dlq_consts = DLQStatusOpen_def DLQStatusRedriven_def

type_synonym Store = "bool option"

record EventMetadata =
  em_EventID :: bytes
  em_EventType :: bytes
  em_Source :: bytes
  em_Payload :: bytes
  em_CreatedAt :: time

record StatusHistoryEntry =
  sh_Status :: bytes
  sh_Details :: bytes
  sh_CreatedAt :: time

record DeliveryAttempt =
  da_AttemptNumber :: int
  da_Outcome :: bytes
  da_ResponseCode :: "int option"
  da_Error :: "bytes option"
  da_StartedAt :: time
  da_CompletedAt :: time

record EventStatus =
  es_Event :: EventMetadata
  es_CurrentStatus :: bytes
  es_History :: "StatusHistoryEntry list"
  es_DeliveryAttempts :: "DeliveryAttempt list"

record DLQRecord =
  dr_EventID :: bytes
  dr_EventType :: bytes
  dr_Source :: bytes
  dr_AttemptCount :: int
  dr_LastError :: "bytes option"
  dr_Status :: bytes
  dr_DeadLetteredAt :: time
  dr_RedrivenAt :: "time option"
  dr_OriginalStreamID :: bytes

record DLQDetail =
  dd_Event :: EventMetadata
  dd_Record :: DLQRecord
  dd_History :: "StatusHistoryEntry list"
  dd_DeliveryAttempts :: "DeliveryAttempt list"

record MetricsSummary =
  ms_TotalEvents :: int
  ms_PendingPublication :: int
  ms_Delivered :: int
  ms_Retrying :: int
  ms_OpenDLQ :: int
  ms_Redriven :: int

record RedriveResult =
  rr_EventID :: bytes
  rr_Status :: bytes
  rr_StreamID :: bytes

record ProcessingRecord =
  pr_EventID :: bytes
  pr_StreamID :: bytes
  pr_Retry :: int

record DeliveryAttemptRecord =
  ar_EventID :: bytes
  ar_StreamID :: bytes
  ar_AttemptNumber :: int
  ar_ResponseCode :: "int option"
  ar_Error :: "error option"
  ar_StartedAt :: time
  ar_CompletedAt :: time

record RetryingRecord = DeliveryAttemptRecord +
  rt_NextRetry :: int
  rt_ScheduledAt :: time

record DeadLetterRecord = DeliveryAttemptRecord +
  dl_OriginalStreamID :: bytes

type_synonym fields = "(bytes \<times> json) list"

definition str_fields :: "(bytes \<times> bytes) list \<Rightarrow> fields" where
  "str_fields kvs = go_map (map (\<lambda>(k, v). (k, JStr v)) kvs)"

text \<open>The two-value type assertion \<open>values[k].(string)\<close>.\<close>

definition field_string :: "fields \<Rightarrow> bytes \<Rightarrow> bytes option" where
  "field_string vs k = (case map_of vs k of Some (JStr t) \<Rightarrow> Some t | _ \<Rightarrow> None)"

definition JInt :: "int \<Rightarrow> json" where "JInt i = JNum (Itoa i)"

section \<open>Helpers\<close>

definition poolMissing :: "Store \<Rightarrow> bool" where
  "poolMissing s \<longleftrightarrow> s = None \<or> s = Some False"

definition errPool :: error where "errPool = ErrNew ''operations store pool is required''"

definition marshalDetails :: "fields option \<Rightarrow> bytes" where
  "marshalDetails details =
     marshal (JObj (go_map (case details of None \<Rightarrow> [] | Some kvs \<Rightarrow> kvs)))"

definition errorString :: "error option \<Rightarrow> bytes option" where
  "errorString err =
     (case err of
        None \<Rightarrow> None
      | Some e \<Rightarrow> let message = TrimSpace (error_text e) in if message = [] then None else Some message)"

section \<open>Statements that write\<close>

definition insert_history :: "pg \<Rightarrow> bytes \<Rightarrow> bytes \<Rightarrow> bytes \<Rightarrow> db \<Rightarrow> error + db" where
  "insert_history p eventID status details d =
     guard p (InsertHistory status)
       (case cast_uuid p eventID of
          Inl e \<Rightarrow> Inl e
        | Inr u \<Rightarrow>
            if \<not> has_event d u then Inl foreign_key_violation
            else if btrim status = [] then Inl check_violation
            else Inr (d\<lparr>history := history d @
                        [\<lparr>h_id = history_seq d, h_event_id = u, h_status = status,
                          h_details = pg_jsonb p details, h_created_at = pg_now p\<rparr>],
                        history_seq := history_seq d + 1\<rparr>))"

definition InsertStatusHistory ::
    "pg \<Rightarrow> bytes \<Rightarrow> bytes \<Rightarrow> fields option \<Rightarrow> db \<Rightarrow> error + db" where
  "InsertStatusHistory p eventID status details d =
     (case insert_history p eventID status (marshalDetails details) d of
        Inl e \<Rightarrow> Inl (ErrWrap (''insert status '' @ status @ '' for event '' @ eventID @ '': '') e [])
      | Inr d1 \<Rightarrow> Inr d1)"

text \<open>A nullable \<open>INTEGER\<close> column.\<close>

definition int32_or_null :: "int option \<Rightarrow> bool" where
  "int32_or_null x = (case x of None \<Rightarrow> True | Some c \<Rightarrow> is_int32 c)"

definition insertDeliveryAttempt ::
    "pg \<Rightarrow> 'x DeliveryAttemptRecord_scheme \<Rightarrow> bytes \<Rightarrow> db \<Rightarrow> error + db" where
  "insertDeliveryAttempt p r outcome d =
     (case guard p InsertAttempt
        (case cast_uuid p (ar_EventID r) of
           Inl e \<Rightarrow> Inl e
         | Inr u \<Rightarrow>
             if \<not> is_int32 (ar_AttemptNumber r) \<or> \<not> int32_or_null (ar_ResponseCode r)
             then Inl out_of_range
             else if \<not> has_event d u then Inl foreign_key_violation
             else if ar_AttemptNumber r \<le> 0 \<or> btrim outcome = [] then Inl check_violation
             else Inr (d\<lparr>attempts := attempts d @
                         [\<lparr>a_id = attempts_seq d, a_event_id = u,
                           a_attempt_number = ar_AttemptNumber r, a_outcome = outcome,
                           a_response_code = ar_ResponseCode r,
                           a_error = errorString (ar_Error r),
                           a_started_at = to_pg (ar_StartedAt r),
                           a_completed_at = to_pg (ar_CompletedAt r)\<rparr>],
                         attempts_seq := attempts_seq d + 1\<rparr>)) of
        Inl e \<Rightarrow> Inl (ErrWrap (''insert delivery attempt for event '' @ ar_EventID r @ '': '') e [])
      | Inr d1 \<Rightarrow> Inr d1)"

fun put_dlq :: "dlq_row \<Rightarrow> dlq_row list \<Rightarrow> dlq_row list" where
  "put_dlq q [] = [q]"
| "put_dlq q (r # rs) = (if q_event_id r = q_event_id q then q # rs else r # put_dlq q rs)"

definition upsertDLQ ::
    "pg \<Rightarrow> 'x DeliveryAttemptRecord_scheme \<Rightarrow> bytes \<Rightarrow> db \<Rightarrow> error + db" where
  "upsertDLQ p r originalStreamID d =
     (case guard p UpsertDLQ
        (case cast_uuid p (ar_EventID r) of
           Inl e \<Rightarrow> Inl e
         | Inr u \<Rightarrow>
             if \<not> is_int32 (ar_AttemptNumber r) then Inl out_of_range
             else if \<not> has_event d u then Inl foreign_key_violation
             else if ar_AttemptNumber r \<le> 0 then Inl check_violation
             else Inr (d\<lparr>dlq := put_dlq
                 \<lparr>q_event_id = u, q_original_stream_id = originalStreamID,
                  q_attempt_count = ar_AttemptNumber r,
                  q_last_error = errorString (ar_Error r), q_status = DLQStatusOpen,
                  q_dead_lettered_at = pg_now p, q_redriven_at = None,
                  q_updated_at = pg_now p\<rparr> (dlq d)\<rparr>)) of
        Inl e \<Rightarrow> Inl (ErrWrap (''upsert DLQ record for event '' @ ar_EventID r @ '': '') e [])
      | Inr d1 \<Rightarrow> Inr d1)"

definition inTransaction :: "pg \<Rightarrow> (db \<Rightarrow> error + db) \<Rightarrow> db \<Rightarrow> error option \<times> db" where
  "inTransaction p fn d =
     (case pg_fault p Begin of
        Some e \<Rightarrow> (Some (ErrWrap ''begin operations transaction: '' e []), d)
      | None \<Rightarrow>
          (case fn d of
             Inl e \<Rightarrow> (Some e, d)
           | Inr d1 \<Rightarrow>
               (case commit p d d1 of
                  (None, d2) \<Rightarrow> (None, d2)
                | (Some e, d2) \<Rightarrow> (Some (ErrWrap ''commit operations transaction: '' e []), d2))))"

section \<open>The recorder\<close>

definition RecordProcessing :: "pg \<Rightarrow> Store \<Rightarrow> ProcessingRecord \<Rightarrow> db \<Rightarrow> error option \<times> db" where
  "RecordProcessing p s r d =
     (if poolMissing s then (Some errPool, d)
      else inTransaction p
        (InsertStatusHistory p (pr_EventID r) StatusProcessing
           (Some [(''stream_id'', JStr (pr_StreamID r)), (''retry'', JInt (pr_Retry r))])) d)"

text \<open>The closures that the other three methods run in a transaction.\<close>

definition deliveredBody :: "DeliveryAttemptRecord \<Rightarrow> pg \<Rightarrow> db \<Rightarrow> error + db" where
  "deliveredBody r p d =
     (case insertDeliveryAttempt p r DeliveryOutcomeSucceeded d of
        Inl e \<Rightarrow> Inl e
      | Inr d1 \<Rightarrow>
          InsertStatusHistory p (ar_EventID r) StatusDelivered
            (Some [(''stream_id'', JStr (ar_StreamID r)),
                   (''retry'', JInt (wrap64 (ar_AttemptNumber r - 1)))]) d1)"

definition RecordDelivered ::
    "pg \<Rightarrow> Store \<Rightarrow> DeliveryAttemptRecord \<Rightarrow> db \<Rightarrow> error option \<times> db" where
  "RecordDelivered p s r d =
     (if poolMissing s then (Some errPool, d) else inTransaction p (deliveredBody r p) d)"

definition retryingBody :: "RetryingRecord \<Rightarrow> pg \<Rightarrow> db \<Rightarrow> error + db" where
  "retryingBody r p d =
     (case insertDeliveryAttempt p r DeliveryOutcomeFailed d of
        Inl e \<Rightarrow> Inl e
      | Inr d1 \<Rightarrow>
          InsertStatusHistory p (ar_EventID r) StatusRetrying
            (Some [(''stream_id'', JStr (ar_StreamID r)),
                   (''retry'', JInt (wrap64 (ar_AttemptNumber r - 1))),
                   (''next_retry'', JInt (rt_NextRetry r)),
                   (''scheduled_at'', JStr (RFC3339Nano (rt_ScheduledAt r)))]) d1)"

definition RecordRetrying :: "pg \<Rightarrow> Store \<Rightarrow> RetryingRecord \<Rightarrow> db \<Rightarrow> error option \<times> db" where
  "RecordRetrying p s r d =
     (if poolMissing s then (Some errPool, d) else inTransaction p (retryingBody r p) d)"

definition deadLetteredBody :: "DeadLetterRecord \<Rightarrow> bytes \<Rightarrow> pg \<Rightarrow> db \<Rightarrow> error + db" where
  "deadLetteredBody r originalStreamID p d =
     (case insertDeliveryAttempt p r DeliveryOutcomeFailed d of
        Inl e \<Rightarrow> Inl e
      | Inr d1 \<Rightarrow>
          (case upsertDLQ p r originalStreamID d1 of
             Inl e \<Rightarrow> Inl e
           | Inr d2 \<Rightarrow>
               InsertStatusHistory p (ar_EventID r) StatusDeadLettered
                 (Some [(''stream_id'', JStr (ar_StreamID r)),
                        (''retry'', JInt (wrap64 (ar_AttemptNumber r - 1)))]) d2))"

definition RecordDeadLettered :: "pg \<Rightarrow> Store \<Rightarrow> DeadLetterRecord \<Rightarrow> db \<Rightarrow> error option \<times> db" where
  "RecordDeadLettered p s r d =
     (if poolMissing s then (Some errPool, d)
      else
        let trimmed = TrimSpace (dl_OriginalStreamID r);
            originalStreamID = (if trimmed = [] then ar_StreamID r else trimmed)
        in inTransaction p (deadLetteredBody r originalStreamID p) d)"

section \<open>Reads\<close>

text \<open>A query that returns rows can fail when it is sent and when its rows are read; the columns
  have the types of the variables they are scanned into.\<close>

definition event_metadata :: "event_row \<Rightarrow> EventMetadata" where
  "event_metadata r = \<lparr>em_EventID = ev_id r, em_EventType = ev_event_type r,
     em_Source = ev_source r, em_Payload = ev_payload r, em_CreatedAt = of_pg (ev_created_at r)\<rparr>"

definition fetchEvent :: "pg \<Rightarrow> bytes \<Rightarrow> db \<Rightarrow> error + EventMetadata" where
  "fetchEvent p eventID d =
     (case guard p FetchEvent
        (case cast_uuid p eventID of
           Inl e \<Rightarrow> Inl e
         | Inr u \<Rightarrow> (case find_event d u of None \<Rightarrow> Inl ErrNoRows | Some r \<Rightarrow> Inr r)) of
        Inl e \<Rightarrow>
          if errors_is e ErrNoRows then Inl ErrEventNotFound
          else Inl (ErrWrap (''fetch event '' @ eventID @ '': '') e [])
      | Inr r \<Rightarrow> Inr (event_metadata r))"

definition history_of :: "db \<Rightarrow> bytes \<Rightarrow> history_row list" where
  "history_of d u =
     sort_key (\<lambda>h. (h_created_at h, h_id h)) (filter (\<lambda>h. h_event_id h = u) (history d))"

definition fetchStatusHistory :: "pg \<Rightarrow> bytes \<Rightarrow> db \<Rightarrow> error + StatusHistoryEntry list" where
  "fetchStatusHistory p eventID d =
     (case guard p FetchHistory (cast_uuid p eventID) of
        Inl e \<Rightarrow> Inl (ErrWrap (''fetch status history for event '' @ eventID @ '': '') e [])
      | Inr u \<Rightarrow>
      case pg_fault p ReadHistory of
        Some e \<Rightarrow> Inl (ErrWrap (''read status history for event '' @ eventID @ '': '') e [])
      | None \<Rightarrow>
          Inr (map (\<lambda>h. \<lparr>sh_Status = h_status h, sh_Details = h_details h,
                        sh_CreatedAt = of_pg (h_created_at h)\<rparr>) (history_of d u)))"

definition attempts_of :: "db \<Rightarrow> bytes \<Rightarrow> attempt_row list" where
  "attempts_of d u =
     sort_key (\<lambda>a. (a_started_at a, a_id a)) (filter (\<lambda>a. a_event_id a = u) (attempts d))"

definition fetchDeliveryAttempts :: "pg \<Rightarrow> bytes \<Rightarrow> db \<Rightarrow> error + DeliveryAttempt list" where
  "fetchDeliveryAttempts p eventID d =
     (case guard p FetchAttempts (cast_uuid p eventID) of
        Inl e \<Rightarrow> Inl (ErrWrap (''fetch delivery attempts for event '' @ eventID @ '': '') e [])
      | Inr u \<Rightarrow>
      case pg_fault p ReadAttempts of
        Some e \<Rightarrow> Inl (ErrWrap (''read delivery attempts for event '' @ eventID @ '': '') e [])
      | None \<Rightarrow>
          Inr (map (\<lambda>a. \<lparr>da_AttemptNumber = a_attempt_number a, da_Outcome = a_outcome a,
                        da_ResponseCode = a_response_code a, da_Error = a_error a,
                        da_StartedAt = of_pg (a_started_at a),
                        da_CompletedAt = of_pg (a_completed_at a)\<rparr>) (attempts_of d u)))"

definition EventStatus_of :: "pg \<Rightarrow> Store \<Rightarrow> bytes \<Rightarrow> db \<Rightarrow> error + EventStatus" where
  "EventStatus_of p s eventID d =
     (if poolMissing s then Inl errPool
      else
        case fetchEvent p eventID d of Inl e \<Rightarrow> Inl e | Inr event \<Rightarrow>
        case fetchStatusHistory p eventID d of Inl e \<Rightarrow> Inl e | Inr hist \<Rightarrow>
        case fetchDeliveryAttempts p eventID d of Inl e \<Rightarrow> Inl e | Inr atts \<Rightarrow>
        Inr \<lparr>es_Event = event,
             es_CurrentStatus = (if hist \<noteq> [] then sh_Status (last hist) else []),
             es_History = hist, es_DeliveryAttempts = atts\<rparr>)"

definition scanDLQRecord :: "dlq_row \<times> event_row \<Rightarrow> DLQRecord" where
  "scanDLQRecord qe =
     (case qe of (q, e) \<Rightarrow>
        \<lparr>dr_EventID = q_event_id q, dr_EventType = ev_event_type e, dr_Source = ev_source e,
         dr_AttemptCount = q_attempt_count q, dr_LastError = q_last_error q,
         dr_Status = q_status q, dr_DeadLetteredAt = of_pg (q_dead_lettered_at q),
         dr_RedrivenAt = map_option of_pg (q_redriven_at q),
         dr_OriginalStreamID = q_original_stream_id q\<rparr>)"

text \<open>\<open>dlq_records d JOIN events e ON e.id = d.event_id\<close>.\<close>

definition join_dlq :: "db \<Rightarrow> (dlq_row \<times> event_row) list" where
  "join_dlq d =
     [(q, e). q \<leftarrow> dlq d, e \<leftarrow> events d, ev_id e = q_event_id q]"

definition ListDLQ :: "pg \<Rightarrow> Store \<Rightarrow> bytes \<Rightarrow> int \<Rightarrow> db \<Rightarrow> error + DLQRecord list" where
  "ListDLQ p s status limit d =
     (if poolMissing s then Inl errPool
      else if status \<noteq> DLQStatusOpen \<and> status \<noteq> DLQStatusRedriven
      then Inl (ErrNew (''unsupported DLQ status '' @ Quote status))
      else if limit < 1 \<or> 200 < limit then Inl (ErrNew ''DLQ limit must be between 1 and 200'')
      else
        case pg_fault p SelectDLQ of
          Some e \<Rightarrow> Inl (ErrWrap ''list DLQ records: '' e [])
        | None \<Rightarrow>
        case pg_fault p ReadDLQ of
          Some e \<Rightarrow> Inl (ErrWrap ''read DLQ records: '' e [])
        | None \<Rightarrow>
            Inr (map scanDLQRecord
                  (take (nat limit)
                    (rev (sort_key (\<lambda>(q, e). (q_dead_lettered_at q, q_event_id q))
                      (filter (\<lambda>(q, e). q_status q = status) (join_dlq d)))))))"

definition DLQDetail_of :: "pg \<Rightarrow> Store \<Rightarrow> bytes \<Rightarrow> db \<Rightarrow> error + DLQDetail" where
  "DLQDetail_of p s eventID d =
     (if poolMissing s then Inl errPool
      else
        case guard p SelectDLQ
          (case cast_uuid p eventID of
             Inl e \<Rightarrow> Inl e
           | Inr u \<Rightarrow>
               (case find (\<lambda>(q, e). q_event_id q = u) (join_dlq d) of
                  None \<Rightarrow> Inl ErrNoRows
                | Some qe \<Rightarrow> Inr (scanDLQRecord qe))) of
          Inl e \<Rightarrow> if errors_is e ErrNoRows then Inl ErrDLQNotFound else Inl e
        | Inr rec \<Rightarrow>
        case fetchEvent p eventID d of Inl e \<Rightarrow> Inl e | Inr event \<Rightarrow>
        case fetchStatusHistory p eventID d of Inl e \<Rightarrow> Inl e | Inr hist \<Rightarrow>
        case fetchDeliveryAttempts p eventID d of Inl e \<Rightarrow> Inl e | Inr atts \<Rightarrow>
        Inr \<lparr>dd_Event = event, dd_Record = rec, dd_History = hist,
             dd_DeliveryAttempts = atts\<rparr>)"

text \<open>
  The common table expression \<open>latest\<close>: one row per event with a status history, the one that
  is first by \<open>created_at DESC, id DESC\<close>.
\<close>

definition latest_statuses :: "db \<Rightarrow> bytes list" where
  "latest_statuses d =
     map (\<lambda>u. h_status (last (history_of d u))) (remdups (map h_event_id (history d)))"

definition count :: "('a \<Rightarrow> bool) \<Rightarrow> 'a list \<Rightarrow> int" where
  "count P xs = int (length (filter P xs))"

definition MetricsSummary_of :: "pg \<Rightarrow> Store \<Rightarrow> db \<Rightarrow> error + MetricsSummary" where
  "MetricsSummary_of p s d =
     (if poolMissing s then Inl errPool
      else
        case pg_fault p SelectMetrics of
          Some e \<Rightarrow> Inl (ErrWrap ''read metrics summary: '' e [])
        | None \<Rightarrow>
            Inr \<lparr>ms_TotalEvents = count (\<lambda>_. True) (events d),
                 ms_PendingPublication = count (\<lambda>o'. ob_status o' = ''pending'') (outbox d),
                 ms_Delivered = count (\<lambda>st. st = StatusDelivered) (latest_statuses d),
                 ms_Retrying = count (\<lambda>st. st = StatusRetrying) (latest_statuses d),
                 ms_OpenDLQ = count (\<lambda>q. q_status q = DLQStatusOpen) (dlq d),
                 ms_Redriven = count (\<lambda>q. q_status q = DLQStatusRedriven) (dlq d)\<rparr>)"

section \<open>Redrive\<close>

text \<open>
  The publisher sends the message to the stream and is outside the transaction: it acts on
  the state \<open>'w\<close> of the broker and returns the stream identifier or an error.
\<close>

type_synonym 'w RedrivePublisher = "fields \<Rightarrow> 'w \<Rightarrow> (error + bytes) \<times> 'w"

definition redriveValues :: "EventMetadata \<Rightarrow> fields" where
  "redriveValues event = str_fields
     [(''event_id'', em_EventID event), (''event_type'', em_EventType event),
      (''source'', em_Source event), (''payload'', em_Payload event), (''retry'', ''0''),
      (''created_at'', RFC3339 (em_CreatedAt event)), (''redrive'', ''1'')]"

definition lockDLQ :: "pg \<Rightarrow> bytes \<Rightarrow> db \<Rightarrow> error + bytes" where
  "lockDLQ p eventID d =
     (case guard p LockDLQ
        (case cast_uuid p eventID of
           Inl e \<Rightarrow> Inl e
         | Inr u \<Rightarrow>
             (case find (\<lambda>q. q_event_id q = u) (dlq d) of
                None \<Rightarrow> Inl ErrNoRows
              | Some q \<Rightarrow> Inr (q_status q))) of
        Inl e \<Rightarrow>
          if errors_is e ErrNoRows then Inl ErrDLQNotFound
          else Inl (ErrWrap (''lock DLQ record for event '' @ eventID @ '': '') e [])
      | Inr st \<Rightarrow> Inr st)"

definition markRedriven :: "pg \<Rightarrow> bytes \<Rightarrow> db \<Rightarrow> error + db" where
  "markRedriven p eventID d =
     (case guard p MarkRedriven (cast_uuid p eventID) of
        Inl e \<Rightarrow> Inl (ErrWrap (''mark DLQ record redriven for event '' @ eventID @ '': '') e [])
      | Inr u \<Rightarrow>
          let n = length (filter (\<lambda>q. q_event_id q = u) (dlq d)) in
          if n \<noteq> 1 then
            Inl (ErrNew (''mark DLQ record redriven for event '' @ eventID @ '' affected '' @
                         Itoa (int n) @ '' rows''))
          else
            Inr (d\<lparr>dlq := map (\<lambda>q. if q_event_id q = u
                   then q\<lparr>q_status := DLQStatusRedriven, q_redriven_at := Some (pg_now p),
                          q_updated_at := pg_now p\<rparr>
                   else q) (dlq d)\<rparr>))"

definition RedriveDLQ ::
    "pg \<Rightarrow> Store \<Rightarrow> bytes \<Rightarrow> 'w RedrivePublisher option \<Rightarrow> db \<Rightarrow> 'w \<Rightarrow>
     (error + RedriveResult) \<times> db \<times> 'w" where
  "RedriveDLQ p s eventID publish d w =
     (if poolMissing s then (Inl errPool, d, w)
      else
        case publish of
          None \<Rightarrow> (Inl (ErrNew ''redrive publisher is required''), d, w)
        | Some pub \<Rightarrow>
        case pg_fault p Begin of
          Some e \<Rightarrow> (Inl (ErrWrap ''begin redrive transaction: '' e []), d, w)
        | None \<Rightarrow>
        case lockDLQ p eventID d of Inl e \<Rightarrow> (Inl e, d, w) | Inr dlqStatus \<Rightarrow>
        if dlqStatus \<noteq> DLQStatusOpen then (Inl ErrDLQNotOpen, d, w)
        else
        case fetchEvent p eventID d of Inl e \<Rightarrow> (Inl e, d, w) | Inr event \<Rightarrow>
        case pub (redriveValues event) w of
          (Inl e, w1) \<Rightarrow> (Inl (ErrWrap (''publish redrive event '' @ eventID @ '': '') e []), d, w1)
        | (Inr streamID, w1) \<Rightarrow>
        case markRedriven p eventID d of Inl e \<Rightarrow> (Inl e, d, w1) | Inr d1 \<Rightarrow>
        case InsertStatusHistory p eventID StatusRedriven
               (Some [(''stream_id'', JStr streamID)]) d1 of
          Inl e \<Rightarrow> (Inl e, d, w1)
        | Inr d2 \<Rightarrow>
        case commit p d d2 of
          (Some e, d3) \<Rightarrow> (Inl (ErrWrap (''commit redrive event '' @ eventID @ '': '') e []), d3, w1)
        | (None, d3) \<Rightarrow>
            (Inr \<lparr>rr_EventID = eventID, rr_Status = DLQStatusRedriven, rr_StreamID = streamID\<rparr>,
             d3, w1))"

section \<open>What the statements do\<close>

definition new_history :: "pg \<Rightarrow> db \<Rightarrow> bytes \<Rightarrow> bytes \<Rightarrow> fields option \<Rightarrow> history_row" where
  "new_history p d u st details =
     \<lparr>h_id = history_seq d, h_event_id = u, h_status = st,
      h_details = pg_jsonb p (marshalDetails details), h_created_at = pg_now p\<rparr>"

definition add_history :: "history_row \<Rightarrow> db \<Rightarrow> db" where
  "add_history h d = d\<lparr>history := history d @ [h], history_seq := history_seq d + 1\<rparr>"

lemma InsertStatusHistory_Inr:
  "InsertStatusHistory p e st details d = Inr d' \<longleftrightarrow>
     (\<exists>u. pg_fault p (InsertHistory st) = None \<and> pg_uuid p e = Some u \<and> has_event d u \<and>
        btrim st \<noteq> [] \<and> d' = add_history (new_history p d u st details) d)"
  by (auto simp: InsertStatusHistory_def insert_history_def add_history_def new_history_def
      cast_uuid_def guard_def split: sum.splits option.splits if_splits)

definition add_attempt :: "pg \<Rightarrow> 'x DeliveryAttemptRecord_scheme \<Rightarrow> bytes \<Rightarrow> bytes \<Rightarrow> db \<Rightarrow> db" where
  "add_attempt p r u outcome d = d\<lparr>attempts := attempts d @
      [\<lparr>a_id = attempts_seq d, a_event_id = u,
        a_attempt_number = ar_AttemptNumber r, a_outcome = outcome,
        a_response_code = ar_ResponseCode r,
        a_error = errorString (ar_Error r),
        a_started_at = to_pg (ar_StartedAt r),
        a_completed_at = to_pg (ar_CompletedAt r)\<rparr>],
      attempts_seq := attempts_seq d + 1\<rparr>"

lemma insertDeliveryAttempt_Inr:
  "insertDeliveryAttempt p r oc d = Inr d' \<longleftrightarrow>
     (\<exists>u. pg_fault p InsertAttempt = None \<and> pg_uuid p (ar_EventID r) = Some u \<and> has_event d u \<and>
        is_int32 (ar_AttemptNumber r) \<and> int32_or_null (ar_ResponseCode r) \<and>
        0 < ar_AttemptNumber r \<and> btrim oc \<noteq> [] \<and> d' = add_attempt p r u oc d)"
  by (auto simp: insertDeliveryAttempt_def add_attempt_def
      cast_uuid_def guard_def split: sum.splits option.splits if_splits)

definition open_dlq :: "pg \<Rightarrow> 'x DeliveryAttemptRecord_scheme \<Rightarrow> bytes \<Rightarrow> bytes \<Rightarrow> dlq_row" where
  "open_dlq p r u originalStreamID =
     \<lparr>q_event_id = u, q_original_stream_id = originalStreamID,
      q_attempt_count = ar_AttemptNumber r,
      q_last_error = errorString (ar_Error r), q_status = DLQStatusOpen,
      q_dead_lettered_at = pg_now p, q_redriven_at = None, q_updated_at = pg_now p\<rparr>"

lemma upsertDLQ_Inr:
  "upsertDLQ p r os d = Inr d' \<longleftrightarrow>
     (\<exists>u. pg_fault p UpsertDLQ = None \<and> pg_uuid p (ar_EventID r) = Some u \<and> has_event d u \<and>
        is_int32 (ar_AttemptNumber r) \<and> 0 < ar_AttemptNumber r \<and>
        d' = d\<lparr>dlq := put_dlq (open_dlq p r u os) (dlq d)\<rparr>)"
  by (auto simp: upsertDLQ_def open_dlq_def
      cast_uuid_def guard_def split: sum.splits option.splits if_splits)

lemma set_put_dlq:
  "distinct (map q_event_id qs) \<Longrightarrow>
   set (put_dlq q qs) = insert q {r \<in> set qs. q_event_id r \<noteq> q_event_id q}"
  by (induction qs) (auto simp: image_iff)

lemma ids_put_dlq: "q_event_id ` set (put_dlq q qs) = insert (q_event_id q) (q_event_id ` set qs)"
  by (induction qs) auto

lemma distinct_put_dlq:
  "distinct (map q_event_id qs) \<Longrightarrow> distinct (map q_event_id (put_dlq q qs))"
proof (induction qs)
  case (Cons r qs)
  then show ?case using ids_put_dlq [of q qs] by auto
qed simp

lemma inTransaction_cases:
  "inTransaction p fn d = (e, d') \<Longrightarrow> d' = d \<or> fn d = Inr d'"
  by (auto simp: inTransaction_def commit_def split: option.splits sum.splits if_splits)

lemma inTransaction_ok:
  "inTransaction p fn d = (None, d') \<Longrightarrow> fn d = Inr d'"
  by (auto simp: inTransaction_def commit_def split: option.splits sum.splits if_splits)

lemma inTransaction_Inr:
  "inTransaction p fn d = (None, d') \<longleftrightarrow> pg_fault p Begin = None \<and> pg_fault p Commit = None \<and> fn d = Inr d'"
  by (auto simp: inTransaction_def commit_def split: option.splits sum.splits if_splits)

lemma add_history_sel [simp]:
  "events (add_history h d) = events d" "outbox (add_history h d) = outbox d"
  "attempts (add_history h d) = attempts d" "dlq (add_history h d) = dlq d"
  "history (add_history h d) = history d @ [h]" "history_seq (add_history h d) = history_seq d + 1"
  "attempts_seq (add_history h d) = attempts_seq d"
  by (simp_all add: add_history_def)

lemma add_attempt_sel [simp]:
  "events (add_attempt p r u oc d) = events d" "outbox (add_attempt p r u oc d) = outbox d"
  "history (add_attempt p r u oc d) = history d" "dlq (add_attempt p r u oc d) = dlq d"
  "history_seq (add_attempt p r u oc d) = history_seq d"
  by (simp_all add: add_attempt_def)

lemma logged_add_history:
  "logged (add_history h d) u st \<longleftrightarrow> logged d u st \<or> u = h_event_id h \<and> st = h_status h"
  by (auto simp: logged_iff)

lemma attempted_add_attempt:
  "attempted (add_attempt p r u' oc' d) u oc \<longleftrightarrow> attempted d u oc \<or> u = u' \<and> oc = oc'"
  by (auto simp: attempted_iff add_attempt_def)

lemma schema_add_history:
  assumes "schema_ok u d" "has_event d e" "btrim st \<noteq> []"
  shows "schema_ok u (add_history (new_history p d e st det) d)"
  using assms by (auto simp: schema_defs new_history_def event_ids_def has_event_iff less_le_not_le)

lemma schema_add_attempt:
  assumes "schema_ok u d" "has_event d e" "0 < ar_AttemptNumber r" "btrim oc \<noteq> []"
  shows "schema_ok u (add_attempt p r e oc d)"
  using assms by (auto simp: schema_defs add_attempt_def event_ids_def has_event_iff less_le_not_le)

lemma schema_put_dlq:
  assumes "schema_ok u d" "has_event d (q_event_id q)" "0 < q_attempt_count q" "btrim (q_status q) \<noteq> []"
  shows "schema_ok u (d\<lparr>dlq := put_dlq q (dlq d)\<rparr>)"
proof -
  have "distinct (map q_event_id (dlq d))" using assms(1) by (simp add: schema_defs)
  then show ?thesis using assms
    by (auto simp: schema_defs event_ids_def has_event_iff set_put_dlq distinct_put_dlq)
qed

lemma btrim_status [simp]:
  "btrim StatusStored \<noteq> []" "btrim StatusPendingPublication \<noteq> []" "btrim StatusPublished \<noteq> []"
  "btrim StatusProcessing \<noteq> []" "btrim StatusRetrying \<noteq> []" "btrim StatusDelivered \<noteq> []"
  "btrim StatusDeadLettered \<noteq> []" "btrim StatusRedriven \<noteq> []"
  "btrim DeliveryOutcomeSucceeded \<noteq> []" "btrim DeliveryOutcomeFailed \<noteq> []"
  "btrim DLQStatusOpen \<noteq> []" "btrim DLQStatusRedriven \<noteq> []"
  by (simp_all add: status_consts dlq_consts DeliveryOutcomeSucceeded_def DeliveryOutcomeFailed_def
      btrim_def TrimChar_def TrimRightChar_def)

lemma status_distinct [simp]:
  "distinct [StatusStored, StatusPendingPublication, StatusPublished, StatusProcessing,
     StatusRetrying, StatusDelivered, StatusDeadLettered, StatusRedriven]"
  "DeliveryOutcomeSucceeded \<noteq> DeliveryOutcomeFailed" "DLQStatusOpen \<noteq> DLQStatusRedriven"
  by (simp_all add: status_consts dlq_consts DeliveryOutcomeSucceeded_def DeliveryOutcomeFailed_def)

lemma event_ids_add [simp]: "event_ids (add_history h d) = event_ids d"
  "event_ids (add_attempt p r x oc d) = event_ids d" "event_ids (d\<lparr>dlq := qs\<rparr>) = event_ids d"
  by (simp_all add: event_ids_def)

lemma logged_other [simp]: "logged (add_attempt p r x oc d) = logged d" "logged (d\<lparr>dlq := qs\<rparr>) = logged d"
  by (simp_all add: logged_def fun_eq_iff)

lemma attempted_other [simp]: "attempted (add_history h d) = attempted d" "attempted (d\<lparr>dlq := qs\<rparr>) = attempted d"
  by (simp_all add: attempted_def fun_eq_iff)

lemma new_history_sel [simp]: "h_event_id (new_history p d x st det) = x" "h_status (new_history p d x st det) = st"
  by (simp_all add: new_history_def)

lemma new_history_other [simp]:
  "new_history p (add_attempt p' r x oc d) = new_history p d"
  "new_history p (d\<lparr>dlq := qs\<rparr>) = new_history p d"
  by (simp_all add: new_history_def fun_eq_iff)

lemmas stored_consts = status_consts dlq_consts DeliveryOutcomeSucceeded_def DeliveryOutcomeFailed_def

definition set_redriven :: "pg \<Rightarrow> bytes \<Rightarrow> dlq_row \<Rightarrow> dlq_row" where
  "set_redriven p x q = (if q_event_id q = x
     then q\<lparr>q_status := DLQStatusRedriven, q_redriven_at := Some (pg_now p), q_updated_at := pg_now p\<rparr>
     else q)"

lemma markRedriven_Inr:
  "markRedriven p e d = Inr d' \<longleftrightarrow>
     (\<exists>x. pg_fault p MarkRedriven = None \<and> pg_uuid p e = Some x \<and>
        length (filter (\<lambda>q. q_event_id q = x) (dlq d)) = 1 \<and>
        d' = d\<lparr>dlq := map (set_redriven p x) (dlq d)\<rparr>)"
  by (auto simp: markRedriven_def set_redriven_def [abs_def] Let_def cast_uuid_def guard_def
      split: sum.splits option.splits if_splits)

lemma set_redriven_id [simp]: "q_event_id (set_redriven p x q) = q_event_id q"
  "q_attempt_count (set_redriven p x q) = q_attempt_count q"
  by (simp_all add: set_redriven_def)

lemma lockDLQ_Inr:
  "lockDLQ p e d = Inr st \<Longrightarrow>
   \<exists>x q. pg_uuid p e = Some x \<and> q \<in> set (dlq d) \<and> q_event_id q = x \<and> q_status q = st"
  by (auto simp: lockDLQ_def cast_uuid_def guard_def
      split: if_splits option.splits sum.splits dest!: find_SomeD)

lemma fetchEvent_Inr:
  "fetchEvent p e d = Inr m \<Longrightarrow>
   \<exists>ev. pg_uuid p e = Some (ev_id ev) \<and> ev \<in> set (events d) \<and> m = event_metadata ev"
  by (auto simp: fetchEvent_def cast_uuid_def guard_def
      split: if_splits option.splits sum.splits dest!: find_event_Some)

lemma RedriveDLQ_outcome:
  assumes "RedriveDLQ p s e pub d w = (res, d', w')"
  obtains (same) "d' = d" "isl res" "w' = w \<or> (\<exists>f vs. pub = Some f \<and> w' = snd (f vs w))"
  | (redriven) q ev sid f where "pub = Some f" "pg_uuid p e = Some (ev_id ev)"
      "q \<in> set (dlq d)" "q_event_id q = ev_id ev" "q_status q = DLQStatusOpen"
      "ev \<in> set (events d)" "f (redriveValues (event_metadata ev)) w = (Inr sid, w')"
      "d' = add_history (new_history p d (ev_id ev) StatusRedriven (Some [(''stream_id'', JStr sid)]))
              (d\<lparr>dlq := map (set_redriven p (ev_id ev)) (dlq d)\<rparr>)"
      "res = Inr \<lparr>rr_EventID = e, rr_Status = DLQStatusRedriven, rr_StreamID = sid\<rparr> \<or>
       isl res \<and> pg_fault p Commit \<noteq> None"
proof (cases "d' = d \<and> isl res")
  case True
  then have "w' = w \<or> (\<exists>f vs. pub = Some f \<and> w' = snd (f vs w))"
    using assms by (auto simp: RedriveDLQ_def split: if_splits option.splits sum.splits prod.splits)
      (metis snd_conv)+
  then show thesis using True by (intro same) auto
next
  case False
  then obtain f st m sid where f: "pub = Some f" "lockDLQ p e d = Inr DLQStatusOpen"
      "fetchEvent p e d = Inr m" "f (redriveValues m) w = (Inr sid, w')"
    and tx: "\<exists>x. pg_uuid p e = Some x \<and>
      d' = add_history (new_history p d x StatusRedriven (Some [(''stream_id'', JStr sid)]))
             (d\<lparr>dlq := map (set_redriven p x) (dlq d)\<rparr>)"
      "res = Inr \<lparr>rr_EventID = e, rr_Status = DLQStatusRedriven, rr_StreamID = sid\<rparr> \<or>
       isl res \<and> pg_fault p Commit \<noteq> None"
    using assms
    by (auto simp: RedriveDLQ_def commit_def markRedriven_Inr InsertStatusHistory_Inr
        split: if_splits option.splits sum.splits prod.splits)
  from fetchEvent_Inr [OF f(3)] obtain ev where ev: "pg_uuid p e = Some (ev_id ev)" "ev \<in> set (events d)"
    "m = event_metadata ev" by blast
  from lockDLQ_Inr [OF f(2)] ev(1) obtain q where "q \<in> set (dlq d)" "q_event_id q = ev_id ev"
    "q_status q = DLQStatusOpen" by auto
  then show thesis using redriven f ev tx by auto
qed

lemma set_put_dlq_sub: "q' \<in> set (put_dlq q qs) \<Longrightarrow> q' = q \<or> q' \<in> set qs"
  by (induction qs) (auto split: if_splits)

text \<open>Tables with one dead-lettered event.\<close>

definition dead_db :: db where
  "dead_db = empty_db\<lparr>events := [\<lparr>ev_id = ''e1'', ev_event_type = ''t'', ev_source = ''s'', ev_payload = ''1'',
       ev_created_at = 0, ev_idempotency_key = None, ev_request_hash = None\<rparr>],
     dlq := [\<lparr>q_event_id = ''e1'', q_original_stream_id = ''1-0'', q_attempt_count = 6,
       q_last_error = None, q_status = ''OPEN'', q_dead_lettered_at = 0, q_redriven_at = None,
       q_updated_at = 0\<rparr>]\<rparr>"

text \<open>
  A redrive happens at most once per dead-letter record. A call succeeds only when the record is
  open and the publisher accepted the message of this event; it then marks the record redriven
  and records the status \<open>REDRIVEN\<close>. Every call on a record that is not open, in particular
  every repetition of a successful one, sends nothing and changes nothing.
\<close>

theorem redrive_once:
  assumes "pg_uuid p' = pg_uuid p"
    and "RedriveDLQ p s e pub d w = (Inr r, d1, w1)"
  shows "(\<exists>q. q \<in> set (dlq d) \<and> pg_uuid p e = Some (q_event_id q) \<and> q_status q = DLQStatusOpen \<and>
      logged d1 (q_event_id q) StatusRedriven \<and>
      (\<exists>f ev sid. pub = Some f \<and> ev_id ev = q_event_id q \<and> ev \<in> set (events d) \<and>
         f (redriveValues (event_metadata ev)) w = (Inr sid, w1) \<and> rr_StreamID r = sid)) \<and>
    (case RedriveDLQ p' s e pub d1 w1 of (res, d2, w2) \<Rightarrow> isl res \<and> d2 = d1 \<and> w2 = w1)"
  using assms(2)
proof (cases rule: RedriveDLQ_outcome)
  case (redriven q ev sid f)
  have "find (\<lambda>q. q_event_id q = ev_id ev) (dlq d1) \<noteq> None"
    using redriven(3,4,8) by (auto simp: find_None_iff)
  then obtain q1 where q1: "find (\<lambda>q. q_event_id q = ev_id ev) (dlq d1) = Some q1" by auto
  have "q_status q1 = DLQStatusRedriven"
    using find_SomeD [OF q1] redriven(8) by (auto simp: set_redriven_def split: if_splits)
  then have "lockDLQ p' e d1 = Inl x \<or> lockDLQ p' e d1 = Inr DLQStatusRedriven \<or> isl (lockDLQ p' e d1)" for x
    using q1 redriven(2) assms(1)
    by (auto simp: lockDLQ_def guard_def cast_uuid_def split: option.splits sum.splits if_splits)
  then have "isl (fst (RedriveDLQ p' s e pub d1 w1)) \<and> snd (RedriveDLQ p' s e pub d1 w1) = (d1, w1)"
    using status_distinct(3)
    by (auto simp: RedriveDLQ_def split: option.splits sum.splits if_splits)
  then show ?thesis using redriven
    by (intro conjI exI [of _ q] exI [of _ f] exI [of _ ev] exI [of _ sid])
      (auto simp: logged_add_history split: prod.splits)
qed simp

theorem redrive_once_witness:
  "case RedriveDLQ (quiet_pg [] [] 1) (Some True) ''e1'' (Some (\<lambda>vs n. (Inr ''2-0'', Suc n))) dead_db 0 of
     (res, d1, w1) \<Rightarrow> \<not> isl res \<and> w1 = 1 \<and>
       (case RedriveDLQ (quiet_pg [] [] 2) (Some True) ''e1'' (Some (\<lambda>vs n. (Inr ''2-0'', Suc n))) d1 w1 of
          (res, d2, w2) \<Rightarrow> isl res \<and> d2 = d1 \<and> w2 = w1)"
  (is "case ?first of (res, d1, w1) \<Rightarrow> ?P res d1 w1")
proof -
  have ok: "case ?first of (res, d1, w1) \<Rightarrow> \<not> isl res \<and> w1 = 1" by code_simp
  obtain res d1 w1 where run: "?first = (res, d1, w1)" by (metis surj_pair)
  with ok obtain r where r: "res = Inr r" by (cases res) auto
  have "pg_uuid (quiet_pg [] [] 2) = pg_uuid (quiet_pg [] [] 1)" by (simp add: quiet_pg_def)
  from redrive_once [OF this run [unfolded r]] show ?thesis using ok run by simp
qed

section \<open>What the reads return\<close>

lemma set_history_of: "set (history_of d x) = {h \<in> set (history d). h_event_id h = x}"
  by (simp add: history_of_def)

lemma history_of_Nil: "history_of d x = [] \<longleftrightarrow> x \<notin> h_event_id ` set (history d)"
  using set_history_of [of d x] by (auto simp del: set_empty simp flip: set_empty)

definition current_status :: "db \<Rightarrow> bytes \<Rightarrow> bytes" where
  "current_status d x = (if history_of d x = [] then [] else h_status (last (history_of d x)))"

lemma EventStatus_known:
  assumes "schema_ok u d" "pg_uuid p = u" "no_faults p" "x \<in> event_ids d"
  shows "\<exists>s. EventStatus_of p (Some True) x d = Inr s \<and> es_CurrentStatus s = current_status d x"
proof -
  have x: "pg_uuid p x = Some x" using cast_known [OF assms(1,2)] assms(4) by (simp add: event_ids_has)
  obtain r where "find_event d x = Some r" using assms(4) find_event_None [of d x] by (auto simp: event_ids_has)
  then show ?thesis using assms(3) x
    by (auto simp: EventStatus_of_def poolMissing_def fetchEvent_def fetchStatusHistory_def
        fetchDeliveryAttempts_def no_faults_def guard_def cast_uuid_def current_status_def last_map)
qed

lemma count_latest:
  assumes "schema_ok u d" "st \<noteq> []"
  shows "count (\<lambda>s. s = st) (latest_statuses d) = int (card {x \<in> event_ids d. current_status d x = st})"
proof -
  let ?ids = "remdups (map h_event_id (history d))"
  have "{x \<in> event_ids d. current_status d x = st} = {x \<in> set ?ids. h_status (last (history_of d x)) = st}"
    using assms by (auto simp: current_status_def history_of_Nil schema_ok_def refs_ok_def)
  also have "card \<dots> = length (filter (\<lambda>x. h_status (last (history_of d x)) = st) ?ids)"
    using distinct_card [of "filter (\<lambda>x. h_status (last (history_of d x)) = st) ?ids"] by simp
  finally show ?thesis by (simp add: count_def latest_statuses_def filter_map comp_def)
qed

text \<open>
  C22: The metrics agree with the statuses. In tables that satisfy the schema, the summary counts
  all events, and counts as delivered and as retrying exactly the events for which
  \<open>EventStatus\<close> returns that current status.
\<close>

theorem metrics_match_statuses:
  assumes "schema_ok u d" "pg_uuid p = u" "no_faults p" "MetricsSummary_of p (Some True) d = Inr m"
  shows "ms_TotalEvents m = int (card (event_ids d)) \<and>
    ms_Delivered m = int (card {x \<in> event_ids d. \<exists>s. EventStatus_of p (Some True) x d = Inr s \<and>
      es_CurrentStatus s = StatusDelivered}) \<and>
    ms_Retrying m = int (card {x \<in> event_ids d. \<exists>s. EventStatus_of p (Some True) x d = Inr s \<and>
      es_CurrentStatus s = StatusRetrying})"
proof -
  have cs: "{x \<in> event_ids d. \<exists>s. EventStatus_of p (Some True) x d = Inr s \<and> es_CurrentStatus s = st} =
      {x \<in> event_ids d. current_status d x = st}" for st
    using EventStatus_known [OF assms(1-3)] by fastforce
  have "card (event_ids d) = length (events d)"
    using assms(1) by (simp add: event_ids_def schema_defs card_image distinct_map distinct_card)
  then show ?thesis unfolding cs using assms(3,4) count_latest [OF assms(1)]
    by (auto simp: MetricsSummary_of_def poolMissing_def no_faults_def count_def status_consts)
qed

theorem metrics_match_statuses_witness:
  "case MetricsSummary_of (quiet_pg [] [] 0) (Some True) empty_db of
     Inl e \<Rightarrow> False | Inr m \<Rightarrow> ms_TotalEvents m = int (card (event_ids empty_db))"
proof -
  obtain m where m: "MetricsSummary_of (quiet_pg [] [] 0) (Some True) empty_db = Inr m"
    by (simp add: MetricsSummary_of_def poolMissing_def quiet_pg_def)
  have "pg_uuid (quiet_pg [] [] 0) = Some" by (simp add: quiet_pg_def)
  from metrics_match_statuses [OF schema_empty this quiet_server(2) m] m show ?thesis by simp
qed

lemma join_dlq_eq:
  assumes "schema_ok u d"
  shows "join_dlq d = map (\<lambda>q. (q, the (find_event d (q_event_id q)))) (dlq d)"
proof -
  have "map (Pair q) (filter (\<lambda>e. ev_id e = q_event_id q) (events d)) = [(q, the (find_event d (q_event_id q)))]"
    if "q \<in> set (dlq d)" for q
  proof -
    have "q_event_id q \<in> event_ids d" using that assms by (auto simp: schema_defs)
    then obtain e where e: "e \<in> set (events d)" "ev_id e = q_event_id q" by (auto simp: event_ids_def)
    have "distinct (map ev_id (events d))" using assms by (simp add: schema_defs)
    from filter_unique [OF this e(1)] show ?thesis using find_event_eq [OF assms e(1)] e(2) by simp
  qed
  then have "concat (map (\<lambda>q. map (Pair q) (filter (\<lambda>e. ev_id e = q_event_id q) (events d))) (dlq d)) =
      concat (map (\<lambda>q. [(q, the (find_event d (q_event_id q)))]) (dlq d))"
    by (metis (mono_tags, lifting) map_cong)
  then show ?thesis by (simp add: join_dlq_def concat_filter concat_map_singleton)
qed

text \<open>
  The list of dead-letter records. For a valid status and a limit from 1 to 200 it has that
  status only, is as long as the limit allows, is ordered from the newest to the oldest record,
  and leaves out no record that is newer than a listed one.
\<close>

theorem ListDLQ_newest_first:
  assumes "schema_ok u d" "no_faults p" "st \<in> {DLQStatusOpen, DLQStatusRedriven}" "1 \<le> limit" "limit \<le> 200"
  shows "\<exists>rs. ListDLQ p (Some True) st limit d = Inr rs \<and>
    length rs = min (nat limit) (length (filter (\<lambda>q. q_status q = st) (dlq d))) \<and>
    sorted (rev (map (\<lambda>r. (dr_DeadLetteredAt r, dr_EventID r)) rs)) \<and>
    (\<forall>r. r \<in> set rs \<longrightarrow> dr_Status r = st) \<and>
    (\<forall>q r. q \<in> set (dlq d) \<and> q_status q = st \<and> q_event_id q \<notin> dr_EventID ` set rs \<and> r \<in> set rs \<longrightarrow>
       (of_pg (q_dead_lettered_at q), q_event_id q) \<le> (dr_DeadLetteredAt r, dr_EventID r))"
proof -
  let ?k = "\<lambda>(q, e). (q_dead_lettered_at q, q_event_id q)"
  let ?J = "filter (\<lambda>(q, e). q_status q = st) (join_dlq d)"
  let ?l = "take (nat limit) (rev (sort_key ?k ?J))"
  let ?rs = "map scanDLQRecord ?l"
  have run: "ListDLQ p (Some True) st limit d = Inr ?rs"
    using assms(2-5) by (auto simp: ListDLQ_def poolMissing_def no_faults_def)
  have J: "?J = map (\<lambda>q. (q, the (find_event d (q_event_id q)))) (filter (\<lambda>q. q_status q = st) (dlq d))"
    by (simp add: join_dlq_eq [OF assms(1)] filter_map comp_def)
  then have len: "length ?rs = min (nat limit) (length (filter (\<lambda>q. q_status q = st) (dlq d)))"
    by simp
  have key: "(dr_DeadLetteredAt (scanDLQRecord x), dr_EventID (scanDLQRecord x)) =
      (1000 * fst (?k x), snd (?k x))" for x
    by (auto simp: scanDLQRecord_def of_pg_def split: prod.splits)
  have "sorted (map ?k (sort_key ?k ?J))" by simp
  then have "sorted (map ?k (rev ?l))"
    by (simp add: rev_take sorted_wrt_drop flip: drop_map)
  then have srt: "sorted (rev (map (\<lambda>r. (dr_DeadLetteredAt r, dr_EventID r)) ?rs))"
    by (simp add: rev_map sorted_map key) (auto simp: less_eq_prod_def elim!: sorted_wrt_mono_rel [rotated])
  have status: "dr_Status r = st" if "r \<in> set ?rs" for r
    using that by (auto simp: scanDLQRecord_def dest!: in_set_takeD)
  have rest: "(of_pg (q_dead_lettered_at q), q_event_id q) \<le> (dr_DeadLetteredAt r, dr_EventID r)"
    if mem: "q \<in> set (dlq d)" "q_status q = st" "q_event_id q \<notin> dr_EventID ` set ?rs" "r \<in> set ?rs" for q r
  proof -
    let ?x = "(q, the (find_event d (q_event_id q)))"
    have "?x \<in> set ?J" using mem(1,2) J by auto
    moreover have "?x \<notin> set ?l" using mem(3) by (force simp: scanDLQRecord_def)
    moreover obtain y where y: "y \<in> set ?l" "r = scanDLQRecord y" using mem(4) by auto
    ultimately have "?k ?x \<le> ?k y" by (intro sort_take_largest [of _ _ "nat limit"])
    then show ?thesis using key [of y] y(2) by (auto simp: less_eq_prod_def of_pg_def)
  qed
  show ?thesis using run len srt status rest by (intro exI [of _ ?rs]) auto
qed

lemma schema_dead_db: "schema_ok Some dead_db"
  by (simp add: schema_defs dead_db_def empty_db_def event_ids_def btrim_def TrimChar_def TrimRightChar_def)

theorem ListDLQ_newest_first_witness:
  "\<exists>rs. ListDLQ (quiet_pg [] [] 0) (Some True) DLQStatusOpen 10 dead_db = Inr rs \<and> length rs = 1"
proof -
  have "length (filter (\<lambda>q. q_status q = DLQStatusOpen) (dlq dead_db)) = 1"
    by (simp add: dead_db_def DLQStatusOpen_def)
  then show ?thesis
    using ListDLQ_newest_first [OF schema_dead_db quiet_server(2) [of "[]" "[]" 0], of DLQStatusOpen 10]
    by auto
qed

end
