(* ===== verification/Ingestion_Store.thy ===== *)
theory Ingestion_Store
  imports Operations_Store
begin

text \<open>
  The ingestion of events: \<open>internal/ingestion/request_hash.go\<close> and
  \<open>internal/ingestion/store.go\<close>. \<open>PersistEventWithOutbox\<close> writes the event, its
  outbox row and its first two statuses in one transaction, and answers a repeated
  idempotency key with the event it already has.
\<close>

section \<open>The request hash\<close>

definition requestHashInput :: "bytes \<Rightarrow> bytes \<Rightarrow> json \<Rightarrow> json" where
  "requestHashInput eventType source payload =
     JObj [(''event_type'', JStr eventType), (''source'', JStr source), (''payload'', payload)]"

definition errOneValue :: error where
  "errOneValue = ErrNew ''payload must contain exactly one JSON value''"

definition computeRequestHash :: "golib \<Rightarrow> bytes \<Rightarrow> bytes \<Rightarrow> bytes \<Rightarrow> error + bytes" where
  "computeRequestHash lib eventType source payload =
     (if TrimSpace payload = [] then Inl errOneValue
      else
        case json_decode payload of
          DecVal decodedPayload rest \<Rightarrow>
            (case json_decode rest of
               DecVal _ _ \<Rightarrow> Inl errOneValue
             | DecErr \<Rightarrow> Inl (ErrWrap ''invalid trailing JSON content: '' (lib_json_error lib rest) [])
             | DecEOF \<Rightarrow>
                 Inr (hex_encode (lib_sha256 lib
                   (marshal (requestHashInput eventType source (normalize decodedPayload))))))
        | _ \<Rightarrow> Inl (ErrWrap ''invalid payload JSON: '' (lib_json_error lib payload) []))"

section \<open>The store\<close>

record EventInput =
  in_EventType :: bytes
  in_Source :: bytes
  in_Payload :: bytes

record PersistResult =
  res_EventID :: bytes
  res_Created :: bool

definition new_event_row :: "pg \<Rightarrow> EventInput \<Rightarrow> bytes option \<Rightarrow> bytes \<Rightarrow> event_row" where
  "new_event_row p req key hash =
     \<lparr>ev_id = pg_event_id p, ev_event_type = in_EventType req, ev_source = in_Source req,
      ev_payload = pg_jsonb p (in_Payload req), ev_created_at = pg_now p,
      ev_idempotency_key = key, ev_request_hash = Some hash\<rparr>"

definition insert_event_row :: "pg \<Rightarrow> event_row \<Rightarrow> db \<Rightarrow> error + bytes \<times> db" where
  "insert_event_row p r d =
     (if has_event d (ev_id r) then Inl unique_violation
      else Inr (ev_id r, d\<lparr>events := events d @ [r]\<rparr>))"

definition insertEventWithoutIdempotencyKey ::
    "pg \<Rightarrow> EventInput \<Rightarrow> bytes \<Rightarrow> db \<Rightarrow> error + bytes \<times> db" where
  "insertEventWithoutIdempotencyKey p req hash d =
     guard p InsertEvent (insert_event_row p (new_event_row p req None hash) d)"

definition find_by_key :: "bytes \<Rightarrow> bytes \<Rightarrow> db \<Rightarrow> event_row option" where
  "find_by_key source key d =
     find (\<lambda>r. ev_source r = source \<and> ev_idempotency_key r = Some key) (events d)"

text \<open>\<open>ON CONFLICT (source, idempotency_key) DO NOTHING RETURNING id\<close> returns no row on a
  conflict.\<close>

definition insertEventWithIdempotencyKey ::
    "pg \<Rightarrow> EventInput \<Rightarrow> bytes \<Rightarrow> bytes \<Rightarrow> db \<Rightarrow> error + bytes \<times> db" where
  "insertEventWithIdempotencyKey p req key hash d =
     guard p InsertEvent
       (case find_by_key (in_Source req) key d of
          Some _ \<Rightarrow> Inl ErrNoRows
        | None \<Rightarrow> insert_event_row p (new_event_row p req (Some key) hash) d)"

definition selectEventByIdempotencyKey ::
    "pg \<Rightarrow> bytes \<Rightarrow> bytes \<Rightarrow> db \<Rightarrow> error + bytes \<times> bytes option" where
  "selectEventByIdempotencyKey p source key d =
     guard p SelectByKey
       (case find_by_key source key d of
          None \<Rightarrow> Inl ErrNoRows
        | Some r \<Rightarrow> Inr (ev_id r, ev_request_hash r))"

definition insertOutbox :: "pg \<Rightarrow> bytes \<Rightarrow> db \<Rightarrow> error + db" where
  "insertOutbox p eventID d =
     guard p InsertOutbox
       (case cast_uuid p eventID of
          Inl e \<Rightarrow> Inl e
        | Inr u \<Rightarrow>
            if \<not> has_event d u then Inl foreign_key_violation
            else if list_ex (\<lambda>r. ob_event_id r = u \<or> ob_id r = pg_outbox_id p) (outbox d)
            then Inl unique_violation
            else Inr (d\<lparr>outbox := outbox d @
                        [\<lparr>ob_id = pg_outbox_id p, ob_event_id = u, ob_status = ''pending'',
                          ob_attempt_count = 0, ob_next_attempt_at = pg_now p,
                          ob_published_at = None, ob_last_error = None,
                          ob_created_at = pg_now p, ob_updated_at = pg_now p\<rparr>]\<rparr>))"

definition insertOutboxForEvent :: "pg \<Rightarrow> bytes \<Rightarrow> db \<Rightarrow> error + db" where
  "insertOutboxForEvent p eventID d =
     (case insertOutbox p eventID d of
        Inl e \<Rightarrow> Inl (ErrWrap (''insert outbox row for event '' @ eventID @ '': '') e [])
      | Inr d1 \<Rightarrow>
          (case InsertStatusHistory p eventID StatusStored None d1 of
             Inl e \<Rightarrow> Inl e
           | Inr d2 \<Rightarrow> InsertStatusHistory p eventID StatusPendingPublication None d2))"

definition validateExistingRequestHash :: "bytes option \<Rightarrow> bytes \<Rightarrow> error option" where
  "validateExistingRequestHash existing incoming =
     (case existing of
        None \<Rightarrow> Some (ErrWrap [] ErrIdempotencyConflict '': existing request hash is missing'')
      | Some h \<Rightarrow>
          if h \<noteq> incoming
          then Some (ErrWrap [] ErrIdempotencyConflict '': existing request hash differs'')
          else None)"

definition existingEventIDForMatchingRequestHash ::
    "pg \<Rightarrow> bytes \<Rightarrow> bytes \<Rightarrow> bytes \<Rightarrow> db \<Rightarrow> error + bytes" where
  "existingEventIDForMatchingRequestHash p source idempotencyKey incomingHash d =
     (case selectEventByIdempotencyKey p source idempotencyKey d of
        Inl e \<Rightarrow> Inl (ErrWrap ''lookup existing event for idempotency key: '' e [])
      | Inr (eventID, existingHash) \<Rightarrow>
          (case validateExistingRequestHash existingHash incomingHash of
             Some e \<Rightarrow>
               Inl (ErrWrap [] e ('' for source '' @ Quote source @ '' event '' @ eventID))
           | None \<Rightarrow> Inr eventID))"

definition insertEventWithoutKeyWithOutbox ::
    "pg \<Rightarrow> EventInput \<Rightarrow> bytes \<Rightarrow> db \<Rightarrow> error + PersistResult \<times> db" where
  "insertEventWithoutKeyWithOutbox p req requestHash d =
     (case insertEventWithoutIdempotencyKey p req requestHash d of
        Inl e \<Rightarrow> Inl (ErrWrap ''insert event without idempotency key: '' e [])
      | Inr (eventID, d1) \<Rightarrow>
          (case insertOutboxForEvent p eventID d1 of
             Inl e \<Rightarrow> Inl e
           | Inr d2 \<Rightarrow> Inr (\<lparr>res_EventID = eventID, res_Created = True\<rparr>, d2)))"

text \<open>The last statement of a transaction: the result when the commit succeeds.\<close>

definition commit_result ::
    "pg \<Rightarrow> bytes \<Rightarrow> 'a \<Rightarrow> db \<Rightarrow> db \<Rightarrow> (error + 'a) \<times> db" where
  "commit_result p what r d0 d1 =
     (case commit p d0 d1 of
        (Some e, d2) \<Rightarrow> (Inl (ErrWrap (what @ '': '') e []), d2)
      | (None, d2) \<Rightarrow> (Inr r, d2))"

definition PersistEventWithOutbox ::
    "golib \<Rightarrow> pg \<Rightarrow> EventInput \<Rightarrow> bytes \<Rightarrow> db \<Rightarrow> (error + PersistResult) \<times> db" where
  "PersistEventWithOutbox lib p req idempotencyKey d =
     (let normalizedKey = TrimSpace idempotencyKey in
      case computeRequestHash lib (in_EventType req) (in_Source req) (in_Payload req) of
        Inl e \<Rightarrow> (Inl (ErrWrap ''compute request hash: '' e []), d)
      | Inr requestHash \<Rightarrow>
      case pg_fault p Begin of
        Some e \<Rightarrow> (Inl (ErrWrap ''begin persist event transaction: '' e []), d)
      | None \<Rightarrow>
      if normalizedKey = [] then
        (case insertEventWithoutKeyWithOutbox p req requestHash d of
           Inl e \<Rightarrow> (Inl e, d)
         | Inr (result, d1) \<Rightarrow>
             commit_result p ''commit new event without idempotency key'' result d d1)
      else
        (case insertEventWithIdempotencyKey p req normalizedKey requestHash d of
           Inr (eventID, d1) \<Rightarrow>
             (case insertOutboxForEvent p eventID d1 of
                Inl e \<Rightarrow> (Inl e, d)
              | Inr d2 \<Rightarrow>
                  commit_result p ''commit new event with idempotency key''
                    \<lparr>res_EventID = eventID, res_Created = True\<rparr> d d2)
         | Inl e \<Rightarrow>
             if \<not> errors_is e ErrNoRows
             then (Inl (ErrWrap ''insert event with idempotency key: '' e []), d)
             else
               (case existingEventIDForMatchingRequestHash p (in_Source req) normalizedKey
                       requestHash d of
                  Inl e2 \<Rightarrow> (Inl e2, d)
                | Inr eventID \<Rightarrow>
                    commit_result p ''commit existing idempotent event lookup''
                      \<lparr>res_EventID = eventID, res_Created = False\<rparr> d d)))"

section \<open>What a call does\<close>

definition persisted :: "pg \<Rightarrow> event_row \<Rightarrow> db \<Rightarrow> db" where
  "persisted p r d =
     (let d1 = d\<lparr>events := events d @ [r],
           outbox := outbox d @ [\<lparr>ob_id = pg_outbox_id p, ob_event_id = ev_id r, ob_status = ''pending'',
                          ob_attempt_count = 0, ob_next_attempt_at = pg_now p,
                          ob_published_at = None, ob_last_error = None,
                          ob_created_at = pg_now p, ob_updated_at = pg_now p\<rparr>]\<rparr>;
          d2 = add_history (new_history p d1 (ev_id r) StatusStored None) d1
      in add_history (new_history p d2 (ev_id r) StatusPendingPublication None) d2)"

lemma insert_new_event:
  assumes s: "server u p"
    and ev: "insert_event_row p (new_event_row p req key hash) d = Inr (i, d1)"
    and ob: "insertOutboxForEvent p i d1 = Inr d2"
  shows "i = pg_event_id p \<and> \<not> has_event d i \<and> d2 = persisted p (new_event_row p req key hash) d \<and>
    i \<notin> ob_event_id ` set (outbox d) \<and> pg_outbox_id p \<notin> ob_id ` set (outbox d)"
proof -
  let ?r = "new_event_row p req key hash"
  have i: "i = pg_event_id p" "\<not> has_event d i" "d1 = d\<lparr>events := events d @ [?r]\<rparr>"
    using ev by (auto simp: insert_event_row_def new_event_row_def split: if_splits)
  have cast: "pg_uuid p i = Some i" using s i(1) by (simp add: server_def)
  from ob obtain d3 where d3: "insertOutbox p i d1 = Inr d3"
    "(case InsertStatusHistory p i StatusStored None d3 of Inl e \<Rightarrow> Inl e
      | Inr d2 \<Rightarrow> InsertStatusHistory p i StatusPendingPublication None d2) = Inr d2"
    by (auto simp: insertOutboxForEvent_def split: sum.splits)
  then show ?thesis using i cast
    by (auto simp: insertOutbox_def InsertStatusHistory_Inr persisted_def Let_def list_ex_iff
        new_event_row_def cast_uuid_def split: sum.splits if_splits option.splits)
qed

lemma persisted_sel [simp]:
  "events (persisted p r d) = events d @ [r]" "attempts (persisted p r d) = attempts d"
  "dlq (persisted p r d) = dlq d"
  by (simp_all add: persisted_def Let_def)

lemma has_event_persisted [simp]: "has_event (persisted p r d) x \<longleftrightarrow> has_event d x \<or> x = ev_id r"
  by (auto simp: has_event_iff)

lemma find_by_key_Some:
  "find_by_key s k d = Some r \<Longrightarrow> r \<in> set (events d) \<and> ev_source r = s \<and> ev_idempotency_key r = Some k"
  by (auto simp: find_by_key_def find_Some_iff)

lemma find_by_key_None:
  "find_by_key s k d = None \<longleftrightarrow> (\<forall>r \<in> set (events d). ev_source r = s \<longrightarrow> ev_idempotency_key r \<noteq> Some k)"
  by (auto simp: find_by_key_def find_None_iff)

definition idem_key :: "bytes \<Rightarrow> bytes option" where
  "idem_key key = (if TrimSpace key = [] then None else Some (TrimSpace key))"

lemma commit_result_cases:
  assumes "commit_result p w r d d2 = (res, d')"
  shows "(\<exists>e. res = Inl e \<and> d' = d) \<or>
    d' = d2 \<and> (res = Inr r \<or> pg_fault p Commit \<noteq> None \<and> pg_commit_applied p \<and> isl res)"
  using assms by (auto simp: commit_result_def commit_def split: option.splits if_splits)

lemma commit_result_same:
  "commit_result p w r d d = (res, d') \<Longrightarrow> d' = d \<and> (res = Inr r \<or> (\<exists>e. res = Inl e))"
  by (auto simp: commit_result_def commit_def split: option.splits if_splits)

lemma Persist_existing:
  assumes "PersistEventWithOutbox lib p req key d = (res, d')" "idem_key key = Some k"
    "find_by_key (in_Source req) k d = Some r"
  shows "d' = d \<and> ((\<exists>e. res = Inl e) \<or>
    (\<exists>h. computeRequestHash lib (in_EventType req) (in_Source req) (in_Payload req) = Inr h \<and>
       ev_request_hash r = Some h \<and> res = Inr \<lparr>res_EventID = ev_id r, res_Created = False\<rparr>))"
  using assms
  by (auto simp: PersistEventWithOutbox_def insertEventWithIdempotencyKey_def idem_key_def guard_def
      existingEventIDForMatchingRequestHash_def selectEventByIdempotencyKey_def
      validateExistingRequestHash_def Let_def
      split: option.splits sum.splits prod.splits if_splits dest!: commit_result_same)

lemma Persist_new:
  assumes "PersistEventWithOutbox lib p req key d = (res, d')"
    "\<And>k. idem_key key = Some k \<Longrightarrow> find_by_key (in_Source req) k d = None"
  shows "(\<exists>e. res = Inl e \<and> d' = d) \<or>
    (\<exists>h i d1 d2 w. computeRequestHash lib (in_EventType req) (in_Source req) (in_Payload req) = Inr h \<and>
       insert_event_row p (new_event_row p req (idem_key key) h) d = Inr (i, d1) \<and>
       insertOutboxForEvent p i d1 = Inr d2 \<and>
       commit_result p w \<lparr>res_EventID = i, res_Created = True\<rparr> d d2 = (res, d'))"
proof (cases "idem_key key")
  case None
  then show ?thesis using assms(1)
    by (auto simp: PersistEventWithOutbox_def insertEventWithoutKeyWithOutbox_def
          insertEventWithoutIdempotencyKey_def idem_key_def guard_def
          split: option.splits sum.splits prod.splits if_splits)
next
  case (Some k)
  then have "find_by_key (in_Source req) k d = None" by (rule assms(2))
  then show ?thesis using assms(1) Some
    by (auto simp: PersistEventWithOutbox_def insertEventWithIdempotencyKey_def idem_key_def guard_def
      existingEventIDForMatchingRequestHash_def selectEventByIdempotencyKey_def Let_def
      split: option.splits sum.splits prod.splits if_splits)
qed

lemma Persist_cases:
  assumes "PersistEventWithOutbox lib p req key d = (res, d')" "server u p"
  obtains (unchanged) e where "res = Inl e" "d' = d"
  | (existing) h r k where
      "computeRequestHash lib (in_EventType req) (in_Source req) (in_Payload req) = Inr h"
      "idem_key key = Some k" "find_by_key (in_Source req) k d = Some r"
      "ev_request_hash r = Some h"
      "d' = d" "res = Inr \<lparr>res_EventID = ev_id r, res_Created = False\<rparr>"
  | (created) h where
      "computeRequestHash lib (in_EventType req) (in_Source req) (in_Payload req) = Inr h"
      "\<And>k. idem_key key = Some k \<Longrightarrow> find_by_key (in_Source req) k d = None"
      "\<not> has_event d (pg_event_id p)" "pg_outbox_id p \<notin> ob_id ` set (outbox d)"
      "d' = persisted p (new_event_row p req (idem_key key) h) d"
      "res = Inr \<lparr>res_EventID = pg_event_id p, res_Created = True\<rparr> \<or>
       pg_fault p Commit \<noteq> None \<and> pg_commit_applied p \<and> isl res"
proof (cases "\<exists>k r. idem_key key = Some k \<and> find_by_key (in_Source req) k d = Some r")
  case True
  then show thesis using Persist_existing [OF assms(1)] unchanged existing by blast
next
  case False
  then have nk: "find_by_key (in_Source req) k d = None" if "idem_key key = Some k" for k
    using that by fastforce
  from Persist_new [OF assms(1) nk] consider e where "res = Inl e" "d' = d"
    | h i d1 d2 w where "computeRequestHash lib (in_EventType req) (in_Source req) (in_Payload req) = Inr h"
       "insert_event_row p (new_event_row p req (idem_key key) h) d = Inr (i, d1)"
       "insertOutboxForEvent p i d1 = Inr d2"
       "commit_result p w \<lparr>res_EventID = i, res_Created = True\<rparr> d d2 = (res, d')" by blast
  then show thesis
  proof cases
    case 2
    from commit_result_cases [OF 2(4)] insert_new_event [OF assms(2) 2(2,3)]
    show thesis using unchanged created [OF 2(1) nk] by auto
  qed (rule unchanged)
qed

text \<open>
  C14: Ingestion is atomic. Whatever statement fails, a call either leaves the tables as they were
  or adds exactly one event with its request hash, one pending outbox row for it and the two
  statuses \<open>STORED\<close> and \<open>PENDING_PUBLICATION\<close>, in this order, and nothing else. It adds them
  exactly when it reports a created event, except that a failed \<open>COMMIT\<close> may have taken effect.
\<close>

theorem persist_atomic:
  assumes "server u p" "PersistEventWithOutbox lib p req key d = (res, d')"
  shows "d' = d \<and> (case res of Inl e \<Rightarrow> True | Inr r \<Rightarrow> \<not> res_Created r) \<or>
    (\<exists>h row orow h1 h2.
       computeRequestHash lib (in_EventType req) (in_Source req) (in_Payload req) = Inr h \<and>
       events d' = events d @ [row] \<and> outbox d' = outbox d @ [orow] \<and>
       history d' = history d @ [h1, h2] \<and> attempts d' = attempts d \<and> dlq d' = dlq d \<and>
       ev_id row = pg_event_id p \<and> ev_event_type row = in_EventType req \<and>
       ev_source row = in_Source req \<and> ev_request_hash row = Some h \<and>
       ev_idempotency_key row = (if TrimSpace key = [] then None else Some (TrimSpace key)) \<and>
       ob_event_id orow = pg_event_id p \<and> ob_status orow = ''pending'' \<and> ob_attempt_count orow = 0 \<and>
       h_event_id h1 = pg_event_id p \<and> h_status h1 = StatusStored \<and>
       h_event_id h2 = pg_event_id p \<and> h_status h2 = StatusPendingPublication \<and>
       (res = Inr \<lparr>res_EventID = pg_event_id p, res_Created = True\<rparr> \<or>
        pg_fault p Commit \<noteq> None \<and> isl res))"
  using assms(2,1)
proof (cases rule: Persist_cases)
  case (created h)
  then show ?thesis
    by (intro disjI2 exI [of _ h])
      (auto simp: persisted_def Let_def new_event_row_def idem_key_def)
qed auto

theorem persist_atomic_witness:
  "length (events (snd (PersistEventWithOutbox plain_lib (quiet_pg ''e1'' ''o1'' 0)
     \<lparr>in_EventType = ''t'', in_Source = ''s'', in_Payload = ''1''\<rparr> [] empty_db))) \<le> 1"
  (is "length (events (snd (PersistEventWithOutbox ?l ?p ?r ?k ?d))) \<le> 1")
proof -
  obtain res d' where run: "PersistEventWithOutbox ?l ?p ?r ?k ?d = (res, d')" by force
  have "server Some ?p" by (rule quiet_server)
  from persist_atomic [OF this run] have "d' = ?d \<or> (\<exists>row. events d' = events ?d @ [row])" by blast
  then show ?thesis using run by (auto simp: empty_db_def)
qed

end
