(* ===== verification/Outbox_Publisher.thy ===== *)
theory Outbox_Publisher
  imports Operations_Store
begin

text \<open>
  The outbox publisher of \<open>internal/outbox/publisher.go\<close>: one call of
  \<open>PublishNextOutboxEvent\<close> claims the oldest due row, hands the event to the publisher and
  marks the row published, or schedules the next attempt after a failure. The publisher acts on
  the state \<open>'w\<close> of the broker, outside the transaction.
\<close>

definition maxStoredOutboxErrorLength :: nat where "maxStoredOutboxErrorLength = 1000"

record OutboxEvent =
  oe_OutboxID :: bytes
  oe_EventID :: bytes
  oe_EventType :: bytes
  oe_Source :: bytes
  oe_Payload :: bytes
  oe_CreatedAt :: time
  oe_AttemptCount :: int

record PublishNextOutboxResult =
  pn_Found :: bool
  pn_Published :: bool
  pn_OutboxID :: bytes
  pn_EventID :: bytes

definition noResult :: PublishNextOutboxResult where
  "noResult = \<lparr>pn_Found = False, pn_Published = False, pn_OutboxID = [], pn_EventID = []\<rparr>"

type_synonym 'w PublishOutboxEventFunc = "OutboxEvent \<Rightarrow> 'w \<Rightarrow> error option \<times> 'w"

section \<open>Backoff and stored errors\<close>

text \<open>The loop of \<open>outboxBackoff\<close>, from the counter \<open>i\<close> on.\<close>

function backoffLoop :: "duration \<Rightarrow> int \<Rightarrow> int \<Rightarrow> duration \<Rightarrow> duration" where
  "backoffLoop mx attempt i delay =
     (if i < attempt then
        if mx \<le> delay then mx
        else if mx sdiv 2 < delay then mx
        else backoffLoop mx attempt (i + 1) (wrap64 (delay * 2))
      else if mx < delay then mx
      else delay)"
  by pat_completeness auto
termination by (relation "measure (\<lambda>(mx, attempt, i, delay). nat (attempt - i))") auto

declare backoffLoop.simps [simp del]

definition outboxBackoff :: "duration \<Rightarrow> duration \<Rightarrow> int \<Rightarrow> duration" where
  "outboxBackoff base mx attempt = (if attempt \<le> 1 then base else backoffLoop mx attempt 1 base)"

definition sanitizeOutboxError :: "error option \<Rightarrow> bytes" where
  "sanitizeOutboxError err =
     (let trimmed = (case err of None \<Rightarrow> [] | Some e \<Rightarrow> TrimSpace (error_text e));
          message = (if trimmed = [] then ''publication failed'' else trimmed)
      in if maxStoredOutboxErrorLength < length (runes message)
         then concat (take maxStoredOutboxErrorLength (runes message))
         else message)"

section \<open>Statements\<close>

definition due :: "pg \<Rightarrow> db \<Rightarrow> outbox_row \<Rightarrow> bool" where
  "due p d r \<longleftrightarrow> ob_status r = ''pending'' \<and> ob_next_attempt_at r \<le> pg_now p \<and>
     \<not> pg_locked p (ob_id r) \<and> has_event d (ob_event_id r)"

text \<open>The row with the least time of the next attempt and of creation. SQL leaves open which of several rows with the
  same times comes first; here it is the one inserted first.\<close>

definition selectNextPendingOutbox :: "pg \<Rightarrow> db \<Rightarrow> (outbox_row \<times> event_row) option" where
  "selectNextPendingOutbox p d =
     (case sort_key (\<lambda>r. (ob_next_attempt_at r, ob_created_at r)) (filter (due p d) (outbox d)) of
        [] \<Rightarrow> None
      | r # _ \<Rightarrow> map_option (Pair r) (find_event d (ob_event_id r)))"

definition claimNextOutboxEvent :: "pg \<Rightarrow> db \<Rightarrow> error + OutboxEvent" where
  "claimNextOutboxEvent p d =
     (case guard p SelectPending
        (case selectNextPendingOutbox p d of None \<Rightarrow> Inl ErrNoRows | Some re \<Rightarrow> Inr re) of
        Inl e \<Rightarrow>
          if errors_is e ErrNoRows then Inl e
          else Inl (ErrWrap ''claim next pending outbox event: '' e [])
      | Inr (r, e) \<Rightarrow>
          Inr \<lparr>oe_OutboxID = ob_id r, oe_EventID = ev_id e, oe_EventType = ev_event_type e,
               oe_Source = ev_source e, oe_Payload = ev_payload e,
               oe_CreatedAt = of_pg (ev_created_at e), oe_AttemptCount = ob_attempt_count r\<rparr>)"

text \<open>An \<open>UPDATE outbox ... WHERE id = $1\<close>: the number of rows and the new table.\<close>

definition update_outbox :: "bytes \<Rightarrow> (outbox_row \<Rightarrow> outbox_row) \<Rightarrow> db \<Rightarrow> nat \<times> db" where
  "update_outbox i f d =
     (length (filter (\<lambda>r. ob_id r = i) (outbox d)),
      d\<lparr>outbox := map (\<lambda>r. if ob_id r = i then f r else r) (outbox d)\<rparr>)"

definition set_published :: "pg \<Rightarrow> outbox_row \<Rightarrow> outbox_row" where
  "set_published p r = r\<lparr>ob_status := ''published'', ob_published_at := Some (pg_now p),
     ob_last_error := None, ob_updated_at := pg_now p\<rparr>"

definition markOutboxPublished :: "pg \<Rightarrow> bytes \<Rightarrow> db \<Rightarrow> error + db" where
  "markOutboxPublished p outboxID d =
     (case guard p MarkPublished (cast_uuid p outboxID) of
        Inl e \<Rightarrow> Inl (ErrWrap (''mark outbox '' @ outboxID @ '' published: '') e [])
      | Inr u \<Rightarrow>
          (case update_outbox u (set_published p) d of
             (n, d1) \<Rightarrow>
               if n \<noteq> 1 then
                 Inl (ErrNew (''mark outbox '' @ outboxID @ '' published affected '' @
                              Itoa (int n) @ '' rows''))
               else Inr d1))"

definition set_failed :: "pg \<Rightarrow> duration \<Rightarrow> bytes \<Rightarrow> outbox_row \<Rightarrow> outbox_row" where
  "set_failed p delay storedError r = r\<lparr>ob_status := ''pending'',
     ob_attempt_count := ob_attempt_count r + 1,
     ob_next_attempt_at := pg_now p + delay sdiv 1000,
     ob_last_error := Some storedError, ob_updated_at := pg_now p, ob_published_at := None\<rparr>"

definition rescheduleOutboxAfterFailure ::
    "pg \<Rightarrow> bytes \<Rightarrow> duration \<Rightarrow> bytes \<Rightarrow> db \<Rightarrow> error + db" where
  "rescheduleOutboxAfterFailure p outboxID delay storedError d =
     (case guard p Reschedule
        (case cast_uuid p outboxID of
           Inl e \<Rightarrow> Inl e
         | Inr u \<Rightarrow>
             if list_ex (\<lambda>r. ob_id r = u \<and> \<not> is_int32 (ob_attempt_count r + 1)) (outbox d)
             then Inl out_of_range
             else Inr (update_outbox u (set_failed p delay storedError) d)) of
        Inl e \<Rightarrow>
          Inl (ErrWrap (''reschedule outbox '' @ outboxID @ '' after publication failure: '') e [])
      | Inr (n, d1) \<Rightarrow>
          if n \<noteq> 1 then
            Inl (ErrNew (''reschedule outbox '' @ outboxID @ '' affected '' @ Itoa (int n) @ '' rows''))
          else Inr d1)"

section \<open>One publication\<close>

definition validatePublishNextOutboxConfig ::
    "bool \<Rightarrow> 'w PublishOutboxEventFunc option \<Rightarrow> duration \<Rightarrow> duration \<Rightarrow> error option" where
  "validatePublishNextOutboxConfig pool publish baseBackoff maxBackoff =
     (if \<not> pool then Some (ErrNew ''outbox publisher pool is required'')
      else if publish = None then Some (ErrNew ''outbox publisher function is required'')
      else if baseBackoff \<le> 0 then Some (ErrNew ''outbox publisher base backoff must be positive'')
      else if maxBackoff < baseBackoff
      then Some (ErrNew ''outbox publisher max backoff must be at least base backoff'')
      else None)"

text \<open>What follows the claim: the publication and the update of the row.\<close>

definition publishClaimed ::
    "pg \<Rightarrow> 'w PublishOutboxEventFunc \<Rightarrow> duration \<Rightarrow> duration \<Rightarrow> OutboxEvent \<Rightarrow> db \<Rightarrow> 'w \<Rightarrow>
     (PublishNextOutboxResult \<times> error option) \<times> db \<times> 'w" where
  "publishClaimed p publish baseBackoff maxBackoff event d w =
     (let result = \<lparr>pn_Found = True, pn_Published = False, pn_OutboxID = oe_OutboxID event,
                    pn_EventID = oe_EventID event\<rparr>;
          name = ''outbox '' @ oe_OutboxID event @ '' event '' @ oe_EventID event
      in case publish event w of
        (Some err, w1) \<Rightarrow>
          (let attemptNumber = wrap64 (oe_AttemptCount event + 1);
               delay = outboxBackoff baseBackoff maxBackoff attemptNumber
           in case rescheduleOutboxAfterFailure p (oe_OutboxID event) delay
                     (sanitizeOutboxError (Some err)) d of
             Inl e \<Rightarrow> ((noResult, Some e), d, w1)
           | Inr d1 \<Rightarrow>
               (case commit p d d1 of
                  (Some e, d2) \<Rightarrow>
                    ((noResult, Some (ErrWrap (''commit outbox failure state for '' @ name @ '': '') e [])),
                     d2, w1)
                | (None, d2) \<Rightarrow>
                    ((result, Some (ErrWrap [] ErrOutboxPublishFailed
                        ('': '' @ name @ '' attempt '' @ Itoa attemptNumber))), d2, w1)))
      | (None, w1) \<Rightarrow>
          (case markOutboxPublished p (oe_OutboxID event) d of
             Inl e \<Rightarrow> ((noResult, Some e), d, w1)
           | Inr d1 \<Rightarrow>
          case InsertStatusHistory p (oe_EventID event) StatusPublished None d1 of
             Inl e \<Rightarrow> ((noResult, Some e), d, w1)
           | Inr d2 \<Rightarrow>
          case commit p d d2 of
             (Some e, d3) \<Rightarrow>
               ((noResult, Some (ErrWrap (''commit published '' @ name @ '': '') e [])), d3, w1)
           | (None, d3) \<Rightarrow> ((result\<lparr>pn_Published := True\<rparr>, None), d3, w1)))"

definition PublishNextOutboxEvent ::
    "pg \<Rightarrow> bool \<Rightarrow> 'w PublishOutboxEventFunc option \<Rightarrow> duration \<Rightarrow> duration \<Rightarrow> db \<Rightarrow> 'w \<Rightarrow>
     (PublishNextOutboxResult \<times> error option) \<times> db \<times> 'w" where
  "PublishNextOutboxEvent p pool publish baseBackoff maxBackoff d w =
     (case validatePublishNextOutboxConfig pool publish baseBackoff maxBackoff of
        Some e \<Rightarrow> ((noResult, Some e), d, w)
      | None \<Rightarrow>
      case pg_fault p Begin of
        Some e \<Rightarrow> ((noResult, Some (ErrWrap ''begin publish outbox transaction: '' e [])), d, w)
      | None \<Rightarrow>
      case claimNextOutboxEvent p d of
        Inl e \<Rightarrow>
          if errors_is e ErrNoRows then
            (case pg_fault p Rollback of
               Some e2 \<Rightarrow> ((noResult, Some (ErrWrap ''rollback empty outbox transaction: '' e2 [])), d, w)
             | None \<Rightarrow> ((noResult, None), d, w))
          else ((noResult, Some e), d, w)
      | Inr event \<Rightarrow> publishClaimed p (the publish) baseBackoff maxBackoff event d w)"

section \<open>Lemmas on the backoff and the stored errors\<close>

lemma backoffLoop_eq:
  assumes "0 < delay" "is_int64 mx" "0 < mx"
  shows "backoffLoop mx attempt i delay = min mx (delay * 2 ^ nat (attempt - i))"
  using assms
proof (induction mx attempt i delay rule: backoffLoop.induct)
  case (1 mx attempt i delay)
  show ?case
  proof (cases "i < attempt")
    case True
    then have pow: "delay * 2 ^ nat (attempt - i) = (2 * delay) * 2 ^ nat (attempt - (i + 1))"
      by (simp add: nat_diff_distrib' Suc_nat_eq_nat_zadd1 flip: power_Suc)
    have ge: "2 * delay \<le> (2 * delay) * 2 ^ nat (attempt - (i + 1))" using 1(2) by simp
    have half: "mx sdiv 2 = mx div 2" using 1(4) by (simp add: sdiv_pos)
    show ?thesis
    proof (cases "mx \<le> delay \<or> mx sdiv 2 < delay")
      case True
      then have "mx \<le> 2 * delay" using 1(2) half by auto
      then have "min mx (delay * 2 ^ nat (attempt - i)) = mx"
        unfolding pow using ge by linarith
      then show ?thesis using \<open>i < attempt\<close> True by (subst backoffLoop.simps) auto
    next
      case False
      then have "2 * delay \<le> mx" using half by linarith
      then have "is_int64 (delay * 2)" using 1(2,3) by (simp add: is_int64_def)
      then have "wrap64 (delay * 2) = delay * 2" by simp
      with 1(1) [OF \<open>i < attempt\<close>] False 1(2-4) \<open>i < attempt\<close> pow show ?thesis
        by (subst backoffLoop.simps) (simp add: mult.commute)
    qed
  next
    case False
    then show ?thesis by (subst backoffLoop.simps) simp
  qed
qed

text \<open>
  C29: The outbox backoff. With a positive base that is at most the maximum, as the configuration
  check demands, the loop with its overflow guard computes \<open>min max (base * 2^(attempt-1))\<close>,
  with no wrap-around for any attempt number.
\<close>

theorem outboxBackoff_exponential:
  assumes "0 < base" "base \<le> mx" "is_int64 mx"
  shows "outboxBackoff base mx attempt = min mx (base * 2 ^ nat (attempt - 1))"
  using assms by (auto simp: outboxBackoff_def backoffLoop_eq)

theorem outboxBackoff_exponential_witness:
  "outboxBackoff 500000000 30000000000 4 = 4000000000"
  using outboxBackoff_exponential [of 500000000 30000000000 4] by simp

lemma concat_take_runes_ne:
  assumes "s \<noteq> []" "0 < n"
  shows "concat (take n (runes s)) \<noteq> []"
proof
  assume "concat (take n (runes s)) = []"
  then have "runes (concat (take n (runes s))) = []" by (simp only: runes_Nil)
  then show False using assms by (simp only: runes_concat_take) auto
qed

lemma runes_publication_failed: "length (runes ''publication failed'') = 18"
  by code_simp

text \<open>
  The error stored with a failed outbox row. It is never empty, has at most 1000 runes, and is
  the beginning of the trimmed error text, cut between runes, when that is not blank.
\<close>

theorem sanitizeOutboxError_bounded:
  "sanitizeOutboxError err \<noteq> [] \<and> length (runes (sanitizeOutboxError err)) \<le> 1000 \<and>
   (case err of
      None \<Rightarrow> True
    | Some e \<Rightarrow> runes (sanitizeOutboxError err) =
        (if TrimSpace (error_text e) = [] then runes ''publication failed''
         else take 1000 (runes (TrimSpace (error_text e)))))"
  by (auto simp: sanitizeOutboxError_def Let_def maxStoredOutboxErrorLength_def concat_take_runes_ne
          runes_publication_failed
        simp del: concat_eq_Nil_conv split: option.splits)

section \<open>What a call does\<close>

definition map_outbox :: "bytes \<Rightarrow> (outbox_row \<Rightarrow> outbox_row) \<Rightarrow> db \<Rightarrow> db" where
  "map_outbox i f d = d\<lparr>outbox := map (\<lambda>r. if ob_id r = i then f r else r) (outbox d)\<rparr>"

lemma selectNextPendingOutbox_Some:
  assumes "selectNextPendingOutbox p d = Some (r, e)"
  shows "r \<in> set (outbox d) \<and> due p d r \<and> e \<in> set (events d) \<and> ev_id e = ob_event_id r \<and>
    (\<forall>r' \<in> set (outbox d). due p d r' \<longrightarrow>
       (ob_next_attempt_at r, ob_created_at r) \<le> (ob_next_attempt_at r', ob_created_at r'))"
proof -
  let ?k = "\<lambda>r. (ob_next_attempt_at r, ob_created_at r)"
  obtain rs where rs: "sort_key ?k (filter (due p d) (outbox d)) = r # rs"
    and e: "find_event d (ob_event_id r) = Some e"
    using assms by (auto simp: selectNextPendingOutbox_def split: list.splits)
  have set_eq: "set (r # rs) = {r' \<in> set (outbox d). due p d r'}"
    by (metis rs set_filter set_sort)
  have "sorted (map ?k (r # rs))" by (metis rs sorted_sort_key)
  then have "\<forall>r' \<in> set (r # rs). ?k r \<le> ?k r'" by auto
  then show ?thesis using set_eq find_event_Some [OF e] by (metis (mono_tags, lifting) list.set_intros(1) mem_Collect_eq)
qed

lemma selectNextPendingOutbox_None:
  "selectNextPendingOutbox p d = None \<longleftrightarrow> (\<forall>r \<in> set (outbox d). \<not> due p d r)"
proof -
  let ?k = "\<lambda>r. (ob_next_attempt_at r, ob_created_at r)"
  show ?thesis
  proof (cases "sort_key ?k (filter (due p d) (outbox d))")
    case Nil
    then have "filter (due p d) (outbox d) = []" by (metis length_0_conv length_sort)
    then show ?thesis using Nil by (auto simp: selectNextPendingOutbox_def filter_empty_conv)
  next
    case (Cons r rs)
    then have "r \<in> {r' \<in> set (outbox d). due p d r'}" by (metis list.set_intros(1) set_filter set_sort)
    then have "find_event d (ob_event_id r) \<noteq> None" by (auto simp: due_def find_event_None)
    then show ?thesis using Cons \<open>r \<in> _\<close> by (auto simp: selectNextPendingOutbox_def)
  qed
qed

lemma markOutboxPublished_Inr:
  "markOutboxPublished p i d = Inr d' \<longleftrightarrow>
     (\<exists>x. pg_fault p MarkPublished = None \<and> pg_uuid p i = Some x \<and>
        length (filter (\<lambda>r. ob_id r = x) (outbox d)) = 1 \<and> d' = map_outbox x (set_published p) d)"
  by (auto simp: markOutboxPublished_def update_outbox_def map_outbox_def cast_uuid_def guard_def
      split: sum.splits option.splits if_splits)

lemma rescheduleOutboxAfterFailure_Inr:
  "rescheduleOutboxAfterFailure p i delay msg d = Inr d' \<longleftrightarrow>
     (\<exists>x. pg_fault p Reschedule = None \<and> pg_uuid p i = Some x \<and>
        (\<forall>r \<in> set (outbox d). ob_id r = x \<longrightarrow> is_int32 (ob_attempt_count r + 1)) \<and>
        length (filter (\<lambda>r. ob_id r = x) (outbox d)) = 1 \<and> d' = map_outbox x (set_failed p delay msg) d)"
  by (auto simp: rescheduleOutboxAfterFailure_def update_outbox_def map_outbox_def cast_uuid_def guard_def
      list_ex_iff split: sum.splits option.splits if_splits)

lemma map_outbox_sel [simp]:
  "events (map_outbox i f d) = events d" "history (map_outbox i f d) = history d"
  "attempts (map_outbox i f d) = attempts d" "dlq (map_outbox i f d) = dlq d"
  "history_seq (map_outbox i f d) = history_seq d" "attempts_seq (map_outbox i f d) = attempts_seq d"
  by (simp_all add: map_outbox_def)

lemma set_row_sel [simp]:
  "ob_id (set_published p r) = ob_id r" "ob_event_id (set_published p r) = ob_event_id r"
  "ob_attempt_count (set_published p r) = ob_attempt_count r"
  "ob_id (set_failed p dl msg r) = ob_id r" "ob_event_id (set_failed p dl msg r) = ob_event_id r"
  by (simp_all add: set_published_def set_failed_def)

lemma schema_map_outbox:
  assumes "schema_ok u d" and f: "\<And>r. ob_id (f r) = ob_id r \<and> ob_event_id (f r) = ob_event_id r"
    and nn: "\<And>r. 0 \<le> ob_attempt_count r \<Longrightarrow> 0 \<le> ob_attempt_count (f r)"
  shows "schema_ok u (map_outbox i f d)"
proof -
  let ?g = "\<lambda>r. if ob_id r = i then f r else r"
  have g: "ob_id \<circ> ?g = ob_id" "ob_event_id \<circ> ?g = ob_event_id" using f by auto
  have "event_ids (map_outbox i f d) = event_ids d" by (simp add: event_ids_def)
  moreover have "outbox (map_outbox i f d) = map ?g (outbox d)" by (simp add: map_outbox_def)
  moreover have "ob_event_id ` set (map ?g (outbox d)) = ob_event_id ` set (outbox d)"
    by (simp only: set_map image_comp g(2))
  ultimately show ?thesis using assms(1) f nn g
    by (auto simp: schema_defs)
qed

lemma map_outbox_row:
  assumes "schema_ok u d" "r \<in> set (outbox d)"
  shows "set (outbox (map_outbox (ob_id r) f d)) = insert (f r) (set (outbox d) - {r})"
proof -
  have "distinct (map ob_id (outbox d))" using assms(1) by (simp add: schema_defs)
  then have "r' = r" if "r' \<in> set (outbox d)" "ob_id r' = ob_id r" for r'
    using that assms(2) by (simp add: distinct_map inj_on_def)
  then have "outbox (map_outbox (ob_id r) f d) = map (\<lambda>r'. if r' = r then f r else r') (outbox d)"
    by (auto simp: map_outbox_def)
  then show ?thesis using assms(2) by auto
qed

lemma new_history_map_outbox [simp]: "new_history p (map_outbox i f d) = new_history p d"
  by (simp add: new_history_def fun_eq_iff)

definition claimed_event :: "outbox_row \<Rightarrow> event_row \<Rightarrow> OutboxEvent" where
  "claimed_event r e = \<lparr>oe_OutboxID = ob_id r, oe_EventID = ev_id e, oe_EventType = ev_event_type e,
     oe_Source = ev_source e, oe_Payload = ev_payload e,
     oe_CreatedAt = of_pg (ev_created_at e), oe_AttemptCount = ob_attempt_count r\<rparr>"

lemma claim_Inr:
  "claimNextOutboxEvent p d = Inr ev \<longleftrightarrow>
     pg_fault p SelectPending = None \<and>
     (\<exists>r e. selectNextPendingOutbox p d = Some (r, e) \<and> ev = claimed_event r e)"
  by (auto simp: claimNextOutboxEvent_def claimed_event_def guard_def
      split: sum.splits option.splits if_splits prod.splits)

lemma claimed_cast:
  assumes "selectNextPendingOutbox p d = Some (r, e)" "schema_ok u d" "pg_uuid p = u"
  shows "pg_uuid p (ob_id r) = Some (ob_id r)" "pg_uuid p (ev_id e) = Some (ev_id e)"
    "has_event d (ev_id e)"
proof -
  have "r \<in> set (outbox d)" "e \<in> set (events d)" using selectNextPendingOutbox_Some [OF assms(1)] by auto
  moreover have "keys_ok u d" using assms(2) by (simp add: schema_ok_def)
  ultimately show "pg_uuid p (ob_id r) = Some (ob_id r)" "pg_uuid p (ev_id e) = Some (ev_id e)"
    "has_event d (ev_id e)"
    unfolding keys_ok_def assms(3) by (auto simp: has_event_iff)
qed

definition published_db :: "pg \<Rightarrow> outbox_row \<Rightarrow> db \<Rightarrow> db" where
  "published_db p r d =
     add_history (new_history p d (ob_event_id r) StatusPublished None) (map_outbox (ob_id r) (set_published p) d)"

definition failed_db :: "pg \<Rightarrow> duration \<Rightarrow> duration \<Rightarrow> error \<Rightarrow> outbox_row \<Rightarrow> db \<Rightarrow> db" where
  "failed_db p b m x r d = map_outbox (ob_id r)
     (set_failed p (outboxBackoff b m (wrap64 (ob_attempt_count r + 1))) (sanitizeOutboxError (Some x))) d"

lemma publishClaimed_ok:
  assumes "publishClaimed p pub b m (claimed_event r e) d w = ((res, err), d', w')"
    and cast: "pg_uuid p (ob_id r) = Some (ob_id r)" "pg_uuid p (ev_id e) = Some (ev_id e)"
    and "ev_id e = ob_event_id r" and pub: "pub (claimed_event r e) w = (None, w1)"
  shows "w' = w1 \<and> (d' = d \<and> err \<noteq> None \<and> res = noResult \<or>
    d' = published_db p r d \<and>
      (err = None \<and> pg_fault p Commit = None \<and>
       res = \<lparr>pn_Found = True, pn_Published = True, pn_OutboxID = ob_id r, pn_EventID = ev_id e\<rparr> \<or>
       err \<noteq> None \<and> res = noResult \<and> pg_fault p Commit \<noteq> None))"
  using assms(1,4) cast pub
  by (auto simp: publishClaimed_def Let_def claimed_event_def markOutboxPublished_Inr
      InsertStatusHistory_Inr commit_def published_db_def new_history_def
      split: sum.splits option.splits if_splits)

lemma publishClaimed_failed:
  assumes "publishClaimed p pub b m (claimed_event r e) d w = ((res, err), d', w')"
    and cast: "pg_uuid p (ob_id r) = Some (ob_id r)"
    and pub: "pub (claimed_event r e) w = (Some x, w1)"
  shows "w' = w1 \<and> err \<noteq> None \<and> \<not> pn_Published res \<and> (d' = d \<and> res = noResult \<or>
    d' = failed_db p b m x r d \<and>
      (pg_fault p Commit = None \<and> errors_is (the err) ErrOutboxPublishFailed \<and>
       res = \<lparr>pn_Found = True, pn_Published = False, pn_OutboxID = ob_id r, pn_EventID = ev_id e\<rparr> \<or>
       res = noResult \<and> pg_fault p Commit \<noteq> None))"
  using assms(1) cast pub
  by (auto simp: publishClaimed_def Let_def claimed_event_def rescheduleOutboxAfterFailure_Inr
      commit_def failed_db_def noResult_def split: sum.splits option.splits if_splits)

lemma PublishNext_cases:
  assumes "PublishNextOutboxEvent p pool publish b m d w = ((res, err), d', w')"
    "schema_ok u d" "pg_uuid p = u"
  obtains (idle) "w' = w" "d' = d" "res = noResult"
  | (claimed) r e pub where "publish = Some pub" "selectNextPendingOutbox p d = Some (r, e)"
      "publishClaimed p pub b m (claimed_event r e) d w = ((res, err), d', w')"
      "ev_id e = ob_event_id r"
      "pg_uuid p (ob_id r) = Some (ob_id r)" "pg_uuid p (ev_id e) = Some (ev_id e)"
proof -
  consider "w' = w" "d' = d" "res = noResult"
    | pub ev where "publish = Some pub" "claimNextOutboxEvent p d = Inr ev"
        "publishClaimed p pub b m ev d w = ((res, err), d', w')"
    using assms(1) by (auto simp: PublishNextOutboxEvent_def validatePublishNextOutboxConfig_def
      split: sum.splits option.splits if_splits)
  then show thesis
  proof cases
    case 2
    then obtain r e where re: "selectNextPendingOutbox p d = Some (r, e)" "ev = claimed_event r e"
      by (auto simp: claim_Inr)
    then show thesis
      using claimed 2 claimed_cast [OF re(1) assms(2,3)] selectNextPendingOutbox_Some [OF re(1)] by auto
  qed (rule idle)
qed

lemma PublishNext_outcome:
  assumes "PublishNextOutboxEvent p pool publish b m d w = ((res, err), d', w')"
    "schema_ok u d" "pg_uuid p = u"
  obtains (idle) "w' = w" "d' = d" "res = noResult"
  | (claimed) r e pub o' where "publish = Some pub" "selectNextPendingOutbox p d = Some (r, e)"
      "r \<in> set (outbox d)" "ob_status r = ''pending''" "e \<in> set (events d)" "ev_id e = ob_event_id r"
      "pub (claimed_event r e) w = (o', w')"
      "d' = d \<and> err \<noteq> None \<and> res = noResult \<or>
       d' = (case o' of None \<Rightarrow> published_db p r d | Some x \<Rightarrow> failed_db p b m x r d)"
      "pn_Published res \<Longrightarrow> o' = None \<and> err = None \<and> d' = published_db p r d"
proof -
  from assms show thesis
  proof (cases rule: PublishNext_cases)
    case (claimed r e pub)
    note sel = selectNextPendingOutbox_Some [OF claimed(2)]
    obtain o' w1 where o: "pub (claimed_event r e) w = (o', w1)" by (cases "pub (claimed_event r e) w")
    show thesis
    proof (cases o')
      case None
      show thesis
        by (rule that(2) [OF claimed(1,2), of o'])
          (use publishClaimed_ok [OF claimed(3,5,6,4)] o None sel in \<open>auto simp: due_def noResult_def\<close>)
    next
      case (Some x)
      show thesis
        by (rule that(2) [OF claimed(1,2), of o'])
          (use publishClaimed_failed [OF claimed(3,5)] o Some sel in \<open>auto simp: due_def noResult_def\<close>)
    qed
  qed (rule that(1))
qed

lemma publishClaimed_no_faults:
  assumes "publishClaimed p pub b m (claimed_event r e) d w = ((res, err), d', w')" "no_faults p"
    and cast: "pg_uuid p (ob_id r) = Some (ob_id r)" "pg_uuid p (ev_id e) = Some (ev_id e)"
    and "ev_id e = ob_event_id r" and pub: "pub (claimed_event r e) w = (None, w1)"
    and "schema_ok u d" "r \<in> set (outbox d)" "has_event d (ob_event_id r)"
  shows "d' = published_db p r d \<and> err = None \<and>
    res = \<lparr>pn_Found = True, pn_Published = True, pn_OutboxID = ob_id r, pn_EventID = ev_id e\<rparr>"
proof -
  have "distinct (map ob_id (outbox d))" using assms(7) by (simp add: schema_defs)
  then have one: "length (filter (\<lambda>r'. ob_id r' = ob_id r) (outbox d)) = 1"
    using filter_unique [of ob_id "outbox d" r] assms(8) by simp
  then have mark: "markOutboxPublished p (ob_id r) d = Inr (map_outbox (ob_id r) (set_published p) d)"
    using cast assms(2) by (simp add: markOutboxPublished_Inr no_faults_def)
  have "InsertStatusHistory p (ev_id e) StatusPublished None (map_outbox (ob_id r) (set_published p) d) =
      Inr (published_db p r d)"
    using cast assms(2,5,9)
    by (simp add: InsertStatusHistory_Inr no_faults_def published_db_def has_event_def)
  then show ?thesis using assms(1,2) pub mark
    by (simp add: publishClaimed_def claimed_event_def commit_def no_faults_def Let_def)
qed

lemma outbox_published_db:
  assumes "schema_ok u d" "r \<in> set (outbox d)"
  shows "outbox (published_db p r d) = map (\<lambda>r'. if r' = r then set_published p r else r') (outbox d)"
proof -
  have "distinct (map ob_id (outbox d))" using assms(1) by (simp add: schema_defs)
  then have "r' = r" if "r' \<in> set (outbox d)" "ob_id r' = ob_id r" for r'
    using that assms(2) by (simp add: distinct_map inj_on_def)
  then show ?thesis by (auto simp: published_db_def map_outbox_def)
qed

end
