(* ===== verification/Event_Lifecycle.thy ===== *)
theory Event_Lifecycle
  imports Ingestion_Store Outbox_Publisher
begin

text \<open>
  The life of an event across the ingestion, the outbox publisher, the delivery worker's recorder
  and the redrive, all of which write to the same tables. The invariant \<open>lifecycle_ok\<close> relates the
  tables; every operation keeps it, whatever statement fails.
\<close>

section \<open>The invariant\<close>

definition statuses_ok :: "db \<Rightarrow> bool" where
  "statuses_ok d \<longleftrightarrow>
     (\<forall>x \<in> event_ids d. logged d x StatusStored \<and> logged d x StatusPendingPublication) \<and>
     (\<forall>x. logged d x StatusDelivered \<longleftrightarrow> attempted d x DeliveryOutcomeSucceeded) \<and>
     (\<forall>x. logged d x StatusRetrying \<longrightarrow> attempted d x DeliveryOutcomeFailed)"

definition outbox_ok :: "db \<Rightarrow> bool" where
  "outbox_ok d \<longleftrightarrow>
     ob_event_id ` set (outbox d) = event_ids d \<and>
     (\<forall>r \<in> set (outbox d).
        (ob_status r = ''pending'' \<and> ob_published_at r = None \<and> \<not> logged d (ob_event_id r) StatusPublished) \<or>
        (ob_status r = ''published'' \<and> ob_published_at r \<noteq> None \<and> ob_last_error r = None \<and>
         logged d (ob_event_id r) StatusPublished))"

definition dlq_ok :: "db \<Rightarrow> bool" where
  "dlq_ok d \<longleftrightarrow>
     (\<forall>x. logged d x StatusDeadLettered \<longleftrightarrow> x \<in> q_event_id ` set (dlq d)) \<and>
     (\<forall>q \<in> set (dlq d). attempted d (q_event_id q) DeliveryOutcomeFailed \<and>
        (q_status q = DLQStatusOpen \<and> q_redriven_at q = None \<or>
         q_status q = DLQStatusRedriven \<and> q_redriven_at q \<noteq> None \<and>
         logged d (q_event_id q) StatusRedriven))"

definition lifecycle_ok :: "(bytes \<Rightarrow> bytes option) \<Rightarrow> db \<Rightarrow> bool" where
  "lifecycle_ok u d \<longleftrightarrow> schema_ok u d \<and> statuses_ok d \<and> outbox_ok d \<and> dlq_ok d"

lemmas lifecycle_defs = statuses_ok_def outbox_ok_def dlq_ok_def

lemma lifecycle_empty: "lifecycle_ok u empty_db"
  unfolding lifecycle_ok_def
  by (auto simp: schema_empty lifecycle_defs logged_def attempted_def event_ids_def)
    (simp_all add: empty_db_def)

lemma lifecycle_history:
  assumes "lifecycle_ok u d" "has_event d x" "st = StatusProcessing"
  shows "lifecycle_ok u (add_history (new_history p d x st det) d)"
proof -
  have "schema_ok u (add_history (new_history p d x st det) d)"
    using assms by (intro schema_add_history) (auto simp: lifecycle_ok_def)
  moreover have "statuses_ok d \<Longrightarrow> statuses_ok (add_history (new_history p d x st det) d)"
    unfolding statuses_ok_def assms(3) logged_add_history by (auto simp: status_consts)
  moreover have "outbox_ok d \<Longrightarrow> outbox_ok (add_history (new_history p d x st det) d)"
    unfolding outbox_ok_def assms(3) logged_add_history by (auto simp: status_consts)
  moreover have "dlq_ok d \<Longrightarrow> dlq_ok (add_history (new_history p d x st det) d)"
    unfolding dlq_ok_def assms(3) logged_add_history by (auto simp: status_consts)
  ultimately show ?thesis using assms(1) by (simp add: lifecycle_ok_def)
qed

text \<open>What an attempt and the status that goes with it do to the invariant.\<close>

lemma lifecycle_attempt:
  assumes "lifecycle_ok u d" "has_event d x" "0 < ar_AttemptNumber r"
    "oc = DeliveryOutcomeSucceeded \<and> st = StatusDelivered \<or> oc = DeliveryOutcomeFailed \<and> st = StatusRetrying"
  shows "lifecycle_ok u (add_history (new_history p d x st det) (add_attempt p' r x oc d))"
    (is "lifecycle_ok u (add_history ?h ?d)")
proof -
  have h: "?h = new_history p ?d x st det" by (simp add: new_history_def)
  have "schema_ok u (add_history ?h ?d)" unfolding h
    using assms by (intro schema_add_history schema_add_attempt) (auto simp: lifecycle_ok_def has_event_def)
  moreover have "statuses_ok d \<Longrightarrow> statuses_ok (add_history ?h ?d)"
    using assms(4) unfolding statuses_ok_def logged_add_history
    by (auto simp: stored_consts attempted_add_attempt)
  moreover have "outbox_ok d \<Longrightarrow> outbox_ok (add_history ?h ?d)"
    using assms(4) unfolding outbox_ok_def logged_add_history by (auto simp: status_consts)
  moreover have "dlq_ok d \<Longrightarrow> dlq_ok (add_history ?h ?d)"
    using assms(4) unfolding dlq_ok_def logged_add_history
    by (auto simp: status_consts attempted_add_attempt)
  ultimately show ?thesis using assms(1) by (simp add: lifecycle_ok_def)
qed

lemma lifecycle_dead_letter:
  assumes "lifecycle_ok u d" "has_event d x" "0 < ar_AttemptNumber r"
    and d1: "d1 = add_attempt p' r x DeliveryOutcomeFailed d"
  shows "lifecycle_ok u (add_history (new_history p d1 x StatusDeadLettered det)
           (d1\<lparr>dlq := put_dlq (open_dlq p r x os) (dlq d)\<rparr>))"
    (is "lifecycle_ok u (add_history ?h ?d)")
proof -
  have h: "?h = new_history p ?d x StatusDeadLettered det" by (simp add: new_history_def)
  have dist: "distinct (map q_event_id (dlq d))" using assms(1) by (simp add: lifecycle_ok_def schema_defs)
  have "schema_ok u d1" using assms by (auto simp: lifecycle_ok_def intro: schema_add_attempt)
  then have "schema_ok u ?d" using assms(2,3) schema_put_dlq [of u d1 "open_dlq p r x os"]
    by (simp add: d1 open_dlq_def has_event_def)
  then have "schema_ok u (add_history ?h ?d)" unfolding h
    using assms(2) by (intro schema_add_history) (auto simp: d1 has_event_def)
  moreover have "statuses_ok d \<Longrightarrow> statuses_ok (add_history ?h ?d)"
    unfolding statuses_ok_def logged_add_history d1
    by (auto simp: stored_consts attempted_add_attempt)
  moreover have "outbox_ok d \<Longrightarrow> outbox_ok (add_history ?h ?d)"
    unfolding outbox_ok_def logged_add_history d1 by (auto simp: status_consts)
  moreover have "dlq_ok d \<Longrightarrow> dlq_ok (add_history ?h ?d)"
    unfolding dlq_ok_def logged_add_history d1
    by (auto simp: stored_consts attempted_add_attempt set_put_dlq [OF dist] ids_put_dlq open_dlq_def)
  ultimately show ?thesis using assms(1) by (simp add: lifecycle_ok_def)
qed

lemma lifecycle_redrive:
  assumes "lifecycle_ok u d" "has_event d x"
  shows "lifecycle_ok u (add_history (new_history p d x StatusRedriven det)
           (d\<lparr>dlq := map (set_redriven p x) (dlq d)\<rparr>))"
    (is "lifecycle_ok u (add_history ?h ?d)")
proof -
  have h: "?h = new_history p ?d x StatusRedriven det" by (simp add: new_history_def)
  have ids: "q_event_id ` set_redriven p x ` Q = q_event_id ` Q" for Q by (auto simp: image_iff)
  have "q_event_id \<circ> set_redriven p x = q_event_id" by auto
  then have "schema_ok u ?d" using assms(1)
    by (auto simp: lifecycle_ok_def schema_defs event_ids_def) (auto simp: set_redriven_def split: if_splits)
  then have "schema_ok u (add_history ?h ?d)" unfolding h
    using assms(2) by (intro schema_add_history) (auto simp: has_event_def)
  moreover have "statuses_ok d \<Longrightarrow> statuses_ok (add_history ?h ?d)"
    unfolding statuses_ok_def logged_add_history by (auto simp: stored_consts)
  moreover have "outbox_ok d \<Longrightarrow> outbox_ok (add_history ?h ?d)"
    unfolding outbox_ok_def logged_add_history by (auto simp: status_consts)
  moreover have "dlq_ok d \<Longrightarrow> dlq_ok (add_history ?h ?d)"
    unfolding dlq_ok_def logged_add_history
    by (simp add: ids) (auto simp: stored_consts set_redriven_def)
  ultimately show ?thesis using assms(1) by (simp add: lifecycle_ok_def)
qed

lemma lifecycle_published:
  assumes "lifecycle_ok u d" "r \<in> set (outbox d)" "x = ob_event_id r" "ob_status r = ''pending''"
  shows "lifecycle_ok u (add_history (new_history p d x StatusPublished det)
           (map_outbox (ob_id r) (set_published p) d))"
    (is "lifecycle_ok u (add_history ?h ?d)")
proof -
  have sch: "schema_ok u d" using assms(1) by (simp add: lifecycle_ok_def)
  have h: "?h = new_history p ?d x StatusPublished det" by (simp add: new_history_def)
  have ids: "event_ids ?d = event_ids d" by (simp add: event_ids_def)
  have lg: "logged ?d = logged d" "attempted ?d = attempted d" by (simp_all add: logged_def attempted_def fun_eq_iff)
  note row = map_outbox_row [OF sch assms(2), of "set_published p"]
  have uniq: "r' = r" if "r' \<in> set (outbox d)" "ob_event_id r' = x" for r'
    using sch that assms(2,3) by (simp add: schema_defs distinct_map inj_on_def)
  have "schema_ok u ?d" using sch by (intro schema_map_outbox) auto
  then have "schema_ok u (add_history ?h ?d)" unfolding h
    using assms(2,3) sch by (intro schema_add_history) (auto simp: has_event_iff schema_defs event_ids_def)
  moreover have "statuses_ok d \<Longrightarrow> statuses_ok (add_history ?h ?d)"
    unfolding statuses_ok_def logged_add_history by (auto simp: stored_consts ids lg)
  moreover have "outbox_ok d \<Longrightarrow> outbox_ok (add_history ?h ?d)"
    unfolding outbox_ok_def logged_add_history using assms(2,3) uniq
    by (auto simp: ids lg row) (auto simp: set_published_def)
  moreover have "dlq_ok d \<Longrightarrow> dlq_ok (add_history ?h ?d)"
    unfolding dlq_ok_def logged_add_history by (auto simp: stored_consts lg)
  ultimately show ?thesis using assms(1) by (simp add: lifecycle_ok_def)
qed

lemma lifecycle_failed:
  assumes "lifecycle_ok u d" "r \<in> set (outbox d)" "ob_status r = ''pending''"
  shows "lifecycle_ok u (map_outbox (ob_id r) (set_failed p dl msg) d)"
    (is "lifecycle_ok u ?d")
proof -
  have sch: "schema_ok u d" using assms(1) by (simp add: lifecycle_ok_def)
  have ids: "event_ids ?d = event_ids d" by (simp add: event_ids_def)
  have lg: "logged ?d = logged d" "attempted ?d = attempted d" by (simp_all add: logged_def attempted_def fun_eq_iff)
  note row = map_outbox_row [OF sch assms(2), of "set_failed p dl msg"]
  have "schema_ok u ?d" using sch by (intro schema_map_outbox) (auto simp: set_failed_def)
  moreover have "outbox_ok d \<Longrightarrow> outbox_ok ?d"
    unfolding outbox_ok_def using assms(2,3)
    by (auto simp: ids lg row) (auto simp: set_failed_def)
  ultimately show ?thesis using assms(1) by (simp add: lifecycle_ok_def statuses_ok_def dlq_ok_def ids lg)
qed

lemma lifecycle_persisted:
  assumes "lifecycle_ok u d" "server u p" "\<not> has_event d (ev_id r)" "ev_id r = pg_event_id p"
    "pg_outbox_id p \<notin> ob_id ` set (outbox d)"
    and key: "\<And>k. ev_idempotency_key r = Some k \<Longrightarrow> find_by_key (ev_source r) k d = None"
  shows "lifecycle_ok u (persisted p r d)"
proof -
  define d1 where "d1 = d\<lparr>events := events d @ [r],
           outbox := outbox d @ [\<lparr>ob_id = pg_outbox_id p, ob_event_id = ev_id r, ob_status = ''pending'',
                          ob_attempt_count = 0, ob_next_attempt_at = pg_now p,
                          ob_published_at = None, ob_last_error = None,
                          ob_created_at = pg_now p, ob_updated_at = pg_now p\<rparr>]\<rparr>"
  define d2 where "d2 = add_history (new_history p d1 (ev_id r) StatusStored None) d1"
  have P: "persisted p r d = add_history (new_history p d2 (ev_id r) StatusPendingPublication None) d2"
    by (simp add: persisted_def Let_def d1_def d2_def)
  have sch: "schema_ok u d" using assms(1) by (simp add: lifecycle_ok_def)
  have fresh: "ev_id r \<notin> event_ids d" using assms(3) by (simp add: event_ids_has)
  have ids: "event_ids d1 = insert (ev_id r) (event_ids d)" by (auto simp: d1_def event_ids_def)
  have other: "\<forall>e \<in> set (events d). ev_source e = ev_source r \<and>
      ev_idempotency_key e = ev_idempotency_key r \<longrightarrow> ev_idempotency_key e = None"
    using key by (cases "ev_idempotency_key r") (auto simp: find_by_key_None)
  have K: "keys_ok u d" using sch by (simp add: schema_ok_def)
  have "\<forall>e \<in> insert r (set (events d)). \<forall>e' \<in> insert r (set (events d)).
      ev_source e = ev_source e' \<and> ev_idempotency_key e = ev_idempotency_key e' \<and>
      ev_idempotency_key e \<noteq> None \<longrightarrow> e = e'"
    using K other unfolding keys_ok_def by (metis insertE)
  moreover have "ev_id r \<notin> ob_event_id ` set (outbox d)"
    using sch fresh by (auto simp: schema_defs)
  ultimately have "keys_ok u d1" using K assms(2,4,5) fresh
    unfolding keys_ok_def server_def by (simp add: d1_def event_ids_def)
  moreover have "refs_ok d1" using sch unfolding refs_ok_def ids
    by (auto simp: d1_def schema_defs)
  ultimately have "schema_ok u d1" using sch
    by (auto simp: d1_def schema_ok_def checks_ok_def sequences_ok_def)
  then have "schema_ok u d2" unfolding d2_def
    by (intro schema_add_history) (auto simp: event_ids_has ids)
  then have "schema_ok u (persisted p r d)" unfolding P
    by (intro schema_add_history) (auto simp: event_ids_has ids d2_def)
  have lg: "logged (persisted p r d) x st \<longleftrightarrow> logged d x st \<or> x = ev_id r \<and>
      (st = StatusStored \<or> st = StatusPendingPublication)" for x st
    by (auto simp: P d2_def logged_add_history) (auto simp: logged_def d1_def)
  have at: "attempted (persisted p r d) = attempted d"
    by (simp add: attempted_def fun_eq_iff)
  have ids': "event_ids (persisted p r d) = insert (ev_id r) (event_ids d)"
    by (simp add: P d2_def ids)
  have fresh_log: "\<not> logged d (ev_id r) st" for st
    using logged_known [OF sch] fresh by blast
  have ob: "outbox (persisted p r d) = outbox d1" by (simp add: P d2_def)
  have "statuses_ok d \<Longrightarrow> statuses_ok (persisted p r d)"
    unfolding statuses_ok_def lg at ids' by (auto simp: status_consts)
  moreover have "outbox_ok d \<Longrightarrow> outbox_ok (persisted p r d)"
    unfolding outbox_ok_def lg ids' ob by (auto simp: d1_def fresh_log) (auto simp: status_consts)
  moreover have "dlq_ok d \<Longrightarrow> dlq_ok (persisted p r d)"
    unfolding dlq_ok_def lg at by (auto simp: status_consts)
  ultimately show ?thesis using assms(1) \<open>schema_ok u (persisted p r d)\<close>
    by (simp add: lifecycle_ok_def)
qed

lemma Persist_lifecycle:
  assumes "lifecycle_ok u d" "server u p"
  shows "lifecycle_ok u (snd (PersistEventWithOutbox lib p req key d))"
proof -
  obtain res d' where r: "PersistEventWithOutbox lib p req key d = (res, d')" by force
  from this assms(2) have "lifecycle_ok u d'"
  proof (cases rule: Persist_cases)
    case (created h)
    then show ?thesis using assms
      by (auto simp: new_event_row_def intro!: lifecycle_persisted)
  qed (use assms in auto)
  then show ?thesis using r by simp
qed

lemma PublishNext_lifecycle:
  assumes "lifecycle_ok u d" "pg_uuid p = u"
  shows "lifecycle_ok u (fst (snd (PublishNextOutboxEvent p pool publish b m d w)))"
proof -
  obtain res err d' w' where run: "PublishNextOutboxEvent p pool publish b m d w = ((res, err), d', w')"
    by (metis prod.collapse)
  have sch: "schema_ok u d" using assms(1) by (simp add: lifecycle_ok_def)
  from run sch assms(2) have "lifecycle_ok u d'"
    by (cases rule: PublishNext_outcome)
      (auto simp: published_db_def failed_db_def assms(1) split: option.splits
        intro!: lifecycle_published lifecycle_failed)
  then show ?thesis using run by simp
qed

section \<open>Transactions of the recorder\<close>

locale transaction_body =
  fixes u :: "bytes \<Rightarrow> bytes option" and inv :: "db \<Rightarrow> bool" and body :: "pg \<Rightarrow> db \<Rightarrow> error + db"
  assumes keeps: "server u p \<Longrightarrow> inv d \<Longrightarrow> body p d = Inr d' \<Longrightarrow> inv d'"
begin

lemma transaction_keeps:
  assumes "server u p" "inv d"
  shows "inv (snd (inTransaction p (body p) d))"
  using inTransaction_cases [of p "body p" d "fst (inTransaction p (body p) d)"] keeps [OF assms] assms(2)
  by (metis prod.collapse)

end

interpretation processing: transaction_body u "lifecycle_ok u"
  "\<lambda>p. InsertStatusHistory p e StatusProcessing det" for u e det
  by unfold_locales (auto simp: InsertStatusHistory_Inr intro: lifecycle_history)

interpretation delivered: transaction_body u "lifecycle_ok u" "deliveredBody r" for u r
  by unfold_locales
    (auto simp: deliveredBody_def insertDeliveryAttempt_Inr InsertStatusHistory_Inr
      split: sum.splits intro!: lifecycle_attempt)

interpretation retrying: transaction_body u "lifecycle_ok u" "retryingBody r" for u r
  by unfold_locales
    (auto simp: retryingBody_def insertDeliveryAttempt_Inr InsertStatusHistory_Inr
      split: sum.splits intro!: lifecycle_attempt)

interpretation dead_lettered: transaction_body u "lifecycle_ok u" "deadLetteredBody r os" for u r os
proof unfold_locales
  fix p d d' assume "lifecycle_ok u d" "deadLetteredBody r os p d = Inr d'"
  then show "lifecycle_ok u d'"
    using lifecycle_dead_letter [of u d _ r _ p]
    by (auto simp: deadLetteredBody_def insertDeliveryAttempt_Inr InsertStatusHistory_Inr upsertDLQ_Inr
        split: sum.splits)
qed

lemma recorder_keeps:
  assumes "server u p" "lifecycle_ok u d"
  shows "lifecycle_ok u (snd (RecordProcessing p s pr d))"
    "lifecycle_ok u (snd (RecordDelivered p s ar d))"
    "lifecycle_ok u (snd (RecordRetrying p s rt d))"
    "lifecycle_ok u (snd (RecordDeadLettered p s dl d))"
  using assms processing.transaction_keeps [OF assms] delivered.transaction_keeps [OF assms]
    retrying.transaction_keeps [OF assms] dead_lettered.transaction_keeps [OF assms]
  by (simp_all add: RecordProcessing_def RecordDelivered_def RecordRetrying_def
      RecordDeadLettered_def Let_def)

lemma RedriveDLQ_lifecycle:
  assumes "lifecycle_ok u d"
  shows "lifecycle_ok u (fst (snd (RedriveDLQ p s e pub d w)))"
proof -
  obtain res d' w' where run: "RedriveDLQ p s e pub d w = (res, d', w')" by (metis prod.collapse)
  then have "lifecycle_ok u d'"
    by (cases rule: RedriveDLQ_outcome) (auto simp: has_event_iff intro!: lifecycle_redrive assms)
  then show ?thesis using run by simp
qed

end
