(* ===== verification/Event_Machine.thy ===== *)
theory Event_Machine
  imports Event_Lifecycle
begin

text \<open>
  The system as a state machine. A state is the tables, the state of the broker and the list of the
  messages the broker has reported as accepted; a step is one call of an operation that writes to the tables,
  with any server, any arguments and any publisher, or a change of the broker by its consumers.
  The invariants of the reachable states give the properties of the system over time:
  idempotent ingestion and at-least-once publication.
\<close>

section \<open>Steps\<close>

text \<open>The publications that the broker reported as accepted, and the publishers with this record. An entry
  that was accepted without the publisher learning of it is not in the record; \<open>Stream_Copies\<close> counts those.\<close>

datatype sent = SentOutbox bytes | SentRedrive bytes

type_synonym 'w observed = "'w \<times> sent list"

definition observed :: "'w PublishOutboxEventFunc \<Rightarrow> 'w observed PublishOutboxEventFunc" where
  "observed pub event s =
     (case s of (w, log) \<Rightarrow>
        (case pub event w of
           (None, w1) \<Rightarrow> (None, (w1, log @ [SentOutbox (oe_EventID event)]))
         | (Some e, w1) \<Rightarrow> (Some e, (w1, log))))"

definition observedRedrive :: "'w RedrivePublisher \<Rightarrow> 'w observed RedrivePublisher" where
  "observedRedrive pub values s =
     (case s of (w, log) \<Rightarrow>
        (case pub values w of
           (Inr sid, w1) \<Rightarrow> (Inr sid, (w1, log @ [SentRedrive (case field_string values ''event_id'' of Some t \<Rightarrow> t | None \<Rightarrow> [])]))
         | (Inl e, w1) \<Rightarrow> (Inl e, (w1, log))))"

inductive sys_step :: "(pg \<Rightarrow> bool) \<Rightarrow> db \<times> 'w observed \<Rightarrow> db \<times> 'w observed \<Rightarrow> bool" for srv where
  ingest: "srv p \<Longrightarrow> PersistEventWithOutbox lib p req key d = (res, d') \<Longrightarrow> sys_step srv (d, s) (d', s)"
| publish: "srv p \<Longrightarrow> PublishNextOutboxEvent p pool (map_option observed pub) b m d s = (r, d', s') \<Longrightarrow>
     sys_step srv (d, s) (d', s')"
| processing: "srv p \<Longrightarrow> RecordProcessing p st pr d = (e, d') \<Longrightarrow> sys_step srv (d, s) (d', s)"
| delivered: "srv p \<Longrightarrow> RecordDelivered p st ar d = (e, d') \<Longrightarrow> sys_step srv (d, s) (d', s)"
| retrying: "srv p \<Longrightarrow> RecordRetrying p st rt d = (e, d') \<Longrightarrow> sys_step srv (d, s) (d', s)"
| deadLettered: "srv p \<Longrightarrow> RecordDeadLettered p st dl d = (e, d') \<Longrightarrow> sys_step srv (d, s) (d', s)"
| redrive: "srv p \<Longrightarrow> RedriveDLQ p st e (map_option observedRedrive rpub) d s = (res, d', s') \<Longrightarrow>
     sys_step srv (d, s) (d', s')"
| broker: "sys_step srv (d, (w, log)) (d, (w', log))"

inductive_cases sys_step_cases: "sys_step srv (d, s) (d', s')"

definition sys_reach :: "(pg \<Rightarrow> bool) \<Rightarrow> db \<times> 'w observed \<Rightarrow> db \<times> 'w observed \<Rightarrow> bool" where
  "sys_reach srv = (sys_step srv)\<^sup>*\<^sup>*"

definition extends :: "db \<Rightarrow> db \<Rightarrow> bool" where
  "extends d d' \<longleftrightarrow> prefix (events d) (events d') \<and> prefix (history d) (history d') \<and>
     prefix (attempts d) (attempts d') \<and> prefix (map ob_id (outbox d)) (map ob_id (outbox d')) \<and>
     q_event_id ` set (dlq d) \<subseteq> q_event_id ` set (dlq d')"

definition sent_ok :: "db \<Rightarrow> sent list \<Rightarrow> bool" where
  "sent_ok d log \<longleftrightarrow>
     (\<forall>r \<in> set (outbox d). ob_status r = ''published'' \<longrightarrow> SentOutbox (ob_event_id r) \<in> set log) \<and>
     (\<forall>q \<in> set (dlq d). q_status q = DLQStatusRedriven \<longrightarrow> SentRedrive (q_event_id q) \<in> set log)"

text \<open>Without faults of the database: the row of an event is published exactly when the log has it, once.\<close>

definition once_ok :: "db \<Rightarrow> sent list \<Rightarrow> bool" where
  "once_ok d log \<longleftrightarrow>
     (\<forall>x. length (filter (\<lambda>s. s = SentOutbox x) log) =
        (if list_ex (\<lambda>r. ob_event_id r = x \<and> ob_status r = ''published'') (outbox d) then 1 else 0))"

definition same_outbox :: "db \<Rightarrow> db \<Rightarrow> bool" where
  "same_outbox d d' \<longleftrightarrow> outbox d' = outbox d \<and> (\<forall>q \<in> set (dlq d'). q \<in> set (dlq d) \<or> q_status q = DLQStatusOpen)"

definition due_rows :: "pg \<Rightarrow> db \<Rightarrow> outbox_row list" where
  "due_rows p d = sort_key (\<lambda>r. (ob_next_attempt_at r, ob_created_at r)) (filter (due p d) (outbox d))"

fun publish_times :: "nat \<Rightarrow> pg \<Rightarrow> 'w PublishOutboxEventFunc \<Rightarrow> duration \<Rightarrow> duration \<Rightarrow> db \<Rightarrow> 'w \<Rightarrow> db \<times> 'w" where
  "publish_times 0 p pub b m d w = (d, w)"
| "publish_times (Suc n) p pub b m d w =
     (case PublishNextOutboxEvent p True (Some pub) b m d w of
        (_, d1, w1) \<Rightarrow> publish_times n p pub b m d1 w1)"

section \<open>Every step keeps the invariant\<close>

lemma sys_step_lifecycle:
  assumes "sys_step srv c c'" "\<And>p. srv p \<Longrightarrow> server u p" "lifecycle_ok u (fst c)"
  shows "lifecycle_ok u (fst c')"
  using assms
proof (induction rule: sys_step.induct)
  case (ingest p lib req key d res d' s)
  then show ?case using Persist_lifecycle [of u d p lib req key] by simp
next
  case (publish p pool pub b m d s r d' s')
  then show ?case using PublishNext_lifecycle [of u d p pool "map_option observed pub" b m s]
    by (simp add: server_def)
next
  case (redrive p st e rpub d s res d' s')
  then show ?case using RedriveDLQ_lifecycle [of u d p st e "map_option observedRedrive rpub" s] by simp
next
  case (processing p st pr d e d' s)
  then show ?case using recorder_keeps(1) [of u p d st pr] by simp
next
  case (delivered p st ar d e d' s)
  then show ?case using recorder_keeps(2) [of u p d st ar] by simp
next
  case (retrying p st rt d e d' s)
  then show ?case using recorder_keeps(3) [of u p d st rt] by simp
next
  case (deadLettered p st dl d e d' s)
  then show ?case using recorder_keeps(4) [of u p d st dl] by simp
qed simp

lemma sys_reach_induct [consumes 1, case_names refl step]:
  assumes "sys_reach srv c c'" "P c" "\<And>c1 c2. sys_reach srv c c1 \<Longrightarrow> sys_step srv c1 c2 \<Longrightarrow> P c1 \<Longrightarrow> P c2"
  shows "P c'"
  using assms(1) unfolding sys_reach_def
  by (induction rule: rtranclp_induct) (use assms(2,3) in \<open>auto simp: sys_reach_def\<close>)

lemma sys_reach_lifecycle:
  assumes "sys_reach srv c c'" "\<And>p. srv p \<Longrightarrow> server u p" "lifecycle_ok u (fst c)"
  shows "lifecycle_ok u (fst c')"
  using assms(1)
proof (induction rule: sys_reach_induct)
  case refl show ?case by (rule assms(3))
next
  case (step c1 c2)
  show ?case using sys_step_lifecycle [OF step(2) assms(2) step(3)] .
qed

section \<open>The logs only grow\<close>

lemma extends_refl [simp]: "extends d d" by (simp add: extends_def)

lemma extends_trans: "extends a b \<Longrightarrow> extends b c \<Longrightarrow> extends a c"
  unfolding extends_def by (meson prefix_order.trans subset_trans)

lemma extends_intros:
  "extends d d1 \<Longrightarrow> extends d (add_history h d1)"
  "extends d d1 \<Longrightarrow> extends d (add_attempt p r x oc d1)"
  "extends d d1 \<Longrightarrow> extends d (d1\<lparr>dlq := put_dlq q (dlq d1)\<rparr>)"
  "extends d d1 \<Longrightarrow> extends d (d1\<lparr>dlq := map (set_redriven p x) (dlq d1)\<rparr>)"
  "extends d d1 \<Longrightarrow> (\<And>r. ob_id (f r) = ob_id r) \<Longrightarrow> extends d (map_outbox i f d1)"
proof -
  assume "extends d d1"
  moreover have "extends d1 (add_history h d1)" by (simp add: extends_def)
  ultimately show "extends d (add_history h d1)" by (rule extends_trans)
next
  assume "extends d d1"
  moreover have "extends d1 (add_attempt p r x oc d1)"
    by (simp add: extends_def) (simp add: add_attempt_def)
  ultimately show "extends d (add_attempt p r x oc d1)" by (rule extends_trans)
next
  assume "extends d d1"
  moreover have "extends d1 (d1\<lparr>dlq := put_dlq q (dlq d1)\<rparr>)"
    by (simp add: extends_def ids_put_dlq subset_insertI)
  ultimately show "extends d (d1\<lparr>dlq := put_dlq q (dlq d1)\<rparr>)" by (rule extends_trans)
next
  assume "extends d d1"
  moreover have "extends d1 (d1\<lparr>dlq := map (set_redriven p x) (dlq d1)\<rparr>)"
    by (auto simp: extends_def image_iff)
  ultimately show "extends d (d1\<lparr>dlq := map (set_redriven p x) (dlq d1)\<rparr>)" by (rule extends_trans)
next
  assume "extends d d1" "\<And>r. ob_id (f r) = ob_id r"
  moreover from this(2) have "map ob_id (outbox (map_outbox i f d1)) = map ob_id (outbox d1)"
    by (simp add: map_outbox_def)
  then have "extends d1 (map_outbox i f d1)" by (simp add: extends_def)
  ultimately show "extends d (map_outbox i f d1)" by (metis extends_trans)
qed

lemma extends_persisted: "extends d (persisted p r d)"
  by (simp add: extends_def persisted_def Let_def)

lemma extends_transaction:
  "(\<And>d'. fn d = Inr d' \<Longrightarrow> extends d d') \<Longrightarrow> extends d (snd (inTransaction p fn d))"
  using inTransaction_cases [of p fn d "fst (inTransaction p fn d)" "snd (inTransaction p fn d)"] by auto

lemma statement_extends:
  "InsertStatusHistory p e st det d = Inr d' \<Longrightarrow> extends d d'"
  "insertDeliveryAttempt p r oc d = Inr d' \<Longrightarrow> extends d d'"
  "upsertDLQ p r os d = Inr d' \<Longrightarrow> extends d d'"
  by (auto simp: InsertStatusHistory_Inr insertDeliveryAttempt_Inr upsertDLQ_Inr intro: extends_intros)

lemma body_extends:
  "deliveredBody ar p d = Inr d' \<Longrightarrow> extends d d'"
  "retryingBody rt p d = Inr d' \<Longrightarrow> extends d d'"
  "deadLetteredBody dl os p d = Inr d' \<Longrightarrow> extends d d'"
  unfolding deliveredBody_def retryingBody_def deadLetteredBody_def
  by (auto split: sum.splits dest!: statement_extends intro: extends_trans)

lemma recorder_extends:
  "extends d (snd (RecordProcessing p s pr d))" "extends d (snd (RecordDelivered p s ar d))"
  "extends d (snd (RecordRetrying p s rt d))" "extends d (snd (RecordDeadLettered p s dl d))"
  by (simp_all add: RecordProcessing_def RecordDelivered_def RecordRetrying_def RecordDeadLettered_def
      Let_def extends_transaction body_extends statement_extends(1))


lemma sys_step_extends:
  assumes "sys_step srv c c'" "\<And>p. srv p \<Longrightarrow> server u p" "lifecycle_ok u (fst c)"
  shows "extends (fst c) (fst c')"
  using assms
proof (induction rule: sys_step.induct)
  case (ingest p lib req key d res d' s)
  from ingest(2) ingest(3) [OF ingest(1)] show ?case
    by (cases rule: Persist_cases) (auto intro: extends_persisted)
next
  case (publish p pool pub b m d s r d' s')
  have sch: "schema_ok u d" "pg_uuid p = u"
    using publish(1,3,4) by (auto simp: lifecycle_ok_def server_def)
  obtain res err where r: "r = (res, err)" by force
  from publish(2) [unfolded r] sch show ?case
    by (cases rule: PublishNext_outcome)
      (auto simp: published_db_def failed_db_def split: option.splits intro!: extends_intros)
next
  case (redrive p st e rpub d s res d' s')
  from redrive(2) show ?case by (cases rule: RedriveDLQ_outcome) (auto intro!: extends_intros)
next
  case (processing p st pr d e d' s)
  then show ?case using recorder_extends(1) [of d p st pr] by simp
next
  case (delivered p st ar d e d' s)
  then show ?case using recorder_extends(2) [of d p st ar] by simp
next
  case (retrying p st rt d e d' s)
  then show ?case using recorder_extends(3) [of d p st rt] by simp
next
  case (deadLettered p st dl d e d' s)
  then show ?case using recorder_extends(4) [of d p st dl] by simp
qed simp

lemma sys_reach_extends:
  assumes "sys_reach srv c c'" "\<And>p. srv p \<Longrightarrow> server u p" "lifecycle_ok u (fst c)"
  shows "extends (fst c) (fst c')"
  using assms(1)
proof (induction rule: sys_reach_induct)
  case (step c1 c2)
  have "lifecycle_ok u (fst c1)" using sys_reach_lifecycle [OF step(1) assms(2,3)] .
  then show ?case using sys_step_extends [OF step(2) assms(2)] step(3) extends_trans by blast
qed simp

section \<open>Publications\<close>

lemma field_redrive: "field_string (redriveValues (event_metadata ev)) ''event_id'' = Some (ev_id ev)"
  by (simp add: field_string_def redriveValues_def str_fields_def event_metadata_def)

lemma same_outbox_transaction:
  "(\<And>d'. fn d = Inr d' \<Longrightarrow> same_outbox d d') \<Longrightarrow> same_outbox d (snd (inTransaction p fn d))"
  using inTransaction_cases [of p fn d "fst (inTransaction p fn d)" "snd (inTransaction p fn d)"]
  by (auto simp: same_outbox_def)

lemma recorder_same_outbox:
  "same_outbox d (snd (RecordProcessing p s pr d))" "same_outbox d (snd (RecordDelivered p s ar d))"
  "same_outbox d (snd (RecordRetrying p s rt d))" "same_outbox d (snd (RecordDeadLettered p s dl d))"
proof -
  have "same_outbox d d" by (simp add: same_outbox_def)
  then show "same_outbox d (snd (RecordProcessing p s pr d))" "same_outbox d (snd (RecordDelivered p s ar d))"
    "same_outbox d (snd (RecordRetrying p s rt d))" "same_outbox d (snd (RecordDeadLettered p s dl d))"
    unfolding RecordProcessing_def RecordDelivered_def RecordRetrying_def RecordDeadLettered_def Let_def
    by (auto simp: same_outbox_def deliveredBody_def retryingBody_def deadLetteredBody_def
      InsertStatusHistory_Inr insertDeliveryAttempt_Inr upsertDLQ_Inr open_dlq_def split: sum.splits
      dest!: set_put_dlq_sub intro!: same_outbox_transaction [unfolded same_outbox_def])
qed

lemma sent_ok_same: "same_outbox d d' \<Longrightarrow> sent_ok d log \<Longrightarrow> sent_ok d' log"
  by (auto simp: same_outbox_def sent_ok_def)

lemma sys_step_sent:
  assumes "sys_step srv c c'" "\<And>p. srv p \<Longrightarrow> server u p" "lifecycle_ok u (fst c)"
    "sent_ok (fst c) (snd (snd c))"
  shows "sent_ok (fst c') (snd (snd c'))"
  using assms
proof (induction rule: sys_step.induct)
  case (ingest p lib req key d res d' s)
  from ingest(2) ingest(3) [OF ingest(1)] show ?case using ingest(5)
    by (cases rule: Persist_cases) (auto simp: sent_ok_def persisted_def Let_def)
next
  case (publish p pool pub b m d s r d' s')
  have sch: "schema_ok u d" "pg_uuid p = u"
    using publish(1,3,4) by (auto simp: lifecycle_ok_def server_def)
  obtain res err w log where r: "r = (res, err)" "s = (w, log)" by (metis surj_pair)
  from publish(2) [unfolded r(1)] sch show ?case
  proof (cases rule: PublishNext_outcome)
    case (claimed row e pub' o')
    then obtain pub0 where p0: "pub' = observed pub0" by auto
    have rows: "set (outbox (map_outbox (ob_id row) f d)) = insert (f row) (set (outbox d) - {row})" for f
      by (rule map_outbox_row [OF sch(1) claimed(3)])
    have log: "set log \<subseteq> set (snd s') \<and> (o' = None \<longrightarrow> SentOutbox (ob_event_id row) \<in> set (snd s'))"
      using claimed(6,7) by (auto simp: p0 observed_def r claimed_event_def split: prod.splits option.splits)
    then show ?thesis using publish(5) claimed(8)
      by (auto simp: sent_ok_def r published_db_def failed_db_def rows set_failed_def set_published_def
          split: option.splits)
  qed (use publish(5) in auto)
next
  case (redrive p st e rpub d s res d' s')
  obtain w log where r: "s = (w, log)" by (metis surj_pair)
  from redrive(2) show ?case
  proof (cases rule: RedriveDLQ_outcome)
    case same
    have "set log \<subseteq> set (snd s')"
      using same(3) by (auto simp: r observedRedrive_def split: prod.splits sum.splits)
    then show ?thesis using redrive(5) same by (auto simp: sent_ok_def r)
  next
    case (redriven q ev sid f)
    then obtain f0 where f0: "f = observedRedrive f0" by auto
    have log: "set (snd s') = insert (SentRedrive (ev_id ev)) (set log)"
      using redriven(7) by (auto simp: f0 observedRedrive_def r field_redrive split: prod.splits sum.splits)
    then show ?thesis using redrive(5) redriven(8)
      by (auto simp: sent_ok_def r set_redriven_def)
  qed
next
  case (processing p st pr d e d' s)
  then show ?case using sent_ok_same recorder_same_outbox(1) [of d p st pr] by simp
next
  case (delivered p st ar d e d' s)
  then show ?case using sent_ok_same recorder_same_outbox(2) [of d p st ar] by simp
next
  case (retrying p st rt d e d' s)
  then show ?case using sent_ok_same recorder_same_outbox(3) [of d p st rt] by simp
next
  case (deadLettered p st dl d e d' s)
  then show ?case using sent_ok_same recorder_same_outbox(4) [of d p st dl] by simp
qed simp


lemma sys_reach_sent:
  assumes "sys_reach srv c c'" "\<And>p. srv p \<Longrightarrow> server u p" "lifecycle_ok u (fst c)"
    "sent_ok (fst c) (snd (snd c))"
  shows "sent_ok (fst c') (snd (snd c'))"
  using assms(1)
proof (induction rule: sys_reach_induct)
  case (step c1 c2)
  have "lifecycle_ok u (fst c1)" using sys_reach_lifecycle [OF step(1) assms(2,3)] .
  then show ?case using sys_step_sent [OF step(2) assms(2)] step(3) by blast
qed (rule assms(4))

lemma once_ok_step:
  assumes "once_ok d log" "r \<in> set (outbox d)" "ob_status r = ''pending''" "schema_ok u d"
  shows "once_ok (published_db p r d) (log @ [SentOutbox (ob_event_id r)])"
proof -
  have uniq: "r' = r" if "r' \<in> set (outbox d)" "ob_event_id r' = ob_event_id r" for r'
    using assms(2,4) that by (simp add: schema_defs distinct_map inj_on_def)
  have "list_ex (\<lambda>r'. ob_event_id r' = x \<and> ob_status r' = ''published'') (outbox (published_db p r d)) \<longleftrightarrow>
    x = ob_event_id r \<or> list_ex (\<lambda>r'. ob_event_id r' = x \<and> ob_status r' = ''published'') (outbox d)" for x
    unfolding outbox_published_db [OF assms(4,2)] using assms(2,3)
    by (auto simp: list_ex_iff set_published_def)
  moreover have "\<not> list_ex (\<lambda>r'. ob_event_id r' = ob_event_id r \<and> ob_status r' = ''published'') (outbox d)"
    using uniq assms(3) by (fastforce simp: list_ex_iff)
  ultimately show ?thesis using assms(1) by (auto simp: once_ok_def)
qed

lemma once_ok_failed:
  assumes "once_ok d log" "r \<in> set (outbox d)" "ob_status r = ''pending''" "schema_ok u d"
  shows "once_ok (failed_db p b m x r d) log"
proof -
  have "list_ex (\<lambda>r'. ob_event_id r' = x \<and> ob_status r' = ''published'') (outbox (failed_db p b m y r d)) \<longleftrightarrow>
    list_ex (\<lambda>r'. ob_event_id r' = x \<and> ob_status r' = ''published'') (outbox d)" for x y
    unfolding list_ex_iff failed_db_def map_outbox_row [OF assms(4,2)] using assms(2,3)
    by (auto simp: set_failed_def)
  then show ?thesis using assms(1) by (simp add: once_ok_def)
qed

lemma once_ok_outbox: "outbox d' = outbox d \<Longrightarrow> once_ok d log \<Longrightarrow> once_ok d' log"
  by (simp add: once_ok_def)

lemma sys_step_once:
  assumes "sys_step srv c c'" "\<And>p. srv p \<Longrightarrow> server u p \<and> no_faults p" "lifecycle_ok u (fst c)"
    "once_ok (fst c) (snd (snd c))"
  shows "once_ok (fst c') (snd (snd c'))"
  using assms
proof (induction rule: sys_step.induct)
  case (ingest p lib req key d res d' s)
  have sv: "server u p" using ingest(1,3) by blast
  from ingest(2) sv show ?case using ingest(5)
    by (cases rule: Persist_cases) (auto simp: once_ok_def persisted_def Let_def)
next
  case (publish p pool pub b m d s r d' s')
  have sch: "schema_ok u d" "pg_uuid p = u" and nf: "no_faults p"
    using publish(1,3,4) by (auto simp: lifecycle_ok_def server_def)
  obtain res err w log where r: "r = (res, err)" "s = (w, log)" by (metis surj_pair)
  from publish(2) [unfolded r(1)] sch show ?case
  proof (cases rule: PublishNext_cases)
    case (claimed row e pub')
    then obtain pub0 where p0: "pub' = observed pub0" by auto
    have row: "row \<in> set (outbox d)" "ob_status row = ''pending''" "has_event d (ob_event_id row)"
      using selectNextPendingOutbox_Some [OF claimed(2)] by (auto simp: due_def)
    show ?thesis
    proof (cases "pub0 (claimed_event row e) w")
      case (Pair o' w1)
      show ?thesis
      proof (cases o')
        case None
        then have pu: "pub' (claimed_event row e) s = (None, (w1, log @ [SentOutbox (ob_event_id row)]))"
          using Pair claimed(4) by (simp add: p0 observed_def r claimed_event_def)
        from publishClaimed_no_faults [OF claimed(3) nf claimed(5,6,4) pu sch(1) row(1,3)]
          publishClaimed_ok [OF claimed(3,5,6,4) pu]
        show ?thesis using once_ok_step [OF _ row(1,2) sch(1)] publish(5) r by auto
      next
        case (Some x)
        then have pu: "pub' (claimed_event row e) s = (Some x, (w1, log))"
          using Pair by (simp add: p0 observed_def r)
        from publishClaimed_failed [OF claimed(3,5) pu]
        show ?thesis using once_ok_failed [OF _ row(1,2) sch(1)] publish(5) r by auto
      qed
    qed
  qed (use publish(5) in auto)
next
  case (redrive p st e rpub d s res d' s')
  obtain w log where r: "s = (w, log)" by (metis surj_pair)
  have "filter (\<lambda>x. x = SentOutbox y) (snd s') = filter (\<lambda>x. x = SentOutbox y) log" for y
    using redrive(2) by (cases rule: RedriveDLQ_outcome)
      (auto simp: r observedRedrive_def split: prod.splits sum.splits option.splits)
  moreover have "outbox d' = outbox d"
    using redrive(2) by (cases rule: RedriveDLQ_outcome) auto
  ultimately show ?case using redrive(5) by (simp add: once_ok_def r)
next
  case (processing p st pr d e d' s)
  then show ?case using once_ok_outbox recorder_same_outbox(1) [of d p st pr] by (simp add: same_outbox_def)
next
  case (delivered p st ar d e d' s)
  then show ?case using once_ok_outbox recorder_same_outbox(2) [of d p st ar] by (simp add: same_outbox_def)
next
  case (retrying p st rt d e d' s)
  then show ?case using once_ok_outbox recorder_same_outbox(3) [of d p st rt] by (simp add: same_outbox_def)
next
  case (deadLettered p st dl d e d' s)
  then show ?case using once_ok_outbox recorder_same_outbox(4) [of d p st dl] by (simp add: same_outbox_def)
qed simp

lemma sys_reach_once:
  assumes "sys_reach srv c c'" "\<And>p. srv p \<Longrightarrow> server u p \<and> no_faults p" "lifecycle_ok u (fst c)"
    "once_ok (fst c) (snd (snd c))"
  shows "once_ok (fst c') (snd (snd c'))"
  using assms(1)
proof (induction rule: sys_reach_induct)
  case (step c1 c2)
  have "lifecycle_ok u (fst c1)" using sys_reach_lifecycle [OF step(1) _ assms(3)] assms(2) by blast
  then show ?case using sys_step_once [OF step(2) assms(2)] step(3) by blast
qed (rule assms(4))

section \<open>Draining the outbox\<close>

lemma set_due_rows: "set (due_rows p d) = {r \<in> set (outbox d). due p d r}"
  by (simp add: due_rows_def)

lemma due_rows_published:
  assumes "schema_ok u d" "due_rows p d = r # rs"
  shows "due_rows p (published_db p r d) = rs"
proof -
  let ?k = "\<lambda>r. (ob_next_attempt_at r, ob_created_at r)"
  have mem: "set (r # rs) = {r' \<in> set (outbox d). due p d r'}"
    using set_due_rows [of p d] assms(2) by simp
  then have r: "r \<in> set (outbox d)" by auto
  have dist: "distinct (outbox d)" using assms(1) by (simp add: schema_defs distinct_map)
  have has: "has_event (published_db p r d) = has_event d"
    by (simp add: published_db_def has_event_def fun_eq_iff)
  have same: "due p (published_db p r d) r' = due p d r'" for r' by (simp add: due_def has)
  have "\<not> due p d (set_published p r)" by (simp add: due_def set_published_def)
  then have "filter (due p d) (map (\<lambda>r'. if r' = r then set_published p r else r') xs) =
      filter (\<lambda>r'. r' \<noteq> r) (filter (due p d) xs)" for xs
    by (induction xs) auto
  then have "due_rows p (published_db p r d) = sort_key ?k (filter (\<lambda>r'. r' \<noteq> r) (filter (due p d) (outbox d)))"
    unfolding due_rows_def outbox_published_db [OF assms(1) r] same by presburger
  also have "\<dots> = filter (\<lambda>r'. r' \<noteq> r) (r # rs)"
    unfolding assms(2) [symmetric] due_rows_def by (simp only: filter_sort)
  also have "\<dots> = rs"
  proof -
    have "distinct (r # rs)" using dist assms(2) unfolding due_rows_def by (metis distinct_filter distinct_sort)
    then show ?thesis by (simp add: filter_id_conv) (metis)
  qed
  finally show ?thesis .
qed

lemma PublishNext_progress:
  assumes "lifecycle_ok u d" "server u p" "no_faults p" "0 < b" "b \<le> m"
    and rows: "due_rows p d = r # rs" and acc: "\<And>ev w. fst (pub ev w) = None"
  shows "\<exists>w1 e. ev_id e = ob_event_id r \<and> e \<in> set (events d) \<and> pub (claimed_event r e) w = (None, w1) \<and>
    PublishNextOutboxEvent p True (Some pub) b m d w =
      ((\<lparr>pn_Found = True, pn_Published = True, pn_OutboxID = ob_id r, pn_EventID = ob_event_id r\<rparr>, None),
       published_db p r d, w1)"
proof -
  have sch: "schema_ok u d" using assms(1) by (simp add: lifecycle_ok_def)
  have "due p d r \<and> r \<in> set (outbox d)"
    using set_due_rows [of p d] rows by auto
  then have r: "r \<in> set (outbox d)" "has_event d (ob_event_id r)" by (auto simp: due_def)
  then obtain e where "find_event d (ob_event_id r) = Some e" using find_event_None by fastforce
  then have sel: "selectNextPendingOutbox p d = Some (r, e)"
    using rows by (simp add: selectNextPendingOutbox_def due_rows_def)
  note e = selectNextPendingOutbox_Some [OF sel]
  have u: "pg_uuid p = u" using assms(2) by (simp add: server_def)
  note cast = claimed_cast [OF sel sch u]
  obtain w1 where pub: "pub (claimed_event r e) w = (None, w1)" using acc by (metis prod.collapse)
  have claim: "claimNextOutboxEvent p d = Inr (claimed_event r e)"
    using sel assms(3) by (auto simp: claim_Inr no_faults_def)
  have run: "PublishNextOutboxEvent p True (Some pub) b m d w = publishClaimed p pub b m (claimed_event r e) d w"
    using claim assms(3-5)
    by (simp add: PublishNextOutboxEvent_def validatePublishNextOutboxConfig_def no_faults_def)
  obtain res err d' w' where out: "publishClaimed p pub b m (claimed_event r e) d w = ((res, err), d', w')"
    by (metis prod.collapse)
  have ev: "ev_id e = ob_event_id r" using e by blast
  from publishClaimed_no_faults [OF out assms(3) cast(1,2) ev pub sch r] publishClaimed_ok [OF out cast(1,2) ev pub]
  show ?thesis using run out pub e by auto
qed


lemma publish_times_log:
  assumes "lifecycle_ok u d" "server u p" "no_faults p" "0 < b" "b \<le> m"
    and acc: "\<And>ev w. fst (pub ev w) = None" and n: "n = length (due_rows p d)"
    and run: "publish_times n p (observed pub) b m d (w, log) = (d', w', log')"
  shows "due_rows p d' = [] \<and> log' = log @ map (\<lambda>r. SentOutbox (ob_event_id r)) (due_rows p d) \<and>
    (\<forall>r \<in> set (outbox d). due p d r \<longrightarrow> set_published p r \<in> set (outbox d')) \<and>
    (\<forall>r \<in> set (outbox d). \<not> due p d r \<longrightarrow> r \<in> set (outbox d'))"
  using assms(1) n run
proof (induction n arbitrary: d w log)
  case 0
  then have "filter (due p d) (outbox d) = []" unfolding due_rows_def by (metis length_0_conv length_sort)
  then show ?case using 0 by (auto simp: filter_empty_conv)
next
  case (Suc n)
  have sch: "schema_ok u d" and u: "pg_uuid p = u"
    using Suc.prems(1) assms(2) by (auto simp: lifecycle_ok_def server_def)
  obtain r rs where rows: "due_rows p d = r # rs" using Suc.prems(2) by (cases "due_rows p d") auto
  have acc': "fst (observed pub ev s) = None" for ev s
    using acc [of ev "fst s"] by (auto simp: observed_def split: prod.splits option.splits)
  from PublishNext_progress [OF Suc.prems(1) assms(2-5) rows, where pub = "observed pub" and w = "(w, log)"] acc'
  obtain s1 e where e: "ev_id e = ob_event_id r" "observed pub (claimed_event r e) (w, log) = (None, s1)"
    and step: "PublishNextOutboxEvent p True (Some (observed pub)) b m d (w, log) =
      ((\<lparr>pn_Found = True, pn_Published = True, pn_OutboxID = ob_id r, pn_EventID = ob_event_id r\<rparr>, None),
       published_db p r d, s1)" by blast
  obtain w1 where s1: "s1 = (w1, log @ [SentOutbox (ob_event_id r)])"
    using e by (auto simp: observed_def claimed_event_def split: prod.splits option.splits)
  let ?d = "published_db p r d"
  have life: "lifecycle_ok u ?d"
    using PublishNext_lifecycle [OF Suc.prems(1) u, of True "Some (observed pub)" b m "(w, log)"] step by simp
  have rows': "due_rows p ?d = rs" by (rule due_rows_published [OF sch rows])
  have n': "n = length (due_rows p ?d)" using Suc.prems(2) rows rows' by simp
  have run': "publish_times n p (observed pub) b m ?d (w1, log @ [SentOutbox (ob_event_id r)]) = (d', w', log')"
    using Suc.prems(3) step s1 by simp
  have r: "due p d r" "r \<in> set (outbox d)"
    using set_due_rows [of p d] rows by auto
  have has: "has_event ?d = has_event d" by (simp add: published_db_def has_event_def fun_eq_iff)
  have due': "due p ?d r' = due p d r'" for r' by (simp add: due_def has)
  have ob: "set (outbox ?d) = insert (set_published p r) (set (outbox d) - {r})"
    using map_outbox_row [OF sch r(2), of "set_published p"] by (simp add: published_db_def)
  have npub: "\<not> due p d (set_published p r)" by (simp add: due_def set_published_def)
  from Suc.IH [OF life n' run'] show ?case
    using rows rows' r npub by (auto simp: due' ob)
qed

section \<open>Repeated requests\<close>

lemma find_by_key_extends:
  assumes "find_by_key s k d = Some r" "extends d d'"
  shows "find_by_key s k d' = Some r"
proof -
  obtain xs where "events d' = events d @ xs" using assms(2) by (auto simp: extends_def prefix_def)
  moreover have "find P (as @ bs) = Some r" if "find P as = Some r" for P and as bs :: "event_row list"
    using that by (induction as) auto
  ultimately show ?thesis using assms(1) by (simp add: find_by_key_def)
qed

lemma Persist_key_known:
  assumes "PersistEventWithOutbox lib p req key d = (Inr res, d')" "server u p" "idem_key key = Some k"
  shows "\<exists>r h. find_by_key (in_Source req) k d' = Some r \<and> ev_id r = res_EventID res \<and>
    ev_request_hash r = Some h \<and>
    computeRequestHash lib (in_EventType req) (in_Source req) (in_Payload req) = Inr h"
  using assms(1,2)
proof (cases rule: Persist_cases)
  case (created h)
  have "find_by_key (in_Source req) k d = None" using created(2) assms(3) by simp
  then have "find_by_key (in_Source req) k d' = Some (new_event_row p req (Some k) h)"
    using assms(3) created(5)
    by (simp add: find_by_key_def find_append new_event_row_def)
  then show ?thesis using created by (auto simp: new_event_row_def)
qed (use assms(3) in auto)

lemma Persist_known_key:
  assumes "no_faults p" "idem_key key = Some k" "find_by_key (in_Source req) k d = Some r"
    "computeRequestHash lib (in_EventType req) (in_Source req) (in_Payload req) = Inr h"
  shows "if ev_request_hash r = Some h
    then PersistEventWithOutbox lib p req key d = (Inr \<lparr>res_EventID = ev_id r, res_Created = False\<rparr>, d)
    else \<exists>e. PersistEventWithOutbox lib p req key d = (Inl e, d) \<and> errors_is e ErrIdempotencyConflict"
  using assms
  by (auto simp: PersistEventWithOutbox_def idem_key_def no_faults_def insertEventWithIdempotencyKey_def
      guard_def existingEventIDForMatchingRequestHash_def selectEventByIdempotencyKey_def
      validateExistingRequestHash_def commit_result_def commit_def Let_def
      split: option.splits if_splits)

text \<open>A key that a successful call has used stays with its event and its request hash.\<close>

lemma key_stays:
  assumes "sys_reach (server u) (empty_db, w0, []) (d, w, log)"
    and "server u p1" "PersistEventWithOutbox lib p1 req key d = (Inr first, d1)"
    and "sys_reach (server u) (d1, w, log) (d2, w2, log2)" "TrimSpace key \<noteq> []"
  shows "\<exists>r h. find_by_key (in_Source req) (TrimSpace key) d2 = Some r \<and>
    ev_id r = res_EventID first \<and> ev_request_hash r = Some h \<and>
    computeRequestHash lib (in_EventType req) (in_Source req) (in_Payload req) = Inr h"
proof -
  have k: "idem_key key = Some (TrimSpace key)" using assms(5) by (simp add: idem_key_def)
  have life: "lifecycle_ok u d"
    using sys_reach_lifecycle [OF assms(1), of u] by (simp add: lifecycle_empty)
  have life1: "lifecycle_ok u d1" using Persist_lifecycle [OF life assms(2), of lib req key] assms(3) by simp
  obtain r h where r: "find_by_key (in_Source req) (TrimSpace key) d1 = Some r"
    "ev_id r = res_EventID first" "ev_request_hash r = Some h"
    "computeRequestHash lib (in_EventType req) (in_Source req) (in_Payload req) = Inr h"
    using Persist_key_known [OF assms(3,2) k] by blast
  have "extends d1 d2" using sys_reach_extends [OF assms(4), of u] life1 by simp
  then show ?thesis using find_by_key_extends [OF r(1)] r by blast
qed

section \<open>An example run\<close>

text \<open>One event, on a server that does not fail, with a publisher that accepts everything.\<close>

definition example_request :: EventInput where
  "example_request = \<lparr>in_EventType = ''t'', in_Source = ''s'', in_Payload = ''1''\<rparr>"

definition other_request :: EventInput where
  "other_request = \<lparr>in_EventType = ''t'', in_Source = ''s'', in_Payload = ''2''\<rparr>"

definition example_server :: pg where "example_server = quiet_pg ''e1'' ''o1'' 0"

definition example_db :: db where
  "example_db = snd (PersistEventWithOutbox plain_lib example_server example_request ''k1'' empty_db)"

definition accept_all :: "unit PublishOutboxEventFunc" where
  "accept_all ev w = (None, w)"

definition published_example :: db where
  "published_example = fst (snd (PublishNextOutboxEvent example_server True
     (map_option observed (Some accept_all)) 1 2 example_db ((), [])))"

lemma example_servers [simp]: "server Some example_server" "no_faults example_server"
  by (simp_all add: example_server_def quiet_server)

lemma example_first:
  "PersistEventWithOutbox plain_lib example_server example_request ''k1'' empty_db =
     (Inr \<lparr>res_EventID = ''e1'', res_Created = True\<rparr>, example_db)"
  by code_simp

lemma example_publish:
  "PublishNextOutboxEvent example_server True (map_option observed (Some accept_all)) 1 2 example_db ((), []) =
     ((\<lparr>pn_Found = True, pn_Published = True, pn_OutboxID = ''o1'', pn_EventID = ''e1''\<rparr>, None),
      published_example, ((), [SentOutbox ''e1'']))"
  by code_simp

lemma sys_reach_refl [simp]: "sys_reach srv c c"
  by (simp add: sys_reach_def)

lemma sys_reach_one: "sys_step srv c c' \<Longrightarrow> sys_reach srv c c'"
  by (auto simp: sys_reach_def)

lemma example_reach:
  assumes "srv example_server"
  shows "sys_reach srv (empty_db, (), []) (example_db, (), [])"
  by (rule sys_reach_one) (rule sys_step.ingest [of srv example_server, OF assms example_first])

lemma published_reach:
  assumes "srv example_server"
  shows "sys_reach srv (example_db, (), []) (published_example, (), [SentOutbox ''e1''])"
  by (rule sys_reach_one) (rule sys_step.publish [of srv example_server, OF assms example_publish])

lemma published_reach':
  assumes "srv example_server"
  shows "sys_reach srv (empty_db, (), []) (published_example, (), [SentOutbox ''e1''])"
  using example_reach [of srv] published_reach [of srv] assms unfolding sys_reach_def by simp

lemmas example_run = example_reach [of "server Some", OF example_servers(1)]
  published_reach [of "server Some", OF example_servers(1)]
  published_reach' [of "server Some", OF example_servers(1)]

section \<open>Properties of the reachable states\<close>

lemma trim_k1 [simp]: "TrimSpace ''k1'' = ''k1''" "TrimSpace '' k1 '' = ''k1''" by code_simp+

text \<open>
  C3: In every state the system can reach from empty tables, whatever the requests, the
  interleaving of the operations and the faults of the server: the keys are unique and the
  references intact; every event has exactly one outbox row and was recorded as \<open>STORED\<close> and
  \<open>PENDING_PUBLICATION\<close>; an outbox row is published if and only if the event was recorded as
  \<open>PUBLISHED\<close>; an event has a dead-letter record if and only if it was recorded as
  \<open>DEAD_LETTERED\<close>, with a failed attempt behind it; and \<open>DELIVERED\<close> is recorded if and only if
  there is a successful attempt.
\<close>

theorem lifecycle_invariant:
  assumes "sys_reach (server u) (empty_db, w0, []) (d, w, log)"
  shows "lifecycle_ok u d"
  using sys_reach_lifecycle [OF assms, of u] by (simp add: lifecycle_empty)

theorem lifecycle_invariant_witness: "lifecycle_ok Some published_example"
  by (rule lifecycle_invariant [OF example_run(3)])

text \<open>
  C18: Nothing is lost. From any reachable state, the tables of events, status history and
  delivery attempts only grow at their end, no outbox row disappears or moves, and an event
  that has a dead-letter record keeps one.
\<close>

theorem logs_append_only:
  assumes "sys_reach (server u) (empty_db, w0, []) (d, w, log)"
    "sys_reach (server u) (d, w, log) (d', w', log')"
  shows "prefix (events d) (events d') \<and> prefix (history d) (history d') \<and>
    prefix (attempts d) (attempts d') \<and> prefix (map ob_id (outbox d)) (map ob_id (outbox d')) \<and>
    q_event_id ` set (dlq d) \<subseteq> q_event_id ` set (dlq d')"
  using sys_reach_lifecycle [OF assms(1), of u] sys_reach_extends [OF assms(2), of u]
  by (simp add: lifecycle_empty extends_def)

theorem logs_append_only_witness: "prefix (history example_db) (history published_example)"
  using logs_append_only [OF example_run(1,2)] by simp

text \<open>
  C5: Retrying a request is safe. Once a call with an idempotency key has succeeded, a later call
  with the same source, the same key and an equivalent request (one with the same request
  hash) returns the same event identifier, says that it created nothing, and leaves the tables
  as they are, whatever happened in between.
\<close>

theorem idempotent_retry:
  assumes "sys_reach (server u) (empty_db, w0, []) (d, w, log)"
    and "server u p1" "PersistEventWithOutbox lib p1 req key d = (Inr first, d1)"
    and "sys_reach (server u) (d1, w, log) (d2, w2, log2)" "TrimSpace key \<noteq> []"
    and "no_faults p2" "TrimSpace key' = TrimSpace key" "in_Source req' = in_Source req"
    and "computeRequestHash lib (in_EventType req') (in_Source req') (in_Payload req') =
         computeRequestHash lib (in_EventType req) (in_Source req) (in_Payload req)"
  shows "PersistEventWithOutbox lib p2 req' key' d2 =
    (Inr \<lparr>res_EventID = res_EventID first, res_Created = False\<rparr>, d2)"
proof -
  have k: "idem_key key' = Some (TrimSpace key)" using assms(5,7) by (auto simp: idem_key_def)
  obtain r h where "find_by_key (in_Source req) (TrimSpace key) d2 = Some r"
    "ev_id r = res_EventID first" "ev_request_hash r = Some h"
    "computeRequestHash lib (in_EventType req) (in_Source req) (in_Payload req) = Inr h"
    using key_stays [OF assms(1-5)] by blast
  then show ?thesis using Persist_known_key [OF assms(6) k, of req' d2 r lib h] assms(8,9) by simp
qed

theorem idempotent_retry_witness:
  "PersistEventWithOutbox plain_lib example_server example_request '' k1 '' published_example =
    (Inr \<lparr>res_EventID = ''e1'', res_Created = False\<rparr>, published_example)"
  using idempotent_retry [OF sys_reach_refl example_servers(1) example_first example_run(2) _
      example_servers(2), of "'' k1 ''" example_request] by simp

text \<open>
  C15: A key cannot be reused for another request. After a call with an idempotency key has
  succeeded, a later call with the same source and key whose request hash is different fails with
  the error \<open>ErrIdempotencyConflict\<close> and changes nothing.
\<close>

theorem idempotency_conflict:
  assumes "sys_reach (server u) (empty_db, w0, []) (d, w, log)"
    and "server u p1" "PersistEventWithOutbox lib p1 req key d = (Inr first, d1)"
    and "sys_reach (server u) (d1, w, log) (d2, w2, log2)" "TrimSpace key \<noteq> []"
    and "no_faults p2" "TrimSpace key' = TrimSpace key" "in_Source req' = in_Source req"
    and "computeRequestHash lib (in_EventType req') (in_Source req') (in_Payload req') = Inr h'"
    and "computeRequestHash lib (in_EventType req) (in_Source req) (in_Payload req) \<noteq> Inr h'"
  shows "\<exists>e. PersistEventWithOutbox lib p2 req' key' d2 = (Inl e, d2) \<and> errors_is e ErrIdempotencyConflict"
proof -
  have k: "idem_key key' = Some (TrimSpace key)" using assms(5,7) by (auto simp: idem_key_def)
  obtain r h where "find_by_key (in_Source req) (TrimSpace key) d2 = Some r"
    "ev_request_hash r = Some h"
    "computeRequestHash lib (in_EventType req) (in_Source req) (in_Payload req) = Inr h"
    using key_stays [OF assms(1-5)] by blast
  then show ?thesis using Persist_known_key [OF assms(6) k, of req' d2 r lib h'] assms(8,9,10) by simp
qed

lemma example_hashes:
  "computeRequestHash plain_lib ''t'' ''s'' ''1'' =
     Inr ''7b226576656e745f74797065223a2274222c22736f75726365223a2273222c227061796c6f6164223a317d''"
  "computeRequestHash plain_lib ''t'' ''s'' ''2'' =
     Inr ''7b226576656e745f74797065223a2274222c22736f75726365223a2273222c227061796c6f6164223a327d''"
  by code_simp+

theorem idempotency_conflict_witness:
  "\<exists>e. PersistEventWithOutbox plain_lib example_server other_request ''k1'' published_example =
    (Inl e, published_example) \<and> errors_is e ErrIdempotencyConflict"
  by (rule idempotency_conflict [OF sys_reach_refl example_servers(1) example_first
        example_run(2) _ example_servers(2)])
    (auto simp: example_request_def other_request_def example_hashes)

text \<open>
  C8: At-least-once publication. In every reachable state, an outbox row that is marked published
  belongs to an event the broker has accepted, and a dead-letter record that is marked
  redriven belongs to an event whose redrive message the broker has accepted.
\<close>

theorem published_was_sent:
  assumes "sys_reach (server u) (empty_db, w0, []) (d, w, log)"
  shows "(\<forall>r. r \<in> set (outbox d) \<and> ob_status r = ''published'' \<longrightarrow> SentOutbox (ob_event_id r) \<in> set log) \<and>
    (\<forall>q. q \<in> set (dlq d) \<and> q_status q = DLQStatusRedriven \<longrightarrow> SentRedrive (q_event_id q) \<in> set log)"
proof -
  have "sent_ok empty_db []" by (simp add: sent_ok_def empty_db_def)
  then show ?thesis using sys_reach_sent [OF assms, of u] by (auto simp: lifecycle_empty sent_ok_def)
qed

theorem published_was_sent_witness:
  "list_all (\<lambda>r. SentOutbox (ob_event_id r) \<in> set [SentOutbox ''e1''])
     (filter (\<lambda>r. ob_status r = ''published'') (outbox published_example))"
  using published_was_sent [OF example_run(3)] by (simp add: list_all_iff)

text \<open>
  C10: The outbox drains in order. On a server that does not fail and with a broker that accepts,
  as many calls of \<open>PublishNextOutboxEvent\<close> as there are due rows publish exactly these rows,
  in the order of their next attempt and creation, each once; afterwards no row is due, and the
  rows that were not due are untouched.
\<close>

theorem outbox_drains:
  assumes "sys_reach (server u) (empty_db, w0, []) (d, w, log)" "server u p" "no_faults p"
    and "0 < b" "b \<le> m" "\<And>ev v. fst (pub ev v) = None"
    and "publish_times (length (due_rows p d)) p (observed pub) b m d (w, log) = (d', w', log')"
  shows "due_rows p d' = [] \<and> log' = log @ map (\<lambda>r. SentOutbox (ob_event_id r)) (due_rows p d) \<and>
    (\<forall>r. r \<in> set (outbox d) \<and> due p d r \<longrightarrow> set_published p r \<in> set (outbox d')) \<and>
    (\<forall>r. r \<in> set (outbox d) \<and> \<not> due p d r \<longrightarrow> r \<in> set (outbox d'))"
  using publish_times_log [of u d p b m pub "length (due_rows p d)" w log d' w' log'] assms
    sys_reach_lifecycle [OF assms(1), of u]
  by (auto simp: lifecycle_empty)

theorem outbox_drains_witness:
  "due_rows example_server (fst (publish_times 1 example_server (observed accept_all) 1 2 example_db ((), []))) = []"
proof -
  have n: "length (due_rows example_server example_db) = 1" by code_simp
  obtain d' w' log' where run:
    "publish_times (length (due_rows example_server example_db)) example_server (observed accept_all) 1 2
       example_db ((), []) = (d', w', log')" by (metis surj_pair)
  have "due_rows example_server d' = []"
    using outbox_drains [OF example_run(1) example_servers _ _ _ run] by (simp add: accept_all_def)
  with run show ?thesis by (simp add: n)
qed

end
