(* ===== verification/Event_Handler.thy ===== *)
theory Event_Handler
  imports Http_Api Event_Machine
begin

text \<open>
  The handler of \<open>POST /events\<close>, \<open>internal/httpapi/event_handler.go\<close>, first over any
  \<open>PersistEventFunc\<close> that keeps the contract \<open>persist_contract\<close>, then over the ingestion
  store. The theorems at the end follow a request from its bytes to the tables.
\<close>

record CreateEventRequest =
  ce_EventType :: bytes
  ce_Source :: bytes
  ce_Payload :: bytes

definition decodeCreateEventRequest ::
    "(bytes \<times> json \<times> bytes) list \<Rightarrow> CreateEventRequest option" where
  "decodeCreateEventRequest ms =
     (case get_string ''event_type'' (plain_members ms) of None \<Rightarrow> None | Some t \<Rightarrow>
      case get_string ''source'' (plain_members ms) of None \<Rightarrow> None | Some s \<Rightarrow>
      Some \<lparr>ce_EventType = t, ce_Source = s, ce_Payload = get_raw ''payload'' ms\<rparr>)"

definition CreateEventResponse :: "bytes \<Rightarrow> bool \<Rightarrow> json" where
  "CreateEventResponse i created = JObj [(''id'', JStr i), (''created'', JBool created)]"

type_synonym 'w PersistEventFunc = "EventInput \<Rightarrow> bytes \<Rightarrow> 'w \<Rightarrow> (error + PersistResult) \<times> 'w"

definition isMissingJSONPayload :: "bytes \<Rightarrow> bool" where
  "isMissingJSONPayload payload \<longleftrightarrow> TrimSpace payload = [] \<or> TrimSpace payload = ''null''"

definition NewCreateEventHandler :: "golib \<Rightarrow> 'w PersistEventFunc \<Rightarrow> 'w handler" where
  "NewCreateEventHandler lib persist r w =
     (if req_Method r \<noteq> ''POST'' then (method_not_allowed ''POST'', w)
      else
        case DecodeJSONRequest lib r decodeCreateEventRequest of
          Inl err \<Rightarrow>
            (if IsRequestBodyTooLarge err then http_Error ''request body too large'' 413
             else if errors_is err ErrExtraJSONValue
             then http_Error ''request body must contain exactly one JSON value'' 400
             else http_Error ''invalid JSON body'' 400, w)
        | Inr req \<Rightarrow>
        if ce_EventType req = [] \<or> ce_Source req = [] \<or> isMissingJSONPayload (ce_Payload req)
        then (http_Error ''event_type, source, and payload are required'' 400, w)
        else
          case persist \<lparr>in_EventType = ce_EventType req, in_Source = ce_Source req,
                 in_Payload = ce_Payload req\<rparr> (header_get (req_Header r) ''Idempotency-Key'') w of
            (Inl err, w1) \<Rightarrow>
              (if errors_is err ErrIdempotencyConflict
               then http_Error ''idempotency key was already used for a different request'' 409
               else http_Error ''failed to persist event'' 500, w1)
          | (Inr result, w1) \<Rightarrow>
              (json_response (if res_Created result then 201 else 200)
                 (Some (CreateEventResponse (res_EventID result) (res_Created result))), w1))"

section \<open>Reading the request\<close>

lemma read_value_EOF: "read_value e s = ReadEOF \<longleftrightarrow> e = None \<and> skip_space s = []"
  by (auto simp: read_value_def json_decode_def split: decoded.splits option.splits if_splits)

lemma read_value_None: "read_value None s = ReadVal v r \<longleftrightarrow> json_decode s = DecVal v r"
  by (auto simp: read_value_def split: decoded.splits)

lemma json_unmarshal_Some:
  "json_unmarshal s = Some v \<longleftrightarrow> (\<exists>r. json_decode s = DecVal v r \<and> skip_space r = [])"
  by (auto simp: json_unmarshal_def split: decoded.splits if_splits)

lemma decodeJSONRequest_Inr:
  "decodeJSONRequest lib r dst limit = Inr x \<longleftrightarrow>
     int (length (req_Body r)) \<le> limit \<and> req_BodyError r = None \<and>
     (\<exists>v. json_unmarshal (req_Body r) = Some v \<and> decode_struct dst v (req_Body r) = Some x)"
  (is "?l \<longleftrightarrow> ?r")
proof
  assume ?l
  then obtain body e v rest where "max_bytes_reader limit (req_Body r) (req_BodyError r) = (body, e)"
    "read_value e body = ReadVal v rest" "decode_struct dst v body = Some x" "read_value e rest = ReadEOF"
    by (auto simp: decodeJSONRequest_def split: prod.splits read.splits option.splits if_splits)
  then show ?r
    by (auto simp: max_bytes_reader_def read_value_EOF read_value_None json_unmarshal_Some split: if_splits)
next
  assume ?r
  then obtain v rest where "int (length (req_Body r)) \<le> limit" "req_BodyError r = None"
    "read_value None (req_Body r) = ReadVal v rest" "decode_struct dst v (req_Body r) = Some x"
    "read_value None rest = ReadEOF"
    by (auto simp: json_unmarshal_Some read_value_EOF read_value_None)
  then show ?l by (simp add: decodeJSONRequest_def max_bytes_reader_def)
qed

section \<open>The interface of the store\<close>

text \<open>
  What the handler relies on: a persist function keeps the invariant of its state, and leaves
  the state as it is when it finds an existing event or reports a conflict. The argument \<open>p\<close> is
  what varies between calls, \<open>ok p\<close> the calls the contract covers.
\<close>

locale persist_contract =
  fixes persist :: "'p \<Rightarrow> 'w PersistEventFunc" and ok :: "'p \<Rightarrow> bool" and inv :: "'w \<Rightarrow> bool"
  assumes keeps: "ok p \<Longrightarrow> inv w \<Longrightarrow> persist p input key w = (res, w') \<Longrightarrow> inv w'"
    and found: "ok p \<Longrightarrow> persist p input key w = (Inr r, w') \<Longrightarrow> \<not> res_Created r \<Longrightarrow> w' = w"
    and conflict: "ok p \<Longrightarrow> persist p input key w = (Inl e, w') \<Longrightarrow>
      errors_is e ErrIdempotencyConflict \<Longrightarrow> w' = w"
begin

lemma handler_keeps:
  "ok p \<Longrightarrow> inv w \<Longrightarrow> NewCreateEventHandler lib (persist p) r w = (rsp, w') \<Longrightarrow> inv w'"
  by (auto simp: NewCreateEventHandler_def split: if_splits sum.splits prod.splits dest: keeps)

lemma handler_unchanged:
  "ok p \<Longrightarrow> NewCreateEventHandler lib (persist p) r w = (rsp, w') \<Longrightarrow>
     rsp_Status rsp \<noteq> 201 \<Longrightarrow> rsp_Status rsp \<noteq> 500 \<Longrightarrow> w' = w"
  by (auto simp: NewCreateEventHandler_def json_response_def http_Error_def
      split: if_splits sum.splits prod.splits dest: found conflict)

end

text \<open>A server whose own errors are not the program's conflict error.\<close>

definition plain_faults :: "pg \<Rightarrow> bool" where
  "plain_faults p \<longleftrightarrow> (\<forall>st e. pg_fault p st = Some e \<longrightarrow> \<not> errors_is e ErrIdempotencyConflict)"

lemma Persist_changed_error:
  assumes "PersistEventWithOutbox lib p req key d = (Inl e, d')" "d' \<noteq> d"
  shows "\<exists>what f. e = ErrWrap what f [] \<and> pg_fault p Commit = Some f"
proof (cases "\<exists>k r. idem_key key = Some k \<and> find_by_key (in_Source req) k d = Some r")
  case True
  then show ?thesis using Persist_existing [OF assms(1)] assms(2) by blast
next
  case False
  then have "find_by_key (in_Source req) k d = None" if "idem_key key = Some k" for k
    using that by fastforce
  from Persist_new [OF assms(1) this] show ?thesis using assms(2)
    by (auto simp: commit_result_def commit_def split: option.splits if_splits)
qed

interpretation ingestion: persist_contract "PersistEventWithOutbox lib"
  "\<lambda>p. server u p \<and> plain_faults p" "lifecycle_ok u" for lib u
proof unfold_locales
  fix p w input key res w'
  assume "server u p \<and> plain_faults p" "lifecycle_ok u w"
    "PersistEventWithOutbox lib p input key w = (res, w')"
  then show "lifecycle_ok u w'" using Persist_lifecycle [of u w p lib input key] by simp
next
  fix p w input key r w'
  assume *: "server u p \<and> plain_faults p" "PersistEventWithOutbox lib p input key w = (Inr r, w')"
    "\<not> res_Created r"
  then show "w' = w" by (cases rule: Persist_cases [OF *(2)]) auto
next
  fix p w input key e w'
  assume *: "server u p \<and> plain_faults p" "PersistEventWithOutbox lib p input key w = (Inl e, w')"
    "errors_is e ErrIdempotencyConflict"
  show "w' = w"
  proof (rule ccontr)
    assume "w' \<noteq> w"
    with Persist_changed_error [OF *(2)] obtain what f
      where "e = ErrWrap what f []" "pg_fault p Commit = Some f" by blast
    with * show False by (auto simp: plain_faults_def)
  qed
qed

section \<open>From the request to the tables\<close>

lemma handler_success:
  assumes "NewCreateEventHandler lib persist r w = (rsp, w')" "rsp_Status rsp = 200 \<or> rsp_Status rsp = 201"
  obtains req res where "req_Method r = ''POST''" "DecodeJSONRequest lib r decodeCreateEventRequest = Inr req"
    "\<not> (ce_EventType req = [] \<or> ce_Source req = [] \<or> isMissingJSONPayload (ce_Payload req))"
    "persist \<lparr>in_EventType = ce_EventType req, in_Source = ce_Source req, in_Payload = ce_Payload req\<rparr>
       (header_get (req_Header r) ''Idempotency-Key'') w = (Inr res, w')"
    "rsp = json_response (if res_Created res then 201 else 200)
       (Some (CreateEventResponse (res_EventID res) (res_Created res)))"
  using assms
  by (auto simp: NewCreateEventHandler_def method_not_allowed_def http_Error_def
      split: if_splits sum.splits prod.splits)

lemma handler_again:
  assumes "req_Method r = ''POST''" "DecodeJSONRequest lib r decodeCreateEventRequest = Inr req"
    "\<not> (ce_EventType req = [] \<or> ce_Source req = [] \<or> isMissingJSONPayload (ce_Payload req))"
    "persist \<lparr>in_EventType = ce_EventType req, in_Source = ce_Source req, in_Payload = ce_Payload req\<rparr>
       (header_get (req_Header r) ''Idempotency-Key'') w = (Inr res, w')"
  shows "NewCreateEventHandler lib persist r w =
    (json_response (if res_Created res then 201 else 200)
       (Some (CreateEventResponse (res_EventID res) (res_Created res))), w')"
  using assms by (simp add: NewCreateEventHandler_def)

text \<open>An example of a request.\<close>

definition example_post :: Request where
  "example_post = \<lparr>req_Method = ''POST'', req_Path = ''/events'', req_Query = [],
     req_Header = [(''Idempotency-Key'', ''k1'')],
     req_Body = [CHR ''{'', CHR 0x22] @ ''event_type'' @ [CHR 0x22, CHR '':'', CHR 0x22, CHR ''t'', CHR 0x22, CHR '','', CHR 0x22] @
       ''source'' @ [CHR 0x22, CHR '':'', CHR 0x22, CHR ''s'', CHR 0x22, CHR '','', CHR 0x22] @ ''payload'' @
       [CHR 0x22, CHR '':'', CHR '' '', CHR ''1'', CHR ''}''],
     req_BodyError = None\<rparr>"

lemma example_post_decoded:
  "DecodeJSONRequest plain_lib example_post decodeCreateEventRequest =
     Inr \<lparr>ce_EventType = ''t'', ce_Source = ''s'', ce_Payload = ''1''\<rparr>"
  by code_simp

lemma example_post_first:
  "NewCreateEventHandler plain_lib (PersistEventWithOutbox plain_lib example_server) example_post empty_db =
     (json_response 201 (Some (CreateEventResponse ''e1'' True)), example_db)"
proof -
  have "\<not> isMissingJSONPayload ''1''" by code_simp
  then show ?thesis using example_first
    by (simp add: NewCreateEventHandler_def example_post_decoded example_request_def)
      (simp add: example_post_def)
qed

text \<open>
  C11: Creating an event over HTTP is safe to retry. If a \<open>POST /events\<close> with an idempotency key was
  answered with 200 or 201 and an identifier, then the same request, sent again after anything
  else has happened, is answered with 200, the same identifier and \<open>created = false\<close>,
  and leaves the tables as they are.
\<close>

theorem http_create_retry:
  assumes "sys_reach (server u) (empty_db, w0, []) (d, w, log)" "server u p1"
    and "NewCreateEventHandler lib (PersistEventWithOutbox lib p1) r d = (rsp, d1)"
    and "rsp_Status rsp = 200 \<or> rsp_Status rsp = 201"
    and "sys_reach (server u) (d1, w, log) (d2, w2, log2)" "no_faults p2"
    and "TrimSpace (header_get (req_Header r) ''Idempotency-Key'') \<noteq> []"
  shows "\<exists>i b. rsp_Body rsp = encode_json (Some (CreateEventResponse i b)) \<and>
    NewCreateEventHandler lib (PersistEventWithOutbox lib p2) r d2 =
      (json_response 200 (Some (CreateEventResponse i False)), d2)"
  using assms(3,4)
proof (rule handler_success)
  fix req :: CreateEventRequest and res
  let ?in = "\<lparr>in_EventType = ce_EventType req, in_Source = ce_Source req, in_Payload = ce_Payload req\<rparr>"
  let ?key = "header_get (req_Header r) ''Idempotency-Key''"
  assume run: "req_Method r = ''POST''" "DecodeJSONRequest lib r decodeCreateEventRequest = Inr req"
    "\<not> (ce_EventType req = [] \<or> ce_Source req = [] \<or> isMissingJSONPayload (ce_Payload req))"
    and first: "PersistEventWithOutbox lib p1 ?in ?key d = (Inr res, d1)"
    and rsp: "rsp = json_response (if res_Created res then 201 else 200)
       (Some (CreateEventResponse (res_EventID res) (res_Created res)))"
  obtain row h where "find_by_key (in_Source ?in) (TrimSpace ?key) d2 = Some row"
    "ev_id row = res_EventID res" "ev_request_hash row = Some h"
    "computeRequestHash lib (in_EventType ?in) (in_Source ?in) (in_Payload ?in) = Inr h"
    using key_stays [OF assms(1,2) first assms(5,7)] by blast
  then have "PersistEventWithOutbox lib p2 ?in ?key d2 =
      (Inr \<lparr>res_EventID = res_EventID res, res_Created = False\<rparr>, d2)"
    using Persist_known_key [OF assms(6), of ?key "TrimSpace ?key" ?in d2 row lib h] assms(7)
    by (simp add: idem_key_def)
  from handler_again [of r lib req "PersistEventWithOutbox lib p2", OF run this] rsp show ?thesis by (auto simp: json_response_def)
qed

theorem http_create_retry_witness:
  "\<exists>i b. encode_json (Some (CreateEventResponse ''e1'' True)) = encode_json (Some (CreateEventResponse i b)) \<and>
    NewCreateEventHandler plain_lib (PersistEventWithOutbox plain_lib example_server) example_post published_example =
      (json_response 200 (Some (CreateEventResponse i False)), published_example)"
  using http_create_retry [OF sys_reach_refl example_servers(1) example_post_first _ example_run(2)
      example_servers(2)]
  by (simp add: json_response_def example_post_def header_get_def)

text \<open>
  C20: What the answer to \<open>POST /events\<close> says about the tables. Status 201 means that exactly one
  event was added, with its outbox row and its first two statuses, and its identifier is in the
  body; status 500 leaves the tables as they were unless the commit itself failed; every
  other status leaves them as they were.
\<close>

theorem create_event_answer:
  assumes "server u p" "plain_faults p"
    and "NewCreateEventHandler lib (PersistEventWithOutbox lib p) r d = (rsp, d')"
  shows "(rsp_Status rsp = 201 \<longrightarrow>
      (\<exists>row orow h1 h2. events d' = events d @ [row] \<and> outbox d' = outbox d @ [orow] \<and>
         history d' = history d @ [h1, h2] \<and> ob_event_id orow = ev_id row \<and>
         rsp_Body rsp = encode_json (Some (CreateEventResponse (ev_id row) True)))) \<and>
    (rsp_Status rsp = 500 \<longrightarrow> d' = d \<or> pg_fault p Commit \<noteq> None) \<and>
    (rsp_Status rsp \<noteq> 201 \<and> rsp_Status rsp \<noteq> 500 \<longrightarrow> d' = d)"
proof (intro conjI impI)
  assume "rsp_Status rsp = 201"
  then have ok: "rsp_Status rsp = 200 \<or> rsp_Status rsp = 201" by simp
  show "\<exists>row orow h1 h2. events d' = events d @ [row] \<and> outbox d' = outbox d @ [orow] \<and>
         history d' = history d @ [h1, h2] \<and> ob_event_id orow = ev_id row \<and>
         rsp_Body rsp = encode_json (Some (CreateEventResponse (ev_id row) True))"
    using assms(3) ok
  proof (rule handler_success)
    fix req :: CreateEventRequest and res
    assume run: "PersistEventWithOutbox lib p \<lparr>in_EventType = ce_EventType req, in_Source = ce_Source req,
        in_Payload = ce_Payload req\<rparr> (header_get (req_Header r) ''Idempotency-Key'') d = (Inr res, d')"
      and rsp: "rsp = json_response (if res_Created res then 201 else 200)
       (Some (CreateEventResponse (res_EventID res) (res_Created res)))"
    from rsp \<open>rsp_Status rsp = 201\<close> have "res_Created res"
      by (simp add: json_response_def split: if_splits)
    with run assms(1) rsp show ?thesis
      by (cases rule: Persist_cases [OF run assms(1)])
        (auto simp: persisted_def Let_def new_event_row_def json_response_def)
  qed
next
  assume "rsp_Status rsp = 500"
  then show "d' = d \<or> pg_fault p Commit \<noteq> None" using assms(3)
    by (auto simp: NewCreateEventHandler_def method_not_allowed_def http_Error_def json_response_def
        split: if_splits sum.splits prod.splits dest: Persist_changed_error)
next
  assume "rsp_Status rsp \<noteq> 201 \<and> rsp_Status rsp \<noteq> 500"
  then show "d' = d" using ingestion.handler_unchanged [of u p lib lib r d rsp d'] assms by simp
qed

theorem create_event_answer_witness:
  "\<exists>row. events example_db = events empty_db @ [row]"
proof -
  have "plain_faults example_server" by (simp add: plain_faults_def example_server_def quiet_pg_def)
  from create_event_answer [OF example_servers(1) this example_post_first]
  show ?thesis by (auto simp: json_response_def)
qed

text \<open>
  C38: A body of more than one mebibyte is never stored. Whatever the store, such a request leaves its
  state as it is and is answered with an error; with 413 when its first mebibyte is the
  beginning of a JSON value but no complete one.
\<close>

theorem oversized_body_rejected:
  assumes "MaxJSONRequestBodyBytes < int (length (req_Body r))"
    and "NewCreateEventHandler lib persist r w = (rsp, w')"
  shows "w' = w \<and> rsp_Status rsp \<in> {400, 405, 413} \<and>
    (req_Method r = ''POST'' \<and> scan_ok (take (2 ^ 20) (req_Body r)) \<and>
     (case json_decode (take (2 ^ 20) (req_Body r)) of DecVal v rest \<Rightarrow> False | _ \<Rightarrow> True)
     \<longrightarrow> rsp_Status rsp = 413)"
proof -
  have "DecodeJSONRequest lib r decodeCreateEventRequest \<noteq> Inr x" for x
    using assms(1) by (simp add: DecodeJSONRequest_def decodeJSONRequest_Inr)
  then obtain e where e: "DecodeJSONRequest lib r decodeCreateEventRequest = Inl e"
    by (cases "DecodeJSONRequest lib r decodeCreateEventRequest") auto
  have "IsRequestBodyTooLarge e"
    if "scan_ok (take (2 ^ 20) (req_Body r))"
      "case json_decode (take (2 ^ 20) (req_Body r)) of DecVal v rest \<Rightarrow> False | _ \<Rightarrow> True"
    using e that assms(1)
    by (auto simp: DecodeJSONRequest_def decodeJSONRequest_def max_bytes_reader_def read_value_def
        MaxJSONRequestBodyBytes_def IsRequestBodyTooLarge_def split: decoded.splits if_splits)
  then show ?thesis using assms(2) e
    by (auto simp: NewCreateEventHandler_def method_not_allowed_def http_Error_def split: if_splits)
qed

theorem oversized_body_rejected_witness:
  "rsp_Status (fst (NewCreateEventHandler plain_lib (PersistEventWithOutbox plain_lib example_server)
     (example_post\<lparr>req_Body := replicate (2 ^ 20 + 1) (CHR '' '')\<rparr>) empty_db)) = 413"
proof -
  let ?r = "example_post\<lparr>req_Body := replicate (2 ^ 20 + 1) (CHR '' '')\<rparr>"
  obtain rsp d where run: "NewCreateEventHandler plain_lib (PersistEventWithOutbox plain_lib example_server)
     ?r empty_db = (rsp, d)" by force
  have spaces: "skip_space (replicate n (CHR '' '')) = []" "scan_from (BeginValue, []) (replicate n (CHR '' ''))" for n
    by (induction n) (auto simp: skip_space_def is_json_space_def begin_value_def)
  have "rsp_Status rsp = 413"
    using oversized_body_rejected [OF _ run] spaces
    by (simp add: MaxJSONRequestBodyBytes_def scan_ok_def json_decode_def example_post_def
        del: replicate.simps)
  with run show ?thesis by simp
qed

end
