(* ===== verification/Operational_Handlers.thy ===== *)
theory Operational_Handlers
  imports Event_Handler
begin

text \<open>
  The handlers of \<open>internal/httpapi/operational_handlers.go\<close>: the status of an event, the
  dead-letter records with their redrive and triage, and the summary of the metrics. The stores
  of the handlers are the interfaces \<open>EventStatusReader\<close>, \<open>DLQStore\<close> and
  \<open>MetricsReader\<close>, as records of functions; the locale \<open>dlq_store_contract\<close> is what the
  handlers rely on, and the operations store is its instance.
\<close>

section \<open>Responses\<close>

definition JInt_ptr :: "int option \<Rightarrow> json option" where
  "JInt_ptr x = Some (ptr_json JInt x)"

definition JStr_ptr :: "bytes option \<Rightarrow> json option" where
  "JStr_ptr x = Some (ptr_json JStr x)"

text \<open>The response types with the names of their fields, as they are encoded.\<close>

definition statusHistoryResponse :: "StatusHistoryEntry \<Rightarrow> json option" where
  "statusHistoryResponse entry = obj_json
     [(''status'', Some (JStr (sh_Status entry))), (''details'', raw_json (sh_Details entry)),
      (''created_at'', time_json (sh_CreatedAt entry))]"

definition statusHistoryResponseFromStore :: "StatusHistoryEntry list \<Rightarrow> json option" where
  "statusHistoryResponseFromStore hist = arr_json (map statusHistoryResponse hist)"

definition deliveryAttemptResponse :: "DeliveryAttempt \<Rightarrow> json option" where
  "deliveryAttemptResponse attempt = obj_json
     [(''attempt_number'', Some (JInt (da_AttemptNumber attempt))),
      (''outcome'', Some (JStr (da_Outcome attempt))),
      (''response_code'', JInt_ptr (da_ResponseCode attempt)),
      (''error'', JStr_ptr (da_Error attempt)),
      (''started_at'', time_json (da_StartedAt attempt)),
      (''completed_at'', time_json (da_CompletedAt attempt))]"

definition deliveryAttemptResponseFromStore :: "DeliveryAttempt list \<Rightarrow> json option" where
  "deliveryAttemptResponseFromStore atts = arr_json (map deliveryAttemptResponse atts)"

definition eventStatusResponseFromStore :: "EventStatus \<Rightarrow> json option" where
  "eventStatusResponseFromStore status = obj_json
     [(''event_id'', Some (JStr (em_EventID (es_Event status)))),
      (''event_type'', Some (JStr (em_EventType (es_Event status)))),
      (''source'', Some (JStr (em_Source (es_Event status)))),
      (''current_status'', Some (JStr (es_CurrentStatus status))),
      (''history'', statusHistoryResponseFromStore (es_History status)),
      (''delivery_attempts'', deliveryAttemptResponseFromStore (es_DeliveryAttempts status))]"

definition dlqRecordResponseFromStore :: "DLQRecord \<Rightarrow> json option" where
  "dlqRecordResponseFromStore r = obj_json
     [(''event_id'', Some (JStr (dr_EventID r))), (''event_type'', Some (JStr (dr_EventType r))),
      (''source'', Some (JStr (dr_Source r))), (''attempt_count'', Some (JInt (dr_AttemptCount r))),
      (''last_error'', JStr_ptr (dr_LastError r)), (''status'', Some (JStr (dr_Status r))),
      (''dead_lettered_at'', time_json (dr_DeadLetteredAt r)),
      (''redriven_at'', (case dr_RedrivenAt r of None \<Rightarrow> Some JNull | Some t \<Rightarrow> time_json t))]"

definition dlqDetailResponse :: "DLQDetail \<Rightarrow> json option" where
  "dlqDetailResponse detail = obj_json
     [(''record'', dlqRecordResponseFromStore (dd_Record detail)),
      (''history'', statusHistoryResponseFromStore (dd_History detail)),
      (''delivery_attempts'', deliveryAttemptResponseFromStore (dd_DeliveryAttempts detail))]"

definition redriveResponse :: "RedriveResult \<Rightarrow> json" where
  "redriveResponse result =
     JObj [(''event_id'', JStr (rr_EventID result)), (''status'', JStr (rr_Status result)),
           (''stream_id'', JStr (rr_StreamID result))]"

definition metricsSummaryResponse :: "MetricsSummary \<Rightarrow> json" where
  "metricsSummaryResponse m =
     JObj [(''total_events'', JInt (ms_TotalEvents m)),
           (''pending_publication'', JInt (ms_PendingPublication m)),
           (''delivered'', JInt (ms_Delivered m)), (''retrying'', JInt (ms_Retrying m)),
           (''open_dlq'', JInt (ms_OpenDLQ m)), (''redriven'', JInt (ms_Redriven m))]"

section \<open>Triage\<close>

record triageRequest =
  tq_EventType :: bytes
  tq_BusinessEventType :: "bytes option"
  tq_Source :: bytes
  tq_Destination :: bytes
  tq_HTTPStatus :: "int option"
  tq_Error :: bytes
  tq_AttemptCount :: int
  tq_SchemaVersion :: "bytes option"

definition latestResponseCode :: "DeliveryAttempt list \<Rightarrow> int option" where
  "latestResponseCode atts =
     (case find (\<lambda>a. da_ResponseCode a \<noteq> None) (rev atts) of
        None \<Rightarrow> None
      | Some a \<Rightarrow> da_ResponseCode a)"

definition nonblank :: "bytes option \<Rightarrow> bytes option" where
  "nonblank t =
     (case t of None \<Rightarrow> None | Some x \<Rightarrow> if TrimSpace x \<noteq> [] then Some (TrimSpace x) else None)"

definition latestError :: "DLQDetail \<Rightarrow> bytes" where
  "latestError detail =
     (case find (\<lambda>a. nonblank (da_Error a) \<noteq> None) (rev (dd_DeliveryAttempts detail)) of
        Some a \<Rightarrow> the (nonblank (da_Error a))
      | None \<Rightarrow>
          (case nonblank (dr_LastError (dd_Record detail)) of
             Some x \<Rightarrow> x
           | None \<Rightarrow> ''Delivery failed''))"

definition stringValuePointer :: "json option \<Rightarrow> bytes option" where
  "stringValuePointer v =
     (case v of
        Some (JStr raw) \<Rightarrow> let clean = TrimSpace raw in if clean = [] then None else Some clean
      | _ \<Rightarrow> None)"

definition payloadData :: "golib \<Rightarrow> bytes \<Rightarrow> fields option" where
  "payloadData lib payload =
     (case json_unmarshal payload of
        Some (JObj kvs) \<Rightarrow> fold_field (put_any_map lib) [] (field_values ''data'' kvs)
      | Some JNull \<Rightarrow> Some []
      | _ \<Rightarrow> None)"

definition safeMetadataFromEventPayload :: "golib \<Rightarrow> bytes \<Rightarrow> bytes option \<times> bytes option" where
  "safeMetadataFromEventPayload lib payload =
     (case payloadData lib payload of
        None \<Rightarrow> (None, None)
      | Some m \<Rightarrow> (stringValuePointer (map_of m ''business_event_type''),
                  stringValuePointer (map_of m ''schema_version'')))"

definition destinationFromEventPayload :: "golib \<Rightarrow> bytes \<Rightarrow> bytes" where
  "destinationFromEventPayload lib payload =
     (if fst (safeMetadataFromEventPayload lib payload) = Some ''invoice.paid''
      then ''Receipt Service'' else [])"

definition triageRequestFromDLQDetail :: "golib \<Rightarrow> DLQDetail \<Rightarrow> triageRequest" where
  "triageRequestFromDLQDetail lib detail =
     (let payload = em_Payload (dd_Event detail);
          destination = destinationFromEventPayload lib payload;
          count = dr_AttemptCount (dd_Record detail);
          (businessEventType, schemaVersion) = safeMetadataFromEventPayload lib payload
      in \<lparr>tq_EventType = dr_EventType (dd_Record detail), tq_BusinessEventType = businessEventType,
          tq_Source = dr_Source (dd_Record detail),
          tq_Destination = (if destination = [] then ''Webhook destination'' else destination),
          tq_HTTPStatus = latestResponseCode (dd_DeliveryAttempts detail),
          tq_Error = latestError detail,
          tq_AttemptCount = (if count < 1 then 1 else count),
          tq_SchemaVersion = schemaVersion\<rparr>)"

section \<open>Handlers\<close>

type_synonym 'w EventStatusReader = "bytes \<Rightarrow> 'w \<Rightarrow> (error + EventStatus) \<times> 'w"
type_synonym 'w MetricsReader = "'w \<Rightarrow> (error + MetricsSummary) \<times> 'w"
type_synonym ('t, 'w) DLQTriageClient = "triageRequest \<Rightarrow> 'w \<Rightarrow> (error + 't) \<times> 'w"

text \<open>A store whose state is \<open>'w\<close>; the redrive takes the publisher.\<close>

record ('b, 'w) DLQStore =
  ds_ListDLQ :: "bytes \<Rightarrow> int \<Rightarrow> 'w \<Rightarrow> (error + DLQRecord list) \<times> 'w"
  ds_DLQDetail :: "bytes \<Rightarrow> 'w \<Rightarrow> (error + DLQDetail) \<times> 'w"
  ds_RedriveDLQ :: "bytes \<Rightarrow> 'b RedrivePublisher option \<Rightarrow> 'w \<Rightarrow> (error + RedriveResult) \<times> 'w"

definition statusEventID :: "bytes \<Rightarrow> bytes" where
  "statusEventID path =
     (let cleanPath = TrimRightChar path (CHR ''/'') in
      TrimChar (TrimSuffix (TrimPrefix cleanPath ''/events/'') ''/status'') (CHR ''/''))"

definition NewEventStatusHandler :: "'w EventStatusReader \<Rightarrow> 'w handler" where
  "NewEventStatusHandler store r w =
     (case requireGet r of
        Some rsp \<Rightarrow> (rsp, w)
      | None \<Rightarrow>
      let eventID = statusEventID (req_Path r) in
      if eventID = [] then (http_Error ''event id required'' 400, w)
      else
        case store eventID w of
          (Inl err, w1) \<Rightarrow>
            (if errors_is err ErrEventNotFound then status_only 404
             else http_Error ''failed to fetch event status'' 500, w1)
        | (Inr status, w1) \<Rightarrow> (writeJSON 200 (eventStatusResponseFromStore status), w1))"

definition NewMetricsSummaryHandler :: "'w MetricsReader \<Rightarrow> 'w handler" where
  "NewMetricsSummaryHandler store r w =
     (case requireGet r of
        Some rsp \<Rightarrow> (rsp, w)
      | None \<Rightarrow>
      case store w of
        (Inl err, w1) \<Rightarrow> (http_Error ''failed to fetch metrics summary'' 500, w1)
      | (Inr summary, w1) \<Rightarrow> (writeJSON 200 (Some (metricsSummaryResponse summary)), w1))"

text \<open>The limit of a list request; \<open>None\<close> is the 400 answer.\<close>

definition listLimit :: "Request \<Rightarrow> int option" where
  "listLimit r =
     (let rawLimit = TrimSpace (header_get (req_Query r) ''limit'') in
      if rawLimit = [] then Some 50
      else
        case Atoi rawLimit of
          None \<Rightarrow> None
        | Some parsed \<Rightarrow> if parsed < 1 \<or> 200 < parsed then None else Some parsed)"

definition handleDLQList :: "('b, 'w) DLQStore \<Rightarrow> 'w handler" where
  "handleDLQList store r w =
     (case requireGet r of
        Some rsp \<Rightarrow> (rsp, w)
      | None \<Rightarrow>
      let given = TrimSpace (header_get (req_Query r) ''status'');
          status = (if given = [] then DLQStatusOpen else given)
      in
      if status \<noteq> DLQStatusOpen \<and> status \<noteq> DLQStatusRedriven
      then (http_Error ''invalid DLQ status'' 400, w)
      else
        case listLimit r of
          None \<Rightarrow> (http_Error ''limit must be between 1 and 200'' 400, w)
        | Some limit \<Rightarrow>
        case ds_ListDLQ store status limit w of
          (Inl err, w1) \<Rightarrow> (http_Error ''failed to list DLQ records'' 500, w1)
        | (Inr records, w1) \<Rightarrow>
            (writeJSON 200 (obj_json [(''records'', arr_json (map dlqRecordResponseFromStore records))]), w1))"

definition handleDLQDetail :: "('b, 'w) DLQStore \<Rightarrow> bytes \<Rightarrow> 'w handler" where
  "handleDLQDetail store eventID r w =
     (case requireGet r of
        Some rsp \<Rightarrow> (rsp, w)
      | None \<Rightarrow>
      case ds_DLQDetail store eventID w of
        (Inl err, w1) \<Rightarrow>
          (if errors_is err ErrDLQNotFound then status_only 404
           else http_Error ''failed to fetch DLQ record'' 500, w1)
      | (Inr detail, w1) \<Rightarrow> (writeJSON 200 (dlqDetailResponse detail), w1))"

definition handleDLQRedrive ::
    "('b, 'w) DLQStore \<Rightarrow> 'b RedrivePublisher option \<Rightarrow> bytes \<Rightarrow> 'w handler" where
  "handleDLQRedrive store publish eventID r w =
     (if req_Method r \<noteq> ''POST'' then (method_not_allowed ''POST'', w)
      else
        case ds_RedriveDLQ store eventID publish w of
          (Inl err, w1) \<Rightarrow>
            (if errors_is err ErrDLQNotFound then status_only 404
             else if errors_is err ErrDLQNotOpen then http_Error ''DLQ record is not open'' 409
             else http_Error ''failed to redrive DLQ record'' 503, w1)
        | (Inr result, w1) \<Rightarrow> (writeJSON 202 (Some (redriveResponse result)), w1))"

definition handleDLQTriage ::
    "golib \<Rightarrow> ('t \<Rightarrow> json) \<Rightarrow> ('b, 'w) DLQStore \<Rightarrow> ('t, 'w) DLQTriageClient option \<Rightarrow> bytes \<Rightarrow> 'w handler" where
  "handleDLQTriage lib triageResponse store triageClient eventID r w =
     (if req_Method r \<noteq> ''POST'' then (method_not_allowed ''POST'', w)
      else
        case triageClient of
          None \<Rightarrow> (http_Error ''AI triage service is not configured'' 503, w)
        | Some client \<Rightarrow>
        case ds_DLQDetail store eventID w of
          (Inl err, w1) \<Rightarrow>
            (if errors_is err ErrDLQNotFound then status_only 404
             else http_Error ''failed to fetch DLQ record'' 500, w1)
        | (Inr detail, w1) \<Rightarrow>
        case client (triageRequestFromDLQDetail lib detail) w1 of
          (Inl err, w2) \<Rightarrow>
            (writeJSON 503 (Some (JObj [(''error'', JStr ''TRIAGE_UNAVAILABLE'')])), w2)
        | (Inr triage, w2) \<Rightarrow> (writeJSON 200 (Some (triageResponse triage)), w2))"

definition NewDLQHandler ::
    "golib \<Rightarrow> ('t \<Rightarrow> json) \<Rightarrow> ('b, 'w) DLQStore \<Rightarrow> 'b RedrivePublisher option \<Rightarrow>
     ('t, 'w) DLQTriageClient option \<Rightarrow> 'w handler" where
  "NewDLQHandler lib triageResponse store publish triageClient r w =
     (let path = TrimChar (TrimPrefix (req_Path r) ''/dlq'') (CHR ''/'') in
      if path = [] then handleDLQList store r w
      else
        case split_on (CHR ''/'') path of
          [eventID] \<Rightarrow> handleDLQDetail store eventID r w
        | [eventID, action] \<Rightarrow>
            if action = ''redrive'' then handleDLQRedrive store publish eventID r w
            else if action = ''triage'' then handleDLQTriage lib triageResponse store triageClient eventID r w
            else (status_only 404, w)
        | _ \<Rightarrow> (status_only 404, w))"

section \<open>The interface of the dead-letter store\<close>

text \<open>
  What the handlers rely on: listing and looking up records leave the state as it is, and a
  redrive keeps the invariant of the state.
\<close>

locale dlq_store_contract =
  fixes store :: "('b, 'w) DLQStore" and inv :: "'w \<Rightarrow> bool"
  assumes list_reads: "ds_ListDLQ store status limit w = (res, w') \<Longrightarrow> w' = w"
    and detail_reads: "ds_DLQDetail store eventID w = (res', w') \<Longrightarrow> w' = w"
    and redrive_keeps: "inv w \<Longrightarrow> ds_RedriveDLQ store eventID publish w = (res'', w') \<Longrightarrow> inv w'"
begin

lemma get_reads_only:
  "req_Method r = ''GET'' \<Longrightarrow> NewDLQHandler lib tj store publish client r w = (rsp, w') \<Longrightarrow> w' = w"
  by (auto simp: NewDLQHandler_def handleDLQList_def handleDLQDetail_def handleDLQRedrive_def
      handleDLQTriage_def requireGet_def Let_def
      split: if_splits list.splits option.splits prod.splits sum.splits dest: list_reads detail_reads)

lemma handler_keeps:
  assumes "\<And>c q v res v'. client = Some c \<Longrightarrow> inv v \<Longrightarrow> c q v = (res, v') \<Longrightarrow> inv v'"
    and "inv w" "NewDLQHandler lib tj store publish client r w = (rsp, w')"
  shows "inv w'"
proof -
  have l: "inv w'" if "handleDLQList store r w = (rsp, w')"
    using that assms(2) by (auto simp: handleDLQList_def Let_def
        split: if_splits option.splits prod.splits sum.splits dest: list_reads)
  have d: "inv w'" if "handleDLQDetail store e r w = (rsp, w')" for e
    using that assms(2) by (auto simp: handleDLQDetail_def
        split: if_splits option.splits prod.splits sum.splits dest: detail_reads)
  have v: "inv w'" if "handleDLQRedrive store publish e r w = (rsp, w')" for e
    using that assms(2) redrive_keeps [OF assms(2)]
    by (auto simp: handleDLQRedrive_def split: if_splits prod.splits sum.splits)
  have t: "inv w'" if "handleDLQTriage lib tj store client e r w = (rsp, w')" for e
    using that assms(1,2) by (auto simp: handleDLQTriage_def
        split: if_splits option.splits prod.splits sum.splits dest: detail_reads)
  show ?thesis using assms(2,3) l d v t
    by (auto simp: NewDLQHandler_def Let_def split: if_splits list.splits)
qed

end

text \<open>The operations store as the store of the handlers; its state is the tables and the broker.\<close>

definition operationsDLQStore :: "pg \<Rightarrow> Store \<Rightarrow> ('b, db \<times> 'b) DLQStore" where
  "operationsDLQStore p s =
     \<lparr>ds_ListDLQ = (\<lambda>status limit (d, b). (ListDLQ p s status limit d, (d, b))),
      ds_DLQDetail = (\<lambda>eventID (d, b). (DLQDetail_of p s eventID d, (d, b))),
      ds_RedriveDLQ = (\<lambda>eventID publish (d, b). RedriveDLQ p s eventID publish d b)\<rparr>"

interpretation operations: dlq_store_contract "operationsDLQStore p s" "\<lambda>(d, b). lifecycle_ok u d"
  for p s u
proof unfold_locales
  fix w w' :: "db \<times> 'b" and eventID publish res''
  assume "case w of (d, b) \<Rightarrow> lifecycle_ok u d"
    "ds_RedriveDLQ (operationsDLQStore p s) eventID publish w = (res'', w')"
  then show "case w' of (d, b) \<Rightarrow> lifecycle_ok u d"
    using RedriveDLQ_lifecycle [of u "fst w" p s eventID publish "snd w"]
    by (auto simp: operationsDLQStore_def split: prod.splits)
qed (auto simp: operationsDLQStore_def split: prod.splits)

section \<open>Redrive over HTTP\<close>

definition redrivePath :: "bytes \<Rightarrow> bytes" where
  "redrivePath eventID = ''/dlq/'' @ eventID @ ''/redrive''"

lemma redrive_route:
  assumes "eventID \<noteq> []" "CHR ''/'' \<notin> set eventID" "req_Path r = redrivePath eventID"
  shows "NewDLQHandler lib tj store publish client r w = handleDLQRedrive store publish eventID r w"
proof -
  have "TrimPrefix (req_Path r) ''/dlq'' = CHR ''/'' # eventID @ ''/redrive''"
    using assms(3) by (simp add: TrimPrefix_def redrivePath_def prefix_def)
  moreover have "TrimChar (CHR ''/'' # eventID @ ''/redrive'') (CHR ''/'') = eventID @ ''/redrive''"
    using assms(1,2) by (cases eventID) (auto simp: TrimChar_def TrimRightChar_def)
  moreover have "split_on (CHR ''/'') (eventID @ ''/redrive'') = [eventID, ''redrive'']"
    using split_on_append [OF assms(2), of "''redrive''"] by (simp add: split_on_none)
  ultimately show ?thesis by (simp add: NewDLQHandler_def)
qed

lemma redriven_not_open:
  assumes "RedriveDLQ p s e pub d w = (Inr r, d1, w1)" "pg_uuid p2 = pg_uuid p" "no_faults p2"
  shows "RedriveDLQ p2 s e pub d1 w1 = (Inl ErrDLQNotOpen, d1, w1)"
  using assms(1)
proof (cases rule: RedriveDLQ_outcome)
  case (redriven q ev sid f)
  have "find (\<lambda>q. q_event_id q = ev_id ev) (dlq d1) \<noteq> None"
    using redriven(3,4,8) by (auto simp: find_None_iff)
  then obtain q1 where q1: "find (\<lambda>q. q_event_id q = ev_id ev) (dlq d1) = Some q1" by auto
  have "q_status q1 = DLQStatusRedriven"
    using find_SomeD [OF q1] redriven(8) by (auto simp: set_redriven_def split: if_splits)
  moreover have "\<not> poolMissing s" using assms(1) by (auto simp: RedriveDLQ_def split: if_splits)
  ultimately show ?thesis using q1 redriven(1,2) assms(2,3)
    by (auto simp: RedriveDLQ_def lockDLQ_def guard_def cast_uuid_def no_faults_def dlq_consts)
qed simp

text \<open>
  C16: A redrive over HTTP. When \<open>POST /dlq/{id}/redrive\<close> is answered with 202, the event had an
  open dead-letter record, the broker accepted the message of exactly this event, and the record is
  now marked redriven. Sending the request again is answered with 409, sends nothing and changes
  nothing.
\<close>

theorem http_redrive_once:
  assumes "eventID \<noteq> []" "CHR ''/'' \<notin> set eventID" "req_Path r = redrivePath eventID"
    and "NewDLQHandler lib tj (operationsDLQStore p s) (Some pub) client r (d, b) = (rsp, d1, b1)"
    and "rsp_Status rsp = 202" "pg_uuid p2 = pg_uuid p" "no_faults p2"
  shows "(\<exists>q ev sid. q \<in> set (dlq d) \<and> ev \<in> set (events d) \<and> pg_uuid p eventID = Some (ev_id ev) \<and>
      q_event_id q = ev_id ev \<and> q_status q = DLQStatusOpen \<and>
      pub (redriveValues (event_metadata ev)) b = (Inr sid, b1) \<and>
      set_redriven p (ev_id ev) q \<in> set (dlq d1) \<and> logged d1 (ev_id ev) StatusRedriven) \<and>
    NewDLQHandler lib tj (operationsDLQStore p2 s) (Some pub) client r (d1, b1) =
      (http_Error ''DLQ record is not open'' 409, d1, b1)"
proof -
  note route = redrive_route [OF assms(1-3)]
  obtain res where run: "RedriveDLQ p s eventID (Some pub) d b = (Inr res, d1, b1)"
    and post: "req_Method r = ''POST''"
    using assms(4,5) by (auto simp: route handleDLQRedrive_def operationsDLQStore_def method_not_allowed_def
        http_Error_def split: if_splits sum.splits prod.splits)
  have again: "RedriveDLQ p2 s eventID (Some pub) d1 b1 = (Inl ErrDLQNotOpen, d1, b1)"
    by (rule redriven_not_open [OF run assms(6,7)])
  from run show ?thesis
  proof (cases rule: RedriveDLQ_outcome)
    case (redriven q ev sid f)
    then have "\<exists>q ev sid. q \<in> set (dlq d) \<and> ev \<in> set (events d) \<and> pg_uuid p eventID = Some (ev_id ev) \<and>
      q_event_id q = ev_id ev \<and> q_status q = DLQStatusOpen \<and>
      pub (redriveValues (event_metadata ev)) b = (Inr sid, b1) \<and>
      set_redriven p (ev_id ev) q \<in> set (dlq d1) \<and> logged d1 (ev_id ev) StatusRedriven"
      by (intro exI [of _ q] exI [of _ ev] exI [of _ sid]) (auto simp: logged_add_history)
    then show ?thesis using again post
      by (simp add: route handleDLQRedrive_def operationsDLQStore_def)
  qed simp
qed

definition redrive_request :: Request where
  "redrive_request = \<lparr>req_Method = ''POST'', req_Path = ''/dlq/e1/redrive'', req_Query = [],
     req_Header = [], req_Body = [], req_BodyError = None\<rparr>"

theorem http_redrive_once_witness:
  "case NewDLQHandler plain_lib (\<lambda>t :: unit. JNull) (operationsDLQStore (quiet_pg [] [] 1) (Some True))
       (Some (\<lambda>vs n. (Inr ''2-0'', Suc n))) None redrive_request (dead_db, 0) of
     (rsp, d1, n) \<Rightarrow> rsp_Status rsp = 202 \<and> n = 1 \<and>
       NewDLQHandler plain_lib (\<lambda>t :: unit. JNull) (operationsDLQStore (quiet_pg [] [] 2) (Some True))
         (Some (\<lambda>vs n. (Inr ''2-0'', Suc n))) None redrive_request (d1, n) =
       (http_Error ''DLQ record is not open'' 409, d1, n)"
  (is "case ?first of (rsp, d1, n) \<Rightarrow> ?P rsp d1 n")
proof -
  have path: "req_Path redrive_request = redrivePath ''e1''"
    by (simp add: redrive_request_def redrivePath_def)
  have ok: "case ?first of (rsp, d1, n) \<Rightarrow> rsp_Status rsp = 202 \<and> n = 1" by code_simp
  obtain rsp d1 n where run: "?first = (rsp, d1, n)" by (metis surj_pair)
  have "pg_uuid (quiet_pg [] [] 2) = pg_uuid (quiet_pg [] [] 1)" by (simp add: quiet_pg_def)
  from http_redrive_once [OF _ _ path run _ this quiet_server(2)] show ?thesis using ok run by simp
qed

end
