(* ===== verification/Delivery_Failure.thy ===== *)
theory Delivery_Failure
  imports Go_Base
begin

text \<open>
  The failure classification of \<open>internal/delivery/failure.go\<close>: the constructors of
  delivery failures, the classification of HTTP statuses and the decision between a retry and
  the dead-letter queue. The type \<open>Failure\<close> and its \<open>Error\<close> text are part of the
  mutually recursive error type of the prelude; the methods on a possibly nil pointer are here.
\<close>

type_synonym FailureKind = bytes
type_synonym FailureAction = bytes

definition FailureRetryable :: FailureKind where "FailureRetryable = ''retryable''"
definition FailurePermanent :: FailureKind where "FailurePermanent = ''permanent''"
definition FailureActionRetry :: FailureAction where "FailureActionRetry = ''retry''"
definition FailureActionDeadLetter :: FailureAction where
  "FailureActionDeadLetter = ''dead_letter''"

fun Failure_Error :: "failure option \<Rightarrow> bytes" where
  "Failure_Error None = ''delivery failure''"
| "Failure_Error (Some f) = failure_text f"

fun Failure_Unwrap :: "failure option \<Rightarrow> error option" where
  "Failure_Unwrap None = None"
| "Failure_Unwrap (Some f) = Cause f"

definition NewRetryableFailure :: "error option \<Rightarrow> error" where
  "NewRetryableFailure cause = FailureErr (Failure FailureRetryable 0 cause)"

definition NewPermanentFailure :: "error option \<Rightarrow> error" where
  "NewPermanentFailure cause = FailureErr (Failure FailurePermanent 0 cause)"

text \<open>\<open>net/http\<close>'s table of status texts.\<close>

definition status_texts :: "(int \<times> bytes) list" where
  "status_texts =
     [(100, ''Continue''), (101, ''Switching Protocols''), (102, ''Processing''),
      (103, ''Early Hints''), (200, ''OK''), (201, ''Created''), (202, ''Accepted''),
      (203, ''Non-Authoritative Information''), (204, ''No Content''), (205, ''Reset Content''),
      (206, ''Partial Content''), (207, ''Multi-Status''), (208, ''Already Reported''),
      (226, ''IM Used''), (300, ''Multiple Choices''), (301, ''Moved Permanently''),
      (302, ''Found''), (303, ''See Other''), (304, ''Not Modified''), (305, ''Use Proxy''),
      (307, ''Temporary Redirect''), (308, ''Permanent Redirect''), (400, ''Bad Request''),
      (401, ''Unauthorized''), (402, ''Payment Required''), (403, ''Forbidden''),
      (404, ''Not Found''), (405, ''Method Not Allowed''), (406, ''Not Acceptable''),
      (407, ''Proxy Authentication Required''), (408, ''Request Timeout''), (409, ''Conflict''),
      (410, ''Gone''), (411, ''Length Required''), (412, ''Precondition Failed''),
      (413, ''Request Entity Too Large''), (414, ''Request URI Too Long''),
      (415, ''Unsupported Media Type''), (416, ''Requested Range Not Satisfiable''),
      (417, ''Expectation Failed''), (418, ''I'm a teapot''), (421, ''Misdirected Request''),
      (422, ''Unprocessable Entity''), (423, ''Locked''), (424, ''Failed Dependency''),
      (425, ''Too Early''), (426, ''Upgrade Required''), (428, ''Precondition Required''),
      (429, ''Too Many Requests''), (431, ''Request Header Fields Too Large''),
      (451, ''Unavailable For Legal Reasons''), (500, ''Internal Server Error''),
      (501, ''Not Implemented''), (502, ''Bad Gateway''), (503, ''Service Unavailable''),
      (504, ''Gateway Timeout''), (505, ''HTTP Version Not Supported''),
      (506, ''Variant Also Negotiates''), (507, ''Insufficient Storage''),
      (508, ''Loop Detected''), (510, ''Not Extended''),
      (511, ''Network Authentication Required'')]"

definition StatusText :: "int \<Rightarrow> bytes" where
  "StatusText code = (case map_of status_texts code of Some t \<Rightarrow> t | None \<Rightarrow> [])"

definition ClassifyHTTPStatus :: "int \<Rightarrow> FailureKind" where
  "ClassifyHTTPStatus statusCode =
     (if statusCode = 408 \<or> statusCode = 425 \<or> statusCode = 429 then FailureRetryable
      else if 500 \<le> statusCode \<and> statusCode \<le> 599 then FailureRetryable
      else if 400 \<le> statusCode \<and> statusCode \<le> 499 then FailurePermanent
      else [])"

definition NewHTTPFailure :: "int \<Rightarrow> bytes \<Rightarrow> error option" where
  "NewHTTPFailure statusCode status =
     (let kind = ClassifyHTTPStatus statusCode in
      if kind = [] then None
      else
        let trimmed = TrimSpace status;
            named = (if trimmed = [] then StatusText statusCode else trimmed);
            statusText = (if named = [] then ''HTTP status '' @ Itoa statusCode else named)
        in Some (FailureErr (Failure kind statusCode (Some (ErrNew statusText)))))"

definition IsRetryable :: "error \<Rightarrow> bool" where
  "IsRetryable err =
     (case errors_as_failure err of None \<Rightarrow> False | Some f \<Rightarrow> Kind f = FailureRetryable)"

definition IsPermanent :: "error \<Rightarrow> bool" where
  "IsPermanent err =
     (case errors_as_failure err of None \<Rightarrow> False | Some f \<Rightarrow> Kind f = FailurePermanent)"

definition DecideFailureAction :: "error \<Rightarrow> int \<Rightarrow> int \<Rightarrow> FailureAction" where
  "DecideFailureAction err retryCount maxRetries =
     (if IsPermanent err then FailureActionDeadLetter
      else if retryCount < maxRetries then FailureActionRetry
      else FailureActionDeadLetter)"

section \<open>Lemmas\<close>

lemmas failure_consts =
  FailureRetryable_def FailurePermanent_def FailureActionRetry_def FailureActionDeadLetter_def

lemma failure_kinds_distinct [simp]:
  "FailureRetryable \<noteq> FailurePermanent" "FailurePermanent \<noteq> FailureRetryable"
  "FailureRetryable \<noteq> []" "FailurePermanent \<noteq> []"
  "[] \<noteq> FailureRetryable" "[] \<noteq> FailurePermanent"
  "FailureActionRetry \<noteq> FailureActionDeadLetter" "FailureActionDeadLetter \<noteq> FailureActionRetry"
  by (simp_all add: failure_consts)

lemma IsRetryable_wrap [err_simps]: "IsRetryable (ErrWrap p e q) = IsRetryable e"
  by (simp add: IsRetryable_def)

lemma IsPermanent_wrap [err_simps]: "IsPermanent (ErrWrap p e q) = IsPermanent e"
  by (simp add: IsPermanent_def)

lemma IsPermanent_New [err_simps, simp]:
  "IsPermanent (NewPermanentFailure c)" "\<not> IsPermanent (NewRetryableFailure c)"
  by (simp_all add: IsPermanent_def NewPermanentFailure_def NewRetryableFailure_def)

lemma IsRetryable_New [err_simps, simp]:
  "IsRetryable (NewRetryableFailure c)" "\<not> IsRetryable (NewPermanentFailure c)"
  by (simp_all add: IsRetryable_def NewPermanentFailure_def NewRetryableFailure_def)

lemma ClassifyHTTPStatus_cases:
  "ClassifyHTTPStatus c = FailureRetryable \<longleftrightarrow> c \<in> {408, 425, 429} \<or> 500 \<le> c \<and> c \<le> 599"
  "ClassifyHTTPStatus c = FailurePermanent \<longleftrightarrow>
     400 \<le> c \<and> c \<le> 499 \<and> c \<notin> {408, 425, 429}"
  "ClassifyHTTPStatus c = [] \<longleftrightarrow> c < 400 \<or> 599 < c"
  by (auto simp: ClassifyHTTPStatus_def)

lemma DecideFailureAction_retry_iff [op_defs]:
  "DecideFailureAction e r m = FailureActionRetry \<longleftrightarrow> \<not> IsPermanent e \<and> r < m"
  by (simp add: DecideFailureAction_def)

lemma DecideFailureAction_cases:
  "DecideFailureAction e r m = FailureActionRetry \<or>
   DecideFailureAction e r m = FailureActionDeadLetter"
  by (simp add: DecideFailureAction_def)

text \<open>
  The failure made from an HTTP response. It exists exactly for the statuses 400 to 599; it
  carries the status and a non-empty cause; it is retryable for 408, 425, 429 and the 5xx codes
  and permanent for every other 4xx code, never both; and it keeps this classification when it is
  wrapped.
\<close>

theorem NewHTTPFailure_classifies:
  "case NewHTTPFailure c st of
     None \<Rightarrow> c < 400 \<or> 599 < c
   | Some e \<Rightarrow>
       400 \<le> c \<and> c \<le> 599 \<and>
       (IsRetryable (ErrWrap p e q) \<longleftrightarrow> c \<in> {408, 425, 429} \<or> 500 \<le> c) \<and>
       (IsPermanent (ErrWrap p e q) \<longleftrightarrow> \<not> IsRetryable e) \<and>
       (\<exists>k t. e = FailureErr (Failure k c (Some (ErrNew t))) \<and> t \<noteq> [])"
  by (auto simp: NewHTTPFailure_def Let_def IsRetryable_def IsPermanent_def ClassifyHTTPStatus_def)

end
