(* ===== verification/Redis_Publisher.thy ===== *)
theory Redis_Publisher
  imports Outbox_Publisher
begin

text \<open>
  The publisher of \<open>internal/broker/redisstream/publisher.go\<close>, which appends an outbox event to a
  Redis stream. The command \<open>XADD\<close> is a parameter: it takes the stream and the fields, acts on
  the state of the broker and returns the identifier of the new entry or an error.
\<close>

type_synonym 'w xadd = "bytes \<Rightarrow> fields \<Rightarrow> 'w \<Rightarrow> (error + bytes) \<times> 'w"

record 'w Publisher =
  pb_client :: "'w xadd option"
  pb_stream :: bytes

definition NewPublisher :: "'w xadd option \<Rightarrow> bytes \<Rightarrow> error + 'w Publisher" where
  "NewPublisher client stream =
     (if client = None then Inl (ErrNew ''redis stream publisher client is required'')
      else
        let normalizedStream = TrimSpace stream in
        if normalizedStream = [] then Inl (ErrNew ''redis stream publisher stream is required'')
        else Inr \<lparr>pb_client = client, pb_stream = normalizedStream\<rparr>)"

definition streamValues :: "OutboxEvent \<Rightarrow> fields" where
  "streamValues event = str_fields
     [(''outbox_id'', oe_OutboxID event), (''event_id'', oe_EventID event),
      (''event_type'', oe_EventType event), (''source'', oe_Source event),
      (''payload'', oe_Payload event), (''retry'', ''0''),
      (''created_at'', RFC3339 (oe_CreatedAt event))]"

definition Publish :: "'w Publisher option \<Rightarrow> 'w PublishOutboxEventFunc" where
  "Publish pb event w =
     (case pb of
        None \<Rightarrow> (Some (ErrNew ''redis stream publisher is nil''), w)
      | Some b \<Rightarrow>
      case pb_client b of
        None \<Rightarrow> (Some (ErrNew ''redis stream publisher client is required''), w)
      | Some xadd \<Rightarrow>
      if TrimSpace (pb_stream b) = []
      then (Some (ErrNew ''redis stream publisher stream is required''), w)
      else
        let what = ''publish outbox '' @ oe_OutboxID event @ '' event '' @ oe_EventID event @
                   '' to Redis stream '' @ pb_stream b
        in case xadd (pb_stream b) (streamValues event) w of
          (Inl e, w1) \<Rightarrow> (Some (ErrWrap (what @ '': '') e []), w1)
        | (Inr streamID, w1) \<Rightarrow>
            if streamID = [] then (Some (ErrNew (what @ '' returned empty stream id'')), w1)
            else (None, w1))"

end
