(* ===== verification/Outbox_Runner.thy ===== *)
theory Outbox_Runner
  imports Outbox_Publisher
begin

text \<open>
  The polling loop of \<open>internal/outbox/runner.go\<close>. The context and the timer are part of the
  state \<open>'w\<close>: \<open>ctx_err\<close> tells whether the context is cancelled, \<open>wait\<close> sleeps until
  the delay is over (\<open>True\<close>) or the context is done (\<open>False\<close>). The loop may run forever, so
  \<open>Run\<close> is a partial function whose value \<open>None\<close> is that it does not return; its only
  return value in the code is a nil error.
\<close>

type_synonym 'w PublishNextFunc = "'w \<Rightarrow> (PublishNextOutboxResult \<times> error option) \<times> 'w"

record 'w Context =
  ctx_err :: "'w \<Rightarrow> bool"
  ctx_wait :: "duration \<Rightarrow> 'w \<Rightarrow> bool \<times> 'w"

record 'w Runner =
  rn_publishNext :: "'w PublishNextFunc"
  rn_pollInterval :: duration
  rn_onError :: "(error \<Rightarrow> 'w \<Rightarrow> 'w) option"

definition NewRunner ::
    "'w PublishNextFunc option \<Rightarrow> duration \<Rightarrow> (error \<Rightarrow> 'w \<Rightarrow> 'w) option \<Rightarrow> error + 'w Runner" where
  "NewRunner publishNext pollInterval onError =
     (case publishNext of
        None \<Rightarrow> Inl (ErrNew ''outbox runner publish function is required'')
      | Some f \<Rightarrow>
          if pollInterval \<le> 0
          then Inl (ErrNew ''outbox runner poll interval must be positive'')
          else Inr \<lparr>rn_publishNext = f, rn_pollInterval = pollInterval, rn_onError = onError\<rparr>)"

definition reportError :: "'w Runner \<Rightarrow> error \<Rightarrow> 'w \<Rightarrow> 'w" where
  "reportError r err w = (case rn_onError r of None \<Rightarrow> w | Some f \<Rightarrow> f err w)"

text \<open>One round of the loop: \<open>(True, w)\<close> when the loop goes on, \<open>(False, w)\<close> when \<open>Run\<close>
  returns.\<close>

definition runRound :: "'w Context \<Rightarrow> 'w Runner \<Rightarrow> 'w \<Rightarrow> bool \<times> 'w" where
  "runRound ctx r w =
     (if ctx_err ctx w then (False, w)
      else
        case rn_publishNext r w of ((result, err), w1) \<Rightarrow>
          if ctx_err ctx w1 then (False, w1)
          else
            case err of
              Some e \<Rightarrow>
                if errors_is e ErrOutboxPublishFailed then (True, reportError r e w1)
                else ctx_wait ctx (rn_pollInterval r) (reportError r e w1)
            | None \<Rightarrow>
                if pn_Found result then (True, w1)
                else ctx_wait ctx (rn_pollInterval r) w1)"

partial_function (option) Run :: "'w Context \<Rightarrow> 'w Runner \<Rightarrow> 'w \<Rightarrow> 'w option" where
  "Run ctx r w =
     (case runRound ctx r w of (go_on, w1) \<Rightarrow> if go_on then Run ctx r w1 else Some w1)"

section \<open>Lemmas\<close>

text \<open>\<open>waitForContext\<close> answers false only when the context is done.\<close>

definition wait_ok :: "'w Context \<Rightarrow> bool" where
  "wait_ok ctx \<longleftrightarrow> (\<forall>d v v1. ctx_wait ctx d v = (False, v1) \<longrightarrow> ctx_err ctx v1)"

text \<open>A cancelled context stays cancelled.\<close>

definition stays_cancelled :: "'w Context \<Rightarrow> 'w Runner \<Rightarrow> bool" where
  "stays_cancelled ctx r \<longleftrightarrow>
     (\<forall>v. ctx_err ctx v \<longrightarrow> ctx_err ctx (snd (rn_publishNext r v))) \<and>
     (\<forall>e v. ctx_err ctx v \<longrightarrow> ctx_err ctx (reportError r e v)) \<and>
     (\<forall>d v. ctx_err ctx v \<longrightarrow> ctx_err ctx (snd (ctx_wait ctx d v)))"

text \<open>
  The loop without a look at the context: \<open>poll\<close> publishes once, reports an error, and waits unless there
  may be more to publish; \<open>polls\<close> does so a number of times.
\<close>

definition poll :: "'w Context \<Rightarrow> 'w Runner \<Rightarrow> 'w \<Rightarrow> 'w" where
  "poll ctx r w =
     (case rn_publishNext r w of ((result, err), w1) \<Rightarrow>
      let w2 = (case err of None \<Rightarrow> w1 | Some e \<Rightarrow> reportError r e w1);
          more = (case err of None \<Rightarrow> pn_Found result | Some e \<Rightarrow> errors_is e ErrOutboxPublishFailed)
      in if more then w2 else snd (ctx_wait ctx (rn_pollInterval r) w2))"

fun polls :: "'w Context \<Rightarrow> 'w Runner \<Rightarrow> nat \<Rightarrow> 'w \<Rightarrow> 'w" where
  "polls ctx r 0 w = w"
| "polls ctx r (Suc n) w = polls ctx r n (poll ctx r w)"

text \<open>The state in which the loop stops if the context is first seen cancelled after \<open>n\<close> polls: before the
  first one, between a publication and what follows it, or after the poll.\<close>

definition stop_state :: "'w Context \<Rightarrow> 'w Runner \<Rightarrow> nat \<Rightarrow> 'w \<Rightarrow> 'w" where
  "stop_state ctx r n w =
     (case n of
        0 \<Rightarrow> w
      | Suc k \<Rightarrow>
          let v = snd (rn_publishNext r (polls ctx r k w)) in
          if ctx_err ctx v then v else polls ctx r n w)"

lemma Run_cancelled: "ctx_err ctx w \<Longrightarrow> Run ctx r w = Some w"
  by (subst Run.simps) (simp add: runRound_def)

text \<open>A round from a state in which the context is not cancelled.\<close>

lemma runRound_poll:
  assumes "\<not> ctx_err ctx w" "wait_ok ctx"
  shows "ctx_err ctx (snd (rn_publishNext r w)) \<and> runRound ctx r w = (False, snd (rn_publishNext r w)) \<or>
    \<not> ctx_err ctx (snd (rn_publishNext r w)) \<and> snd (runRound ctx r w) = poll ctx r w \<and>
      (fst (runRound ctx r w) \<or> ctx_err ctx (poll ctx r w))"
proof -
  obtain result err w1 where p: "rn_publishNext r w = ((result, err), w1)" by (metis surj_pair)
  have wait: "fst (ctx_wait ctx t v) \<or> ctx_err ctx (snd (ctx_wait ctx t v))" for t v
    using assms(2) by (cases "ctx_wait ctx t v"; cases "fst (ctx_wait ctx t v)") (auto simp: wait_ok_def)
  show ?thesis using assms(1) wait p
    by (auto simp: runRound_def poll_def Let_def split: option.splits)
qed

lemma poll_cancelled:
  assumes "stays_cancelled ctx r" "ctx_err ctx (snd (rn_publishNext r w))"
  shows "ctx_err ctx (poll ctx r w)"
  using assms by (auto simp: stays_cancelled_def poll_def Let_def split: prod.splits option.splits)

lemma Run_poll:
  assumes "\<not> ctx_err ctx w" "wait_ok ctx" "stays_cancelled ctx r"
  shows "Run ctx r w = (if ctx_err ctx (snd (rn_publishNext r w)) then Some (snd (rn_publishNext r w))
    else Run ctx r (poll ctx r w))"
  using runRound_poll [OF assms(1,2), of r]
  by (subst Run.simps) (auto simp: Run_cancelled split: prod.splits)

lemma stop_state_Suc:
  "stop_state ctx r (Suc (Suc n)) w = stop_state ctx r (Suc n) (poll ctx r w)"
  by (simp add: stop_state_def Let_def)

text \<open>The loop returns when a poll leads to a cancelled context.\<close>

lemma Run_stops:
  assumes "wait_ok ctx" "stays_cancelled ctx r" "\<forall>k < n. \<not> ctx_err ctx (polls ctx r k w)" "ctx_err ctx (polls ctx r n w)"
  shows "Run ctx r w = Some (stop_state ctx r n w)"
  using assms(3,4)
proof (induction n arbitrary: w)
  case 0
  then show ?case by (simp add: Run_cancelled stop_state_def)
next
  case (Suc n)
  have w: "\<not> ctx_err ctx w" using Suc.prems(1) by (metis polls.simps(1) zero_less_Suc)
  have later: "\<forall>k < n. \<not> ctx_err ctx (polls ctx r k (poll ctx r w))" using Suc.prems(1) by fastforce
  have IH: "Run ctx r (poll ctx r w) = Some (stop_state ctx r n (poll ctx r w))"
    using Suc.IH [OF later] Suc.prems(2) by simp
  show ?case
  proof (cases n)
    case 0
    then show ?thesis using IH Run_poll [OF w assms(1,2)] by (simp add: stop_state_def Let_def)
  next
    case (Suc m)
    then have "\<not> ctx_err ctx (poll ctx r w)" using later by (metis polls.simps(1) zero_less_Suc)
    then have "\<not> ctx_err ctx (snd (rn_publishNext r w))" using poll_cancelled [OF assms(2)] by blast
    then show ?thesis using IH Run_poll [OF w assms(1,2)] Suc by (simp add: stop_state_Suc)
  qed
qed

lemma Run_sees_cancelled:
  assumes "Run ctx r w = Some w1" "wait_ok ctx" "stays_cancelled ctx r"
  shows "\<exists>n. ctx_err ctx (polls ctx r n w)"
proof -
  have "wait_ok ctx \<longrightarrow> stays_cancelled ctx r \<longrightarrow> (\<exists>n. ctx_err ctx (polls ctx r n w))"
  proof (rule Run.raw_induct [OF _ assms(1)])
    fix run :: "'a Context \<Rightarrow> 'a Runner \<Rightarrow> 'a \<Rightarrow> 'a option" and ctx r w w1
    assume IH: "\<And>ctx r w w1. run ctx r w = Some w1 \<Longrightarrow>
        wait_ok ctx \<longrightarrow> stays_cancelled ctx r \<longrightarrow> (\<exists>n. ctx_err ctx (polls ctx r n w))"
      and run: "(case runRound ctx r w of (go_on, v) \<Rightarrow> if go_on then run ctx r v else Some v) = Some w1"
    show "wait_ok ctx \<longrightarrow> stays_cancelled ctx r \<longrightarrow> (\<exists>n. ctx_err ctx (polls ctx r n w))"
    proof (intro impI)
      assume ok: "wait_ok ctx" "stays_cancelled ctx r"
      show "\<exists>n. ctx_err ctx (polls ctx r n w)"
      proof (cases "ctx_err ctx w \<or> ctx_err ctx (poll ctx r w)")
        case True
        then show ?thesis by (metis polls.simps)
      next
        case False
        then have "runRound ctx r w = (True, poll ctx r w)"
          using runRound_poll [of ctx w r] poll_cancelled [OF ok(2), of w] ok(1) by (metis (full_types) prod.collapse)
        then have "\<exists>n. ctx_err ctx (polls ctx r n (poll ctx r w))" using run IH ok by simp
        then show ?thesis by (metis polls.simps(2))
      qed
    qed
  qed
  with assms(2,3) show ?thesis by blast
qed

text \<open>
  C30: When the polling loop returns. A context that is done stays done, and the timer gives up only for a
  context that is done. Then \<open>Run\<close> returns if and only if the context is cancelled after some number
  of polls, however busy the outbox is; the first such number decides where it stops: at once when it
  was cancelled before, after the publication during which it was cancelled and without reporting
  or waiting, or after that poll. No further publication is begun.
\<close>

theorem Run_returns_iff_cancelled:
  assumes "wait_ok ctx" "stays_cancelled ctx r"
  shows "Run ctx r w = Some w1 \<longleftrightarrow>
    (\<exists>n. ctx_err ctx (polls ctx r n w) \<and> (\<forall>k < n. \<not> ctx_err ctx (polls ctx r k w)) \<and> w1 = stop_state ctx r n w)"
proof
  assume run: "Run ctx r w = Some w1"
  define n where "n = (LEAST n. ctx_err ctx (polls ctx r n w))"
  have n: "ctx_err ctx (polls ctx r n w)" "\<forall>k < n. \<not> ctx_err ctx (polls ctx r k w)"
    unfolding n_def using Run_sees_cancelled [OF run assms] by (auto intro: LeastI_ex dest: not_less_Least)
  from Run_stops [OF assms n(2,1)] run n
  show "\<exists>n. ctx_err ctx (polls ctx r n w) \<and> (\<forall>k < n. \<not> ctx_err ctx (polls ctx r k w)) \<and> w1 = stop_state ctx r n w"
    by (intro exI [of _ n]) simp
qed (use Run_stops [OF assms] in blast)

text \<open>A context that is cancelled from the third tick of its clock on, a timer of one tick, and
  a publisher that finds nothing.\<close>

definition tick_context :: "nat Context" where
  "tick_context = \<lparr>ctx_err = (\<lambda>t. 3 \<le> t), ctx_wait = (\<lambda>d t. (Suc t < 3, Suc t))\<rparr>"

definition idle_runner :: "nat Runner" where
  "idle_runner = \<lparr>rn_publishNext = (\<lambda>t. ((noResult, None), t)), rn_pollInterval = 1,
     rn_onError = None\<rparr>"

theorem Run_returns_iff_cancelled_witness:
  "Run tick_context idle_runner 0 = Some 3"
proof -
  have ok: "wait_ok tick_context" "stays_cancelled tick_context idle_runner"
    by (auto simp: wait_ok_def stays_cancelled_def tick_context_def idle_runner_def reportError_def)
  have "ctx_err tick_context (polls tick_context idle_runner 3 0)" "stop_state tick_context idle_runner 3 0 = 3"
    "list_all (\<lambda>k. \<not> ctx_err tick_context (polls tick_context idle_runner k 0)) [0..<3]" by code_simp+
  then show ?thesis unfolding Run_returns_iff_cancelled [OF ok] by (intro exI [of _ 3]) (auto simp: list_all_iff)
qed

end
