(* ===== verification/Delivery_Worker.thy ===== *)
theory Delivery_Worker
  imports Delivery_Failure Redis_Publisher Outbox_Runner Go_Http
begin

text \<open>
  The delivery worker of \<open>internal/deliveryworker/worker.go\<close>: it reads messages from the
  Redis stream, records and delivers them, and schedules a retry or moves a message to the
  dead-letter stream when the delivery fails.

  The commands of Redis, the HTTP client, the clock and the context act on the state \<open>'w\<close> and
  are arguments (the record \<open>worker_env\<close>). A run that panics has the value \<open>None\<close>.
  The map \<open>msg.Values\<close> is shared by the functions that a message is passed to, so a function that
  writes to it returns the message with the new values. Log lines are not modelled.
\<close>

section \<open>Data\<close>

record XMessage =
  xm_ID :: bytes
  xm_Values :: fields

text \<open>The commands of the Redis client, with the arguments the worker varies.\<close>

record 'w redis =
  rd_xadd :: "'w xadd"
  rd_xack :: "bytes \<Rightarrow> bytes \<Rightarrow> bytes \<Rightarrow> 'w \<Rightarrow> error option \<times> 'w"
  rd_zadd :: "bytes \<Rightarrow> int \<Rightarrow> bytes \<Rightarrow> 'w \<Rightarrow> error option \<times> 'w"
  rd_zrangebyscore :: "bytes \<Rightarrow> bytes \<Rightarrow> bytes \<Rightarrow> int \<Rightarrow> int \<Rightarrow> 'w \<Rightarrow> (error + bytes list) \<times> 'w"
  rd_zrem :: "bytes \<Rightarrow> bytes \<Rightarrow> 'w \<Rightarrow> (error + int) \<times> 'w"
  rd_xautoclaim :: "bytes \<Rightarrow> bytes \<Rightarrow> bytes \<Rightarrow> duration \<Rightarrow> bytes \<Rightarrow> int \<Rightarrow> 'w \<Rightarrow>
    (error + XMessage list) \<times> 'w"
  rd_xreadgroup :: "bytes \<Rightarrow> bytes \<Rightarrow> bytes list \<Rightarrow> int \<Rightarrow> duration \<Rightarrow> 'w \<Rightarrow>
    (error + (bytes \<times> XMessage list) list) \<times> 'w"
  rd_xgroup_create_mkstream :: "bytes \<Rightarrow> bytes \<Rightarrow> bytes \<Rightarrow> 'w \<Rightarrow> error option \<times> 'w"

record HttpRequest =
  rq_Method :: bytes
  rq_URL :: bytes
  rq_Header :: "(bytes \<times> bytes) list"
  rq_Body :: bytes

record HttpResponse =
  rs_StatusCode :: int
  rs_Status :: bytes

text \<open>The environment: the clock, Redis, the HTTP client with its check of a request URL, the
  context, and the ticker (\<open>False\<close> when the context is done first).\<close>

record 'w worker_env =
  en_now :: "'w \<Rightarrow> time \<times> 'w"
  en_redis :: "'w redis"
  en_do :: "HttpRequest \<Rightarrow> 'w \<Rightarrow> (error + HttpResponse) \<times> 'w"
  en_url_error :: "bytes \<Rightarrow> error option"
  en_ctx :: "'w Context"
  en_tick :: "'w \<Rightarrow> bool \<times> 'w"
  en_lib :: golib

record 'w Recorder =
  rc_RecordProcessing :: "ProcessingRecord \<Rightarrow> 'w \<Rightarrow> error option \<times> 'w"
  rc_RecordDelivered :: "DeliveryAttemptRecord \<Rightarrow> 'w \<Rightarrow> error option \<times> 'w"
  rc_RecordRetrying :: "RetryingRecord \<Rightarrow> 'w \<Rightarrow> error option \<times> 'w"
  rc_RecordDeadLettered :: "DeadLetterRecord \<Rightarrow> 'w \<Rightarrow> error option \<times> 'w"

definition noopRecorder :: "'w Recorder" where
  "noopRecorder = \<lparr>rc_RecordProcessing = (\<lambda>_ w. (None, w)), rc_RecordDelivered = (\<lambda>_ w. (None, w)),
     rc_RecordRetrying = (\<lambda>_ w. (None, w)), rc_RecordDeadLettered = (\<lambda>_ w. (None, w))\<rparr>"

record 'w WorkerConfig =
  wc_Stream :: bytes
  wc_ConsumerGroup :: bytes
  wc_Consumer :: bytes
  wc_DLQStream :: bytes
  wc_RetryZSet :: bytes
  wc_MaxRetries :: int
  wc_BaseBackoff :: duration
  wc_Recorder :: "'w Recorder option"

record 'w Worker =
  wk_config :: "'w WorkerConfig"
  wk_recorder :: "'w Recorder"

definition New :: "'w WorkerConfig \<Rightarrow> 'w Worker" where
  "New config =
     \<lparr>wk_config = config,
      wk_recorder = (case wc_Recorder config of None \<Rightarrow> noopRecorder | Some r \<Rightarrow> r)\<rparr>"

definition PendingClaimIdle :: duration where "PendingClaimIdle = 30 * Second"
definition PendingClaimCount :: int where "PendingClaimCount = 10"

section \<open>Fields of a message\<close>

definition put_field :: "bytes \<Rightarrow> json \<Rightarrow> fields \<Rightarrow> fields" where
  "put_field k v vs = go_map (vs @ [(k, v)])"

definition parseRetry :: "json option \<Rightarrow> int" where
  "parseRetry v =
     (case v of
        Some (JStr s) \<Rightarrow> (case Atoi s of None \<Rightarrow> 0 | Some i \<Rightarrow> i)
      | _ \<Rightarrow> 0)"

definition eventIDFromMessage :: "XMessage \<Rightarrow> bytes" where
  "eventIDFromMessage msg =
     TrimSpace (case field_string (xm_Values msg) ''event_id'' of None \<Rightarrow> [] | Some t \<Rightarrow> t)"

definition originalStreamIDFromMessage :: "XMessage \<Rightarrow> bytes" where
  "originalStreamIDFromMessage msg =
     (let streamID = TrimSpace (case field_string (xm_Values msg) ''original_stream_id'' of
                                  None \<Rightarrow> [] | Some t \<Rightarrow> t)
      in if streamID = [] then xm_ID msg else streamID)"

definition responseCodeFromError :: "error \<Rightarrow> int option" where
  "responseCodeFromError err =
     (case errors_as_failure err of
        None \<Rightarrow> None
      | Some f \<Rightarrow> if StatusCode f \<noteq> 0 then Some (StatusCode f) else None)"

text \<open>\<open>None\<close> is the panic of a shift by a negative amount.\<close>

definition backoffDelay :: "duration \<Rightarrow> int \<Rightarrow> duration option" where
  "backoffDelay base retry =
     (case shl64 1 (wrap64 (retry - 1)) of
        None \<Rightarrow> None
      | Some mult \<Rightarrow>
          let d = wrap64 (mult * base) in
          Some (if 10 * Second < d then 10 * Second else d))"

section \<open>Delivery\<close>

text \<open>Names of JSON fields are compared without regard to case; \<open>url\<close> and \<open>data\<close> have no
  letters that fold to other than ASCII letters.\<close>

definition lower :: "char \<Rightarrow> char" where
  "lower c = (if 65 \<le> byte c \<and> byte c \<le> 90 then char_of (byte c + 32) else c)"

definition field_matches :: "bytes \<Rightarrow> bytes \<Rightarrow> bool" where
  "field_matches k name \<longleftrightarrow> map lower k = name"

fun webhookFields :: "golib \<Rightarrow> (bytes \<times> json) list \<Rightarrow> bytes \<times> json \<Rightarrow> (bytes \<times> json) option" where
  "webhookFields lib [] (url, data) = Some (url, data)"
| "webhookFields lib ((k, v) # kvs) (url, data) =
     (if field_matches k ''url'' then
        (case v of
           JStr t \<Rightarrow> webhookFields lib kvs (t, data)
         | JNull \<Rightarrow> webhookFields lib kvs (url, data)
         | _ \<Rightarrow> None)
      else if field_matches k ''data'' then
        (case to_any lib v of
           None \<Rightarrow> None
         | Some x \<Rightarrow> webhookFields lib kvs (url, x))
      else webhookFields lib kvs (url, data))"

definition webhookPayload :: "golib \<Rightarrow> bytes \<Rightarrow> (bytes \<times> json) option" where
  "webhookPayload lib payloadStr =
     (case json_unmarshal payloadStr of
        None \<Rightarrow> None
      | Some JNull \<Rightarrow> Some ([], JNull)
      | Some (JObj kvs) \<Rightarrow> webhookFields lib kvs ([], JNull)
      | Some _ \<Rightarrow> None)"

definition webhookRequest :: "XMessage \<Rightarrow> bytes \<Rightarrow> bytes \<Rightarrow> HttpRequest" where
  "webhookRequest msg url body =
     \<lparr>rq_Method = ''POST'', rq_URL = url,
      rq_Header =
        (case field_string (xm_Values msg) ''event_id'' of
           None \<Rightarrow> []
         | Some eventID \<Rightarrow> if eventID \<noteq> [] then [(''Idempotency-Key'', eventID)] else []) @
        [(''Content-Type'', ''application/json'')],
      rq_Body = body\<rparr>"

type_synonym processMessageResult = "int option"

definition processWebhookMessageWithResult ::
    "'w worker_env \<Rightarrow> XMessage \<Rightarrow> 'w \<Rightarrow> (processMessageResult \<times> error option) \<times> 'w" where
  "processWebhookMessageWithResult env msg w =
     (case field_string (xm_Values msg) ''payload'' of
        None \<Rightarrow> ((None, Some (NewPermanentFailure (Some (ErrNew ''webhook event missing payload'')))), w)
      | Some payloadStr \<Rightarrow>
      case webhookPayload (en_lib env) payloadStr of
        None \<Rightarrow>
          ((None, Some (NewPermanentFailure (Some
              (ErrWrap ''invalid webhook payload: '' (lib_json_error (en_lib env) payloadStr) [])))), w)
      | Some (url, data) \<Rightarrow>
      if url = [] then
        ((None, Some (NewPermanentFailure (Some (ErrNew ''webhook url is required'')))), w)
      else
        case en_url_error env url of
          Some e \<Rightarrow>
            ((None, Some (NewPermanentFailure (Some (ErrWrap ''create webhook request: '' e [])))), w)
        | None \<Rightarrow>
        case en_do env (webhookRequest msg url (marshal data)) w of
          (Inl e, w1) \<Rightarrow>
            ((None, Some (NewRetryableFailure (Some (ErrWrap ''deliver webhook request: '' e [])))), w1)
        | (Inr resp, w1) \<Rightarrow>
            if 400 \<le> rs_StatusCode resp
            then ((Some (rs_StatusCode resp), NewHTTPFailure (rs_StatusCode resp) (rs_Status resp)), w1)
            else ((Some (rs_StatusCode resp), None), w1))"

definition processMessageWithResult ::
    "'w worker_env \<Rightarrow> XMessage \<Rightarrow> 'w \<Rightarrow> (processMessageResult \<times> error option) \<times> 'w" where
  "processMessageWithResult env msg w =
     (let et = (case field_string (xm_Values msg) ''event_type'' of None \<Rightarrow> [] | Some t \<Rightarrow> t) in
      if et = ''force.fail'' then
        ((None, Some (NewRetryableFailure (Some (ErrNew ''forced failure for testing'')))), w)
      else if et = ''webhook'' then processWebhookMessageWithResult env msg w
      else ((None, None), w))"

text \<open>The same without the response code.\<close>

definition processMessage :: "'w worker_env \<Rightarrow> XMessage \<Rightarrow> 'w \<Rightarrow> error option \<times> 'w" where
  "processMessage env msg w =
     (case processMessageWithResult env msg w of ((_, err), w1) \<Rightarrow> (err, w1))"

definition processWebhookMessage :: "'w worker_env \<Rightarrow> XMessage \<Rightarrow> 'w \<Rightarrow> error option \<times> 'w" where
  "processWebhookMessage env msg w =
     (case processWebhookMessageWithResult env msg w of ((_, err), w1) \<Rightarrow> (err, w1))"

section \<open>Failures\<close>

type_synonym 'w scheduleRetryFunc =
  "XMessage \<Rightarrow> int \<Rightarrow> duration \<Rightarrow> 'w \<Rightarrow> (error option \<times> XMessage) \<times> 'w"
type_synonym 'w writeDLQFunc = "XMessage \<Rightarrow> error \<Rightarrow> 'w \<Rightarrow> (error option \<times> XMessage) \<times> 'w"
type_synonym 'w acknowledgeMessageFunc = "bytes \<Rightarrow> 'w \<Rightarrow> error option \<times> 'w"
type_synonym 'w recordRetryingFunc = "RetryingRecord \<Rightarrow> 'w \<Rightarrow> error option \<times> 'w"
type_synonym 'w recordDeadLetteredFunc = "DeadLetterRecord \<Rightarrow> 'w \<Rightarrow> error option \<times> 'w"
type_synonym 'w recordDeliveredFunc = "DeliveryAttemptRecord \<Rightarrow> 'w \<Rightarrow> error option \<times> 'w"

definition ackAfterFailure ::
    "'w acknowledgeMessageFunc \<Rightarrow> bytes \<Rightarrow> 'w \<Rightarrow> error option \<times> 'w" where
  "ackAfterFailure ack messageID w =
     (case ack messageID w of
        (Some e, w1) \<Rightarrow>
          (Some (ErrWrap (''acknowledge message '' @ messageID @ '' after failure handling: '') e []), w1)
      | (None, w1) \<Rightarrow> (None, w1))"

definition handleDeliveryFailure ::
    "('w \<Rightarrow> time \<times> 'w) \<Rightarrow> XMessage \<Rightarrow> error \<Rightarrow> int \<Rightarrow> int \<Rightarrow> time \<Rightarrow> time \<Rightarrow> int \<Rightarrow> duration \<Rightarrow>
     'w scheduleRetryFunc \<Rightarrow> 'w writeDLQFunc \<Rightarrow> 'w acknowledgeMessageFunc \<Rightarrow>
     'w recordRetryingFunc \<Rightarrow> 'w recordDeadLetteredFunc \<Rightarrow> 'w \<Rightarrow> (error option \<times> 'w) option" where
  "handleDeliveryFailure now msg cause retry attemptNumber startedAt completedAt maxRetries baseBackoff
       schedule writeDLQ ack recordRetrying recordDeadLettered w =
     (let action = DecideFailureAction cause retry maxRetries in
      if action = FailureActionRetry then
        let nextRetry = wrap64 (retry + 1) in
        case backoffDelay baseBackoff nextRetry of
          None \<Rightarrow> None
        | Some delay \<Rightarrow>
        case now w of (t, w0) \<Rightarrow>
        case schedule msg nextRetry delay w0 of
          ((Some e, _), w1) \<Rightarrow>
            Some (Some (ErrWrap (''schedule retry for message '' @ xm_ID msg @ '': '') e []), w1)
        | ((None, _), w1) \<Rightarrow>
        case recordRetrying
               \<lparr>ar_EventID = eventIDFromMessage msg, ar_StreamID = xm_ID msg,
                ar_AttemptNumber = attemptNumber, ar_ResponseCode = responseCodeFromError cause,
                ar_Error = Some cause, ar_StartedAt = startedAt, ar_CompletedAt = completedAt,
                rt_NextRetry = nextRetry, rt_ScheduledAt = t + delay\<rparr> w1 of
          (Some e, w2) \<Rightarrow>
            Some (Some (ErrWrap (''record retrying message '' @ xm_ID msg @ '': '') e []), w2)
        | (None, w2) \<Rightarrow> Some (ackAfterFailure ack (xm_ID msg) w2)
      else if action = FailureActionDeadLetter then
        case writeDLQ msg cause w of
          ((Some e, _), w1) \<Rightarrow>
            Some (Some (ErrWrap (''write message '' @ xm_ID msg @ '' to DLQ: '') e []), w1)
        | ((None, msg1), w1) \<Rightarrow>
        case recordDeadLettered
               \<lparr>ar_EventID = eventIDFromMessage msg, ar_StreamID = xm_ID msg,
                ar_AttemptNumber = attemptNumber, ar_ResponseCode = responseCodeFromError cause,
                ar_Error = Some cause, ar_StartedAt = startedAt, ar_CompletedAt = completedAt,
                dl_OriginalStreamID = originalStreamIDFromMessage msg1\<rparr> w1 of
          (Some e, w2) \<Rightarrow>
            Some (Some (ErrWrap (''record dead-lettered message '' @ xm_ID msg @ '': '') e []), w2)
        | (None, w2) \<Rightarrow> Some (ackAfterFailure ack (xm_ID msg) w2)
      else Some (Some (ErrNew (''unknown delivery failure action for message '' @ xm_ID msg)), w))"

definition acknowledgeDeliveredMessage ::
    "XMessage \<Rightarrow> DeliveryAttemptRecord \<Rightarrow> 'w recordDeliveredFunc \<Rightarrow> 'w acknowledgeMessageFunc \<Rightarrow>
     'w \<Rightarrow> error option \<times> 'w" where
  "acknowledgeDeliveredMessage msg r recordDelivered ack w =
     (case recordDelivered r w of
        (Some e, w1) \<Rightarrow> (Some (ErrWrap (''record delivered message '' @ xm_ID msg @ '': '') e []), w1)
      | (None, w1) \<Rightarrow>
      case ack (xm_ID msg) w1 of
        (Some e, w2) \<Rightarrow>
          (Some (ErrWrap (''acknowledge delivered message '' @ xm_ID msg @ '': '') e []), w2)
      | (None, w2) \<Rightarrow> (None, w2))"

definition scheduleRetry ::
    "('w \<Rightarrow> time \<times> 'w) \<Rightarrow> 'w redis \<Rightarrow> bytes \<Rightarrow> 'w scheduleRetryFunc" where
  "scheduleRetry now rdb retryZSet msg nextRetry delay w =
     (let values = put_field ''original_stream_id'' (JStr (xm_ID msg))
            (put_field ''retry'' (JStr (Itoa nextRetry)) (xm_Values msg));
          msg1 = msg\<lparr>xm_Values := values\<rparr>
      in case now w of (t, w1) \<Rightarrow>
        case rd_zadd rdb retryZSet ((t + delay) div 1000000) (marshal (JObj values)) w1 of
          (err, w2) \<Rightarrow> ((err, msg1), w2))"

definition moveToDLQ :: "('w \<Rightarrow> time \<times> 'w) \<Rightarrow> 'w redis \<Rightarrow> bytes \<Rightarrow> 'w writeDLQFunc" where
  "moveToDLQ now rdb dlqStream msg cause w =
     (case now w of (t, w1) \<Rightarrow>
        let values = put_field ''original_stream_id'' (JStr (xm_ID msg))
              (put_field ''error'' (JStr (error_text cause))
                (put_field ''dlq_at'' (JStr (RFC3339 t)) (xm_Values msg)));
            msg1 = msg\<lparr>xm_Values := values\<rparr>
        in case rd_xadd rdb dlqStream values w1 of
          (Inl e, w2) \<Rightarrow> ((Some e, msg1), w2)
        | (Inr _, w2) \<Rightarrow> ((None, msg1), w2))"

section \<open>One message\<close>

definition processStreamMessage :: "'w worker_env \<Rightarrow> 'w Worker \<Rightarrow> XMessage \<Rightarrow> 'w \<Rightarrow> 'w option" where
  "processStreamMessage env wk msg w =
     (let cfg = wk_config wk; rdb = en_redis env; rec = wk_recorder wk;
          retry = parseRetry (map_of (xm_Values msg) ''retry'');
          attemptNumber = wrap64 (retry + 1);
          ack = rd_xack rdb (wc_Stream cfg) (wc_ConsumerGroup cfg)
      in case en_now env w of (startedAt, w0) \<Rightarrow>
      case rc_RecordProcessing rec \<lparr>pr_EventID = eventIDFromMessage msg, pr_StreamID = xm_ID msg,
             pr_Retry = retry\<rparr> w0 of
        (Some _, w1) \<Rightarrow> Some w1
      | (None, w1) \<Rightarrow>
      case processMessageWithResult env msg w1 of ((result, err), w2) \<Rightarrow>
      case en_now env w2 of (completedAt, w3) \<Rightarrow>
      case err of
        Some cause \<Rightarrow>
          map_option snd
            (handleDeliveryFailure (en_now env) msg cause retry attemptNumber startedAt completedAt
              (wc_MaxRetries cfg) (wc_BaseBackoff cfg)
              (scheduleRetry (en_now env) rdb (wc_RetryZSet cfg))
              (moveToDLQ (en_now env) rdb (wc_DLQStream cfg))
              ack (rc_RecordRetrying rec) (rc_RecordDeadLettered rec) w3)
      | None \<Rightarrow>
          Some (snd (acknowledgeDeliveredMessage msg
            \<lparr>ar_EventID = eventIDFromMessage msg, ar_StreamID = xm_ID msg,
             ar_AttemptNumber = attemptNumber, ar_ResponseCode = result, ar_Error = None,
             ar_StartedAt = startedAt, ar_CompletedAt = completedAt\<rparr>
            (rc_RecordDelivered rec) ack w3)))"

section \<open>The loops\<close>

definition EnsureConsumerGroup :: "'w worker_env \<Rightarrow> 'w Worker \<Rightarrow> 'w \<Rightarrow> error option \<times> 'w" where
  "EnsureConsumerGroup env wk w =
     (case rd_xgroup_create_mkstream (en_redis env) (wc_Stream (wk_config wk))
             (wc_ConsumerGroup (wk_config wk)) ''0'' w of
        (Some e, w1) \<Rightarrow> if \<not> contains (error_text e) ''BUSYGROUP'' then (Some e, w1) else (None, w1)
      | (None, w1) \<Rightarrow> (None, w1))"

definition reclaimPendingMessagesForConsumer ::
    "'w redis \<Rightarrow> bytes \<Rightarrow> bytes \<Rightarrow> bytes \<Rightarrow> duration \<Rightarrow> int \<Rightarrow> 'w \<Rightarrow> (error + XMessage list) \<times> 'w" where
  "reclaimPendingMessagesForConsumer client stream grp consumer minIdle cnt w =
     (case rd_xautoclaim client stream grp consumer minIdle ''0-0'' cnt w of
        (Inl e, w1) \<Rightarrow> if e = ErrRedisNil then (Inr [], w1) else (Inl e, w1)
      | (Inr messages, w1) \<Rightarrow> (Inr messages, w1))"

definition reclaimPendingMessages ::
    "'w redis \<Rightarrow> bytes \<Rightarrow> bytes \<Rightarrow> bytes \<Rightarrow> 'w \<Rightarrow> (error + XMessage list) \<times> 'w" where
  "reclaimPendingMessages client stream grp consumer w =
     reclaimPendingMessagesForConsumer client stream grp consumer PendingClaimIdle
       PendingClaimCount w"

text \<open>The messages of a batch in turn, each after a check of the context; the flag is \<open>False\<close> when
  the worker returns.\<close>

fun processBatch :: "'w worker_env \<Rightarrow> 'w Worker \<Rightarrow> XMessage list \<Rightarrow> 'w \<Rightarrow> (bool \<times> 'w) option" where
  "processBatch env wk [] w = Some (True, w)"
| "processBatch env wk (msg # msgs) w =
     (if ctx_err (en_ctx env) w then Some (False, w)
      else case processStreamMessage env wk msg w of
        None \<Rightarrow> None
      | Some w1 \<Rightarrow> processBatch env wk msgs w1)"

definition readNew :: "'w worker_env \<Rightarrow> 'w Worker \<Rightarrow> 'w \<Rightarrow> (bool \<times> 'w) option" where
  "readNew env wk w =
     (let cfg = wk_config wk in
      case rd_xreadgroup (en_redis env) (wc_ConsumerGroup cfg) (wc_Consumer cfg)
             [wc_Stream cfg, ''>''] 10 (5 * Second) w of
        (Inl e, w1) \<Rightarrow>
          if ctx_err (en_ctx env) w1 then Some (False, w1)
          else if e = ErrRedisNil then Some (True, w1)
          else Some (ctx_wait (en_ctx env) 500000000 w1)
      | (Inr res, w1) \<Rightarrow> processBatch env wk (concat (map snd res)) w1)"

definition workerRound :: "'w worker_env \<Rightarrow> 'w Worker \<Rightarrow> 'w \<Rightarrow> (bool \<times> 'w) option" where
  "workerRound env wk w =
     (if ctx_err (en_ctx env) w then Some (False, w)
      else
        let cfg = wk_config wk in
        case reclaimPendingMessagesForConsumer (en_redis env) (wc_Stream cfg) (wc_ConsumerGroup cfg)
               (wc_Consumer cfg) PendingClaimIdle PendingClaimCount w of
          (Inl e, w1) \<Rightarrow>
            if ctx_err (en_ctx env) w1 then Some (False, w1) else readNew env wk w1
        | (Inr reclaimed, w1) \<Rightarrow>
            (case processBatch env wk reclaimed w1 of
               None \<Rightarrow> None
             | Some (go_on, w2) \<Rightarrow> if go_on then readNew env wk w2 else Some (False, w2)))"

text \<open>The loops of \<open>runStreamWorker\<close> and \<open>retryPump\<close>, for a number of rounds: the state after
  them, or after the return.\<close>

fun runStreamWorker :: "nat \<Rightarrow> 'w worker_env \<Rightarrow> 'w Worker \<Rightarrow> 'w \<Rightarrow> (bool \<times> 'w) option" where
  "runStreamWorker 0 env wk w = Some (True, w)"
| "runStreamWorker (Suc n) env wk w =
     (case workerRound env wk w of
        None \<Rightarrow> None
      | Some (go_on, w1) \<Rightarrow> if go_on then runStreamWorker n env wk w1 else Some (False, w1))"

text \<open>\<open>json.Unmarshal\<close> into a \<open>map[string]interface{}\<close>.\<close>

definition retryValues :: "golib \<Rightarrow> bytes \<Rightarrow> fields option" where
  "retryValues lib member =
     (case json_unmarshal member of
        Some JNull \<Rightarrow> Some []
      | Some (JObj kvs) \<Rightarrow> map_option go_map (to_any_members lib kvs)
      | _ \<Rightarrow> None)"

definition republishRetryMember ::
    "golib \<Rightarrow> bytes \<Rightarrow> (fields \<Rightarrow> 'w \<Rightarrow> error option \<times> 'w) \<Rightarrow> (bytes \<Rightarrow> 'w \<Rightarrow> error option \<times> 'w) \<Rightarrow>
     'w \<Rightarrow> error option \<times> 'w" where
  "republishRetryMember lib member publish remove w =
     (case retryValues lib member of
        None \<Rightarrow> (Some (ErrWrap ''decode retry member: '' (lib_json_error lib member) []), w)
      | Some values \<Rightarrow>
      case publish values w of
        (Some e, w1) \<Rightarrow> (Some (ErrWrap ''publish retry member: '' e []), w1)
      | (None, w1) \<Rightarrow>
      case remove member w1 of
        (Some e, w2) \<Rightarrow> (Some (ErrWrap ''remove published retry member: '' e []), w2)
      | (None, w2) \<Rightarrow> (None, w2))"

definition publishRetry :: "'w redis \<Rightarrow> bytes \<Rightarrow> fields \<Rightarrow> 'w \<Rightarrow> error option \<times> 'w" where
  "publishRetry rdb stream values w =
     (case rd_xadd rdb stream values w of (Inl e, w1) \<Rightarrow> (Some e, w1) | (Inr _, w1) \<Rightarrow> (None, w1))"

definition removeRetry :: "'w redis \<Rightarrow> bytes \<Rightarrow> bytes \<Rightarrow> 'w \<Rightarrow> error option \<times> 'w" where
  "removeRetry rdb zset member w =
     (case rd_zrem rdb zset member w of
        (Inl e, w1) \<Rightarrow> (Some e, w1)
      | (Inr removed, w1) \<Rightarrow>
          if removed = 0 then (Some (ErrNew ''remove retry member affected 0 rows''), w1)
          else (None, w1))"

fun republishAll :: "'w worker_env \<Rightarrow> 'w Worker \<Rightarrow> bytes list \<Rightarrow> 'w \<Rightarrow> bool \<times> 'w" where
  "republishAll env wk [] w = (True, w)"
| "republishAll env wk (m # ms) w =
     (if ctx_err (en_ctx env) w then (False, w)
      else republishAll env wk ms
        (snd (republishRetryMember (en_lib env) m
          (publishRetry (en_redis env) (wc_Stream (wk_config wk)))
          (removeRetry (en_redis env) (wc_RetryZSet (wk_config wk))) w)))"

definition retryRound :: "'w worker_env \<Rightarrow> 'w Worker \<Rightarrow> 'w \<Rightarrow> bool \<times> 'w" where
  "retryRound env wk w =
     (case en_tick env w of
        (False, w1) \<Rightarrow> (False, w1)
      | (True, w1) \<Rightarrow>
      case en_now env w1 of (t, w2) \<Rightarrow>
      case rd_zrangebyscore (en_redis env) (wc_RetryZSet (wk_config wk)) ''-inf''
             (Itoa (t div 1000000)) 0 50 w2 of
        (Inl e, w3) \<Rightarrow> (\<not> ctx_err (en_ctx env) w3, w3)
      | (Inr members, w3) \<Rightarrow>
          if members = [] then (\<not> ctx_err (en_ctx env) w3, w3)
          else republishAll env wk members w3)"

fun retryPump :: "nat \<Rightarrow> 'w worker_env \<Rightarrow> 'w Worker \<Rightarrow> 'w \<Rightarrow> bool \<times> 'w" where
  "retryPump 0 env wk w = (True, w)"
| "retryPump (Suc n) env wk w =
     (case retryRound env wk w of
        (go_on, w1) \<Rightarrow> if go_on then retryPump n env wk w1 else (False, w1))"

text \<open>
  \<open>Run\<close> starts the retry pump beside the stream worker and returns when both have returned. A step is a
  round of one of the loops; the flags say which of them still run.
\<close>

inductive Run_step :: "'w worker_env \<Rightarrow> 'w Worker \<Rightarrow> bool \<times> bool \<times> 'w \<Rightarrow> bool \<times> bool \<times> 'w \<Rightarrow> bool"
  for env wk where
  stream: "workerRound env wk w = Some (go_on, w1) \<Longrightarrow> Run_step env wk (True, pumping, w) (go_on, pumping, w1)"
| pump: "retryRound env wk w = (go_on, w1) \<Longrightarrow> Run_step env wk (streaming, True, w) (streaming, go_on, w1)"

section \<open>Lemmas\<close>

text \<open>Messages as Redis holds them: every value is a string, in valid UTF-8.\<close>

definition text_fields :: "fields \<Rightarrow> bool" where
  "text_fields vs \<longleftrightarrow> sorted_keys vs \<and>
     (\<forall>kv \<in> set vs. valid_utf8 (fst kv) \<and> (case snd kv of JStr t \<Rightarrow> valid_utf8 t | _ \<Rightarrow> False))"

lemma text_fields_iff:
  "text_fields vs \<longleftrightarrow> sorted_keys vs \<and>
     (\<forall>kv \<in> set vs. valid_utf8 (fst kv) \<and> (\<exists>t. snd kv = JStr t \<and> valid_utf8 t))"
proof -
  have "(case v of JStr t \<Rightarrow> valid_utf8 t | _ \<Rightarrow> False) \<longleftrightarrow> (\<exists>t. v = JStr t \<and> valid_utf8 t)" for v
    by (cases v) auto
  then show ?thesis unfolding text_fields_def by presburger
qed

lemma map_of_put_field [simp]: "map_of (put_field k v vs) = (map_of (rev vs))(k \<mapsto> v)"
  by (auto simp: put_field_def map_of_go_map fun_eq_iff)

lemma sorted_put_field [simp]: "sorted_keys (put_field k v vs)"
  by (simp add: put_field_def)

lemma set_put_field: "set (put_field k v vs) \<subseteq> insert (k, v) (set vs)"
  using set_go_map [of "vs @ [(k, v)]"] by (auto simp: put_field_def)

lemma text_put_field:
  "text_fields vs \<Longrightarrow> valid_utf8 k \<Longrightarrow> valid_utf8 t \<Longrightarrow> text_fields (put_field k (JStr t) vs)"
  unfolding text_fields_iff using set_put_field [of k "JStr t" vs] by auto

lemma to_any_text: "(\<forall>kv \<in> set vs. \<exists>t. snd kv = JStr t) \<Longrightarrow> to_any_members lib vs = Some vs"
  by (induction vs) auto

lemma text_member:
  assumes "text_fields vs"
  shows "json_unmarshal (marshal (JObj vs)) = Some (JObj vs)"
proof (rule unmarshal_marshal)
  show "wf_json (JObj vs)" using assms by (fastforce simp: text_fields_iff)
  have "json_depth (snd kv) = 0" if "kv \<in> set vs" for kv using assms that by (auto simp: text_fields_iff)
  then have "fold max (map (\<lambda>(k, v). json_depth v) vs) 0 \<le> 0" by (auto simp: fold_max_le)
  then show "json_depth (JObj vs) \<le> maxNestingDepth" by (simp add: maxNestingDepth_def)
qed

lemma retryValues_text:
  assumes "text_fields vs"
  shows "retryValues lib (marshal (JObj vs)) = Some vs"
proof -
  have "go_map vs = vs" "\<forall>kv \<in> set vs. \<exists>t. snd kv = JStr t"
    using assms by (auto simp: text_fields_iff go_map_sorted)
  then show ?thesis by (simp add: retryValues_def text_member [OF assms] to_any_text)
qed

text \<open>
  C36: The worker's backoff. As long as \<open>base * 2^(retry-1)\<close> fits in 64 bits, the delay before the
  retry with number \<open>retry\<close> is \<open>base * 2^(retry-1)\<close>, capped at ten seconds.
\<close>

theorem backoffDelay_exponential:
  assumes "0 < base" "1 \<le> retry" "base * 2 ^ nat (retry - 1) < 2 ^ 63"
  shows "backoffDelay base retry = Some (min (10 * Second) (base * 2 ^ nat (retry - 1)))"
proof -
  have "(2::int) ^ nat (retry - 1) \<le> base * 2 ^ nat (retry - 1)" using assms(1) by simp
  then have "(2::int) ^ nat (retry - 1) < 2 ^ 63" using assms(3) by linarith
  then have "nat (retry - 1) < 63" by (metis one_less_numeral_iff power_less_imp_less_exp semiring_norm(76))
  then have r: "0 \<le> retry - 1" "retry - 1 \<le> 62" using assms(2) by auto
  then have "wrap64 (retry - 1) = retry - 1" by (simp add: is_int64_def)
  moreover have "wrap64 (2 ^ nat (retry - 1) * base) = base * 2 ^ nat (retry - 1)"
    using assms by (subst wrap64_id) (auto simp: is_int64_def mult.commute intro: order_trans [of _ 0])
  ultimately show ?thesis using shl64_one [OF r] by (simp add: backoffDelay_def Let_def)
qed

theorem backoffDelay_exponential_witness: "backoffDelay 500000000 3 = Some 2000000000"
  using backoffDelay_exponential [of 500000000 3] by (simp add: Second_def)

text \<open>
  Where the cap of the backoff fails. With the default base of 500 ms the product overflows at
  retry 36, where the delay is negative, and the multiplier is zero from retry 65 on; a retry
  number below one makes the shift panic.
\<close>

theorem backoffDelay_overflow:
  "backoffDelay 500000000 36 = Some (- 1266874889709551616) \<and>
   backoffDelay 500000000 65 = Some 0 \<and> backoffDelay 500000000 0 = None"
  by code_simp

text \<open>
  C19: A retry survives the round trip through Redis. When the handling of a failure that is not
  permanent succeeds with retries left, a member was added to the retry set from which the retry
  pump decodes the fields of the message unchanged, except that the retry counter is one higher
  and \<open>original_stream_id\<close> is the message's stream id. Fields are strings in valid UTF-8.
\<close>

theorem retry_roundtrip:
  assumes "\<not> IsPermanent cause" "retry < maxRetries" "is_int64 maxRetries" "is_int64 retry"
    and out: "handleDeliveryFailure now msg cause retry n t0 t1 maxRetries base
      (scheduleRetry now rdb zset) writeDLQ ack recR recD w = Some (None, w')"
    and tx: "text_fields (xm_Values msg)" "valid_utf8 (xm_ID msg)"
  shows "\<exists>score member vals wa wb. rd_zadd rdb zset score member wa = (None, wb) \<and>
    retryValues lib member = Some vals \<and>
    parseRetry (map_of vals ''retry'') = retry + 1 \<and>
    map_of vals ''original_stream_id'' = Some (JStr (xm_ID msg)) \<and>
    (\<forall>k. k \<noteq> ''retry'' \<and> k \<noteq> ''original_stream_id'' \<longrightarrow> map_of vals k = map_of (xm_Values msg) k)"
proof -
  have i64: "is_int64 (retry + 1)" using assms(2,3,4) by (auto simp: is_int64_def)
  define vals where "vals = put_field ''original_stream_id'' (JStr (xm_ID msg))
    (put_field ''retry'' (JStr (Itoa (retry + 1))) (xm_Values msg))"
  have ascii: "valid_utf8 ''retry''" "valid_utf8 ''original_stream_id''" by code_simp+
  have tv: "text_fields vals" unfolding vals_def
    by (intro text_put_field tx ascii Itoa_valid)
  have sorted: "sorted_keys (xm_Values msg)" using tx(1) by (simp add: text_fields_iff)
  have "DecideFailureAction cause retry maxRetries = FailureActionRetry"
    using assms(1,2) by (simp add: DecideFailureAction_def)
  with out obtain delay t w0 tz wz e' wb where
    "rd_zadd rdb zset ((tz + delay) div 1000000) (marshal (JObj vals)) wz = (None, wb)"
    using i64 by (auto simp: handleDeliveryFailure_def scheduleRetry_def Let_def vals_def
        split: option.splits prod.splits)
  moreover have "map_of vals ''retry'' = Some (JStr (Itoa (retry + 1)))"
    "map_of vals ''original_stream_id'' = Some (JStr (xm_ID msg))"
    "\<forall>k. k \<noteq> ''retry'' \<and> k \<noteq> ''original_stream_id'' \<longrightarrow> map_of vals k = map_of (xm_Values msg) k"
    by (simp_all add: vals_def map_of_rev sorted)
  moreover have "parseRetry (Some (JStr (Itoa (retry + 1)))) = retry + 1"
    using i64 by (simp add: parseRetry_def)
  ultimately have all: "rd_zadd rdb zset ((tz + delay) div 1000000) (marshal (JObj vals)) wz = (None, wb) \<and>
    retryValues lib (marshal (JObj vals)) = Some vals \<and> parseRetry (map_of vals ''retry'') = retry + 1 \<and>
    map_of vals ''original_stream_id'' = Some (JStr (xm_ID msg)) \<and>
    (\<forall>k. k \<noteq> ''retry'' \<and> k \<noteq> ''original_stream_id'' \<longrightarrow> map_of vals k = map_of (xm_Values msg) k)"
    using retryValues_text [OF tv, of lib] by simp
  show ?thesis by (rule exI, rule exI, rule exI, rule exI, rule exI, rule all)
qed

definition idle_redis :: "'w redis" where
  "idle_redis = \<lparr>rd_xadd = (\<lambda>_ _ n. (Inr ''1-0'', n)), rd_xack = (\<lambda>_ _ _ n. (None, n)),
     rd_zadd = (\<lambda>_ _ _ n. (None, n)), rd_zrangebyscore = (\<lambda>_ _ _ _ _ n. (Inr [], n)),
     rd_zrem = (\<lambda>_ _ n. (Inr 1, n)), rd_xautoclaim = (\<lambda>_ _ _ _ _ _ n. (Inr [], n)),
     rd_xreadgroup = (\<lambda>_ _ _ _ _ n. (Inr [], n)), rd_xgroup_create_mkstream = (\<lambda>_ _ _ n. (None, n))\<rparr>"

theorem retry_roundtrip_witness:
  "\<exists>score member vals wa wb. rd_zadd (idle_redis :: nat redis) ''z'' score member wa = (None, wb) \<and>
    retryValues plain_lib member = Some vals \<and> parseRetry (map_of vals ''retry'') = 2 \<and>
    map_of vals ''original_stream_id'' = Some (JStr ''1-0'')"
proof -
  let ?msg = "\<lparr>xm_ID = ''1-0'', xm_Values = [(''event_id'', JStr ''e1''), (''retry'', JStr ''1'')]\<rparr>"
  let ?handle = "handleDeliveryFailure (\<lambda>n. (0, n)) ?msg (NewRetryableFailure None) 1 2 0 0 5 500000000
      (scheduleRetry (\<lambda>n. (0, n)) idle_redis ''z'') (\<lambda>m e n. ((None, m), n)) (\<lambda>_ n. (None, n))
      (\<lambda>_ n. (None, n)) (\<lambda>_ n. (None, n)) (0 :: nat)"
  have "(case ?handle of Some (None, w) \<Rightarrow> True | _ \<Rightarrow> False)" by code_simp
  then obtain w' where run: "?handle = Some (None, w')" by (auto split: option.splits)
  have tf: "text_fields (xm_Values ?msg)" "valid_utf8 (xm_ID ?msg)" by code_simp+
  have "\<not> IsPermanent (NewRetryableFailure None)" by simp
  from retry_roundtrip [OF this _ _ _ run tf, of plain_lib] show ?thesis by auto
qed

text \<open>
  The stream id recorded with a dead-lettered message. The function that writes the message
  to the dead-letter stream first sets \<open>original_stream_id\<close> in the shared map to the id of the
  message itself, so the original id read afterwards is the message's own id, whatever
  \<open>original_stream_id\<close> the message arrived with.
\<close>

theorem dlq_original_is_own_id:
  "originalStreamIDFromMessage (snd (fst (moveToDLQ now rdb dlqStream msg cause w))) =
    (if TrimSpace (xm_ID msg) = [] then xm_ID msg else TrimSpace (xm_ID msg))"
proof -
  let ?m = "snd (fst (moveToDLQ now rdb dlqStream msg cause w))"
  have "map_of (xm_Values ?m) ''original_stream_id'' = Some (JStr (xm_ID msg)) \<and> xm_ID ?m = xm_ID msg"
    by (auto simp: moveToDLQ_def Let_def split: prod.splits sum.splits)
  then show ?thesis by (simp add: originalStreamIDFromMessage_def field_string_def Let_def)
qed

text \<open>What a message asks to be sent, if it can be sent: the URL and the data of its payload.\<close>

definition webhook_target :: "'w worker_env \<Rightarrow> XMessage \<Rightarrow> (bytes \<times> json) option" where
  "webhook_target env msg =
     (case field_string (xm_Values msg) ''payload'' of
        None \<Rightarrow> None
      | Some payload \<Rightarrow>
      case webhookPayload (en_lib env) payload of
        None \<Rightarrow> None
      | Some (url, data) \<Rightarrow> if url = [] \<or> en_url_error env url \<noteq> None then None else Some (url, data))"

text \<open>
  C35: The outcomes of a webhook delivery. A message without a payload, with a payload that does not decode, without a
  URL or with one that makes no request is a permanent failure, and nothing is sent. For every other message exactly one
  request is sent, a \<open>POST\<close> of the data to the URL with the event identifier as its idempotency key. A transport
  error is a retryable failure. An answer below 400 or above 599 is a success; 408, 425, 429 and 500 to 599
  are retryable failures, the other statuses from 400 to 499 permanent ones, and the failure carries the status.
\<close>

theorem webhook_outcome:
  "case processWebhookMessageWithResult env msg w of ((result, err), w') \<Rightarrow>
     (case webhook_target env msg of
        None \<Rightarrow> w' = w \<and> result = None \<and> (\<exists>e. err = Some e \<and> IsPermanent e \<and> \<not> IsRetryable e)
      | Some (url, data) \<Rightarrow>
          (\<exists>rq. rq_Method rq = ''POST'' \<and> rq_URL rq = url \<and> rq_Body rq = marshal data \<and>
             header_get (rq_Header rq) ''Content-Type'' = ''application/json'' \<and>
             header_get (rq_Header rq) ''Idempotency-Key'' =
               (case field_string (xm_Values msg) ''event_id'' of None \<Rightarrow> [] | Some i \<Rightarrow> i) \<and>
             (case en_do env rq w of
                (Inl x, w1) \<Rightarrow> w' = w1 \<and> result = None \<and>
                  (\<exists>e. err = Some e \<and> IsRetryable e \<and> \<not> IsPermanent e \<and> responseCodeFromError e = None)
              | (Inr resp, w1) \<Rightarrow>
                  (case rs_StatusCode resp of code \<Rightarrow>
                   w' = w1 \<and> result = Some code \<and>
                   (if code < 400 \<or> 599 < code then err = None
                    else \<exists>e. err = Some e \<and> responseCodeFromError e = Some code \<and>
                      (if code \<in> {408, 425, 429} \<or> 500 \<le> code then IsRetryable e \<and> \<not> IsPermanent e
                       else IsPermanent e \<and> \<not> IsRetryable e))))))"
proof (cases "webhook_target env msg")
  case None
  then show ?thesis
    by (auto simp: webhook_target_def processWebhookMessageWithResult_def split: option.splits if_splits)
next
  case (Some target)
  obtain url data where t: "target = (url, data)" by force
  obtain payload where p: "field_string (xm_Values msg) ''payload'' = Some payload"
    "webhookPayload (en_lib env) payload = Some (url, data)" "url \<noteq> []" "en_url_error env url = None"
    using Some t by (auto simp: webhook_target_def split: option.splits if_splits)
  let ?rq = "webhookRequest msg url (marshal data)"
  have rq: "rq_Method ?rq = ''POST''" "rq_URL ?rq = url" "rq_Body ?rq = marshal data"
    "header_get (rq_Header ?rq) ''Content-Type'' = ''application/json''"
    "header_get (rq_Header ?rq) ''Idempotency-Key'' =
       (case field_string (xm_Values msg) ''event_id'' of None \<Rightarrow> [] | Some i \<Rightarrow> i)"
    by (auto simp: webhookRequest_def header_get_def split: option.splits)
  obtain reply w1 where do_: "en_do env ?rq w = (reply, w1)" by force
  show ?thesis unfolding Some t using p rq do_
    by (cases reply) (auto intro!: exI [of _ ?rq] simp: processWebhookMessageWithResult_def NewHTTPFailure_def
        ClassifyHTTPStatus_def responseCodeFromError_def IsRetryable_def IsPermanent_def
        NewRetryableFailure_def Let_def)
qed

end
