(* ===== verification/AI_Client.thy ===== *)
theory AI_Client
  imports Operational_Handlers Delivery_Worker
begin

text \<open>
  The client of the AI service, \<open>internal/httpapi/ai_triage.go\<close>: the requests it sends, the
  responses it accepts and how it classifies failures. The HTTP client is an argument that acts on the state \<open>'w\<close>;
  so is the order in which Go visits the entries of a map, which is not specified.
\<close>

section \<open>Data\<close>

definition maxAIResponseBytes :: int where "maxAIResponseBytes = 2 ^ 20"

record triageCitation =
  ct_RunbookID :: bytes
  ct_ChunkID :: bytes
  ct_Title :: bytes
  ct_SourcePath :: bytes

record triageResponse =
  tr_Category :: bytes
  tr_Summary :: bytes
  tr_RecommendedActions :: "bytes list option"
  tr_RedriveRecommendation :: bytes
  tr_Citations :: "triageCitation list option"
  tr_AnalysisMode :: bytes
  tr_Provider :: bytes
  tr_Model :: "bytes option"

record explainStatusHistory =
  xh_Status :: bytes
  xh_OccurredAt :: "bytes option"

record explainDeliveryAttempt =
  xa_AttemptNumber :: int
  xa_HTTPStatus :: "int option"
  xa_Outcome :: bytes
  xa_Error :: "bytes option"
  xa_OccurredAt :: "bytes option"

record explainRequest =
  xq_EventType :: bytes
  xq_BusinessEventType :: "bytes option"
  xq_Source :: bytes
  xq_Destination :: bytes
  xq_CurrentStatus :: bytes
  xq_StatusHistory :: "explainStatusHistory list"
  xq_DeliveryAttempts :: "explainDeliveryAttempt list"
  xq_RetryCount :: int
  xq_EnteredDLQ :: bool
  xq_RedriveCount :: int
  xq_Delivered :: bool

record explainEvidence =
  xe_Type :: bytes
  xe_Description :: bytes

record explainResponse =
  xr_Headline :: bytes
  xr_WhatHappened :: bytes
  xr_BusinessImpact :: bytes
  xr_NextAction :: bytes
  xr_RecommendedActions :: "bytes list option"
  xr_RecoveryStatus :: bytes
  xr_Evidence :: "explainEvidence list option"
  xr_Citations :: "triageCitation list option"
  xr_AnalysisMode :: bytes
  xr_Provider :: bytes
  xr_Model :: "bytes option"

text \<open>A response of the HTTP client with its body, and the client.\<close>

record AIResponse = HttpResponse +
  ai_Body :: bytes
  ai_BodyError :: "error option"

type_synonym 'w http_client = "HttpRequest \<Rightarrow> 'w \<Rightarrow> (error + AIResponse) \<times> 'w"

record 'w AITriageClient =
  ac_baseURL :: bytes
  ac_client :: "'w http_client"

text \<open>The first argument is the default client with its timeout of ten seconds.\<close>

definition NewAITriageClient ::
    "'w http_client \<Rightarrow> bytes \<Rightarrow> 'w http_client option \<Rightarrow> 'w AITriageClient" where
  "NewAITriageClient defaultClient baseURL client =
     \<lparr>ac_baseURL = TrimRightChar baseURL (CHR ''/''),
      ac_client = (case client of None \<Rightarrow> defaultClient | Some c \<Rightarrow> c)\<rparr>"

section \<open>Encoding\<close>

text \<open>A field with \<open>omitempty\<close>.\<close>

definition optional_field :: "bytes \<Rightarrow> bytes option \<Rightarrow> (bytes \<times> json) list" where
  "optional_field k v = (case v of None \<Rightarrow> [] | Some t \<Rightarrow> [(k, JStr t)])"

definition triageRequest_json :: "triageRequest \<Rightarrow> json" where
  "triageRequest_json q = JObj
     ([(''event_type'', JStr (tq_EventType q))] @
      optional_field ''business_event_type'' (tq_BusinessEventType q) @
      [(''source'', JStr (tq_Source q)), (''destination'', JStr (tq_Destination q)),
       (''http_status'', ptr_json JInt (tq_HTTPStatus q)), (''error'', JStr (tq_Error q)),
       (''attempt_count'', JInt (tq_AttemptCount q))] @
      optional_field ''schema_version'' (tq_SchemaVersion q))"

definition triageCitation_json :: "triageCitation \<Rightarrow> json" where
  "triageCitation_json c = JObj
     [(''runbook_id'', JStr (ct_RunbookID c)), (''chunk_id'', JStr (ct_ChunkID c)),
      (''title'', JStr (ct_Title c)), (''source_path'', JStr (ct_SourcePath c))]"

definition triageResponse_json :: "triageResponse \<Rightarrow> json" where
  "triageResponse_json t = JObj
     [(''category'', JStr (tr_Category t)), (''summary'', JStr (tr_Summary t)),
      (''recommended_actions'', slice_json JStr (tr_RecommendedActions t)),
      (''redrive_recommendation'', JStr (tr_RedriveRecommendation t)),
      (''citations'', slice_json triageCitation_json (tr_Citations t)),
      (''analysis_mode'', JStr (tr_AnalysisMode t)), (''provider'', JStr (tr_Provider t)),
      (''model'', ptr_json JStr (tr_Model t))]"

definition explainRequest_json :: "explainRequest \<Rightarrow> json" where
  "explainRequest_json q = JObj
     [(''event_type'', JStr (xq_EventType q)),
      (''business_event_type'', ptr_json JStr (xq_BusinessEventType q)),
      (''source'', JStr (xq_Source q)), (''destination'', JStr (xq_Destination q)),
      (''current_status'', JStr (xq_CurrentStatus q)),
      (''status_history'', JArr (map (\<lambda>h. JObj
         [(''status'', JStr (xh_Status h)), (''occurred_at'', ptr_json JStr (xh_OccurredAt h))])
         (xq_StatusHistory q))),
      (''delivery_attempts'', JArr (map (\<lambda>a. JObj
         [(''attempt_number'', JInt (xa_AttemptNumber a)),
          (''http_status'', ptr_json JInt (xa_HTTPStatus a)), (''outcome'', JStr (xa_Outcome a)),
          (''error'', ptr_json JStr (xa_Error a)), (''occurred_at'', ptr_json JStr (xa_OccurredAt a))])
         (xq_DeliveryAttempts q))),
      (''retry_count'', JInt (xq_RetryCount q)), (''entered_dlq'', JBool (xq_EnteredDLQ q)),
      (''redrive_count'', JInt (xq_RedriveCount q)), (''delivered'', JBool (xq_Delivered q))]"

definition explainEvidence_json :: "explainEvidence \<Rightarrow> json" where
  "explainEvidence_json e =
     JObj [(''type'', JStr (xe_Type e)), (''description'', JStr (xe_Description e))]"

definition explainResponse_json :: "explainResponse \<Rightarrow> json" where
  "explainResponse_json x = JObj
     [(''headline'', JStr (xr_Headline x)), (''what_happened'', JStr (xr_WhatHappened x)),
      (''business_impact'', JStr (xr_BusinessImpact x)), (''next_action'', JStr (xr_NextAction x)),
      (''recommended_actions'', slice_json JStr (xr_RecommendedActions x)),
      (''recovery_status'', JStr (xr_RecoveryStatus x)),
      (''evidence'', slice_json explainEvidence_json (xr_Evidence x)),
      (''citations'', slice_json triageCitation_json (xr_Citations x)),
      (''analysis_mode'', JStr (xr_AnalysisMode x)), (''provider'', JStr (xr_Provider x)),
      (''model'', ptr_json JStr (xr_Model x))]"

section \<open>Decoding\<close>

definition put_citation :: "triageCitation \<Rightarrow> (bytes \<times> json) list \<Rightarrow> triageCitation option" where
  "put_citation c kvs =
     do {
      r \<leftarrow> upd_string ''runbook_id'' (ct_RunbookID c) kvs;
      h \<leftarrow> upd_string ''chunk_id'' (ct_ChunkID c) kvs;
      t \<leftarrow> upd_string ''title'' (ct_Title c) kvs;
      p \<leftarrow> upd_string ''source_path'' (ct_SourcePath c) kvs;
      Some \<lparr>ct_RunbookID = r, ct_ChunkID = h, ct_Title = t, ct_SourcePath = p\<rparr> }"

definition put_evidence :: "explainEvidence \<Rightarrow> (bytes \<times> json) list \<Rightarrow> explainEvidence option" where
  "put_evidence e kvs =
     do {
      t \<leftarrow> upd_string ''type'' (xe_Type e) kvs;
      d \<leftarrow> upd_string ''description'' (xe_Description e) kvs;
      Some \<lparr>xe_Type = t, xe_Description = d\<rparr> }"

definition get_citations :: "(bytes \<times> json) list \<Rightarrow> triageCitation list option option" where
  "get_citations kvs = get_slice (put_struct put_citation)
     \<lparr>ct_RunbookID = [], ct_ChunkID = [], ct_Title = [], ct_SourcePath = []\<rparr> ''citations'' kvs"

definition decodeTriageResponse :: "(bytes \<times> json \<times> bytes) list \<Rightarrow> triageResponse option" where
  "decodeTriageResponse ms =
     (let kvs = plain_members ms in do {
      category \<leftarrow> get_string ''category'' kvs;
      summary \<leftarrow> get_string ''summary'' kvs;
      actions \<leftarrow> get_slice put_string [] ''recommended_actions'' kvs;
      redrive \<leftarrow> get_string ''redrive_recommendation'' kvs;
      citations \<leftarrow> get_citations kvs;
      mode \<leftarrow> get_string ''analysis_mode'' kvs;
      provider \<leftarrow> get_string ''provider'' kvs;
      model \<leftarrow> get_string_ptr ''model'' kvs;
      Some \<lparr>tr_Category = category, tr_Summary = summary, tr_RecommendedActions = actions,
            tr_RedriveRecommendation = redrive, tr_Citations = citations, tr_AnalysisMode = mode,
            tr_Provider = provider, tr_Model = model\<rparr> })"

definition decodeExplainResponse :: "(bytes \<times> json \<times> bytes) list \<Rightarrow> explainResponse option" where
  "decodeExplainResponse ms =
     (let kvs = plain_members ms in do {
      headline \<leftarrow> get_string ''headline'' kvs;
      what \<leftarrow> get_string ''what_happened'' kvs;
      impact \<leftarrow> get_string ''business_impact'' kvs;
      action \<leftarrow> get_string ''next_action'' kvs;
      actions \<leftarrow> get_slice put_string [] ''recommended_actions'' kvs;
      recovery \<leftarrow> get_string ''recovery_status'' kvs;
      evidence \<leftarrow> get_slice (put_struct put_evidence) \<lparr>xe_Type = [], xe_Description = []\<rparr> ''evidence'' kvs;
      citations \<leftarrow> get_citations kvs;
      mode \<leftarrow> get_string ''analysis_mode'' kvs;
      provider \<leftarrow> get_string ''provider'' kvs;
      model \<leftarrow> get_string_ptr ''model'' kvs;
      Some \<lparr>xr_Headline = headline, xr_WhatHappened = what, xr_BusinessImpact = impact,
            xr_NextAction = action, xr_RecommendedActions = actions, xr_RecoveryStatus = recovery,
            xr_Evidence = evidence, xr_Citations = citations, xr_AnalysisMode = mode,
            xr_Provider = provider, xr_Model = model\<rparr> })"

definition decode_response ::
    "golib \<Rightarrow> ((bytes \<times> json \<times> bytes) list \<Rightarrow> 'a option) \<Rightarrow> bytes \<Rightarrow> error option \<Rightarrow> error + 'a" where
  "decode_response lib f body e =
     (case read_value e body of
        ReadEOF \<Rightarrow> Inl io_EOF
      | ReadSyntax \<Rightarrow> Inl (lib_json_error lib body)
      | ReadFail x \<Rightarrow> Inl x
      | ReadVal v rest \<Rightarrow>
          (case decode_struct f v body of
             None \<Rightarrow> Inl (lib_json_error lib body)
           | Some x \<Rightarrow> Inr x))"

text \<open>\<open>io.LimitReader\<close>.\<close>

definition limit_reader :: "int \<Rightarrow> bytes \<Rightarrow> error option \<Rightarrow> bytes \<times> error option" where
  "limit_reader limit body e =
     (if limit \<le> int (length body) then (take (nat limit) body, None) else (body, e))"

section \<open>Validation\<close>

definition isSupportedRecoveryStatus :: "bytes \<Rightarrow> bool" where
  "isSupportedRecoveryStatus status \<longleftrightarrow>
     status \<in> {''not_needed'', ''not_ready'', ''review_required'', ''completed''}"

definition isSupportedAnalysisMode :: "bytes \<Rightarrow> bool" where
  "isSupportedAnalysisMode mode \<longleftrightarrow>
     mode \<in> {''deterministic_runbook'', ''deterministic_fallback'', ''llm_grounded''}"

definition isSupportedProvider :: "bytes \<Rightarrow> bool" where
  "isSupportedProvider provider \<longleftrightarrow> provider \<in> {''deterministic'', ''openai'', ''ollama''}"

definition requiredFields :: "explainResponse \<Rightarrow> (bytes \<times> bytes) list" where
  "requiredFields x =
     [(''headline'', xr_Headline x), (''what_happened'', xr_WhatHappened x),
      (''business_impact'', xr_BusinessImpact x), (''next_action'', xr_NextAction x),
      (''recovery_status'', xr_RecoveryStatus x), (''analysis_mode'', xr_AnalysisMode x),
      (''provider'', xr_Provider x)]"

definition blank :: "bytes \<Rightarrow> bool" where
  "blank s \<longleftrightarrow> TrimSpace s = []"

definition validateExplainResponse ::
    "((bytes \<times> bytes) list \<Rightarrow> (bytes \<times> bytes) list) \<Rightarrow> explainResponse \<Rightarrow> error option" where
  "validateExplainResponse order response =
     (case find (\<lambda>(name, value). blank value) (order (requiredFields response)) of
        Some (name, _) \<Rightarrow> Some (ErrNew (name @ '' is required''))
      | None \<Rightarrow>
      let actions = slice_list (xr_RecommendedActions response);
          evidence = slice_list (xr_Evidence response);
          citations = slice_list (xr_Citations response)
      in
      if actions = [] \<or> 5 < length actions
      then Some (ErrNew ''recommended_actions must contain 1 to 5 items'')
      else if list_ex blank actions then Some (ErrNew ''recommended_actions must be nonempty'')
      else if \<not> isSupportedRecoveryStatus (xr_RecoveryStatus response)
      then Some (ErrNew (''unsupported recovery_status '' @ Quote (xr_RecoveryStatus response)))
      else if \<not> isSupportedAnalysisMode (xr_AnalysisMode response)
      then Some (ErrNew (''unsupported analysis_mode '' @ Quote (xr_AnalysisMode response)))
      else if \<not> isSupportedProvider (xr_Provider response)
      then Some (ErrNew (''unsupported provider '' @ Quote (xr_Provider response)))
      else if evidence = [] \<or> 10 < length evidence
      then Some (ErrNew ''evidence must contain 1 to 10 items'')
      else if list_ex (\<lambda>e. blank (xe_Type e) \<or> blank (xe_Description e)) evidence
      then Some (ErrNew ''evidence entries must be complete'')
      else if citations = [] then Some (ErrNew ''citations are required'')
      else if list_ex (\<lambda>c. blank (ct_RunbookID c) \<or> blank (ct_ChunkID c) \<or> blank (ct_Title c) \<or>
                           blank (ct_SourcePath c)) citations
      then Some (ErrNew ''citation entries must be complete'')
      else None)"

section \<open>Calls\<close>

definition aiRequest :: "bytes \<Rightarrow> bytes \<Rightarrow> HttpRequest" where
  "aiRequest url body = \<lparr>rq_Method = ''POST'', rq_URL = url,
     rq_Header = [(''Content-Type'', ''application/json'')], rq_Body = body\<rparr>"

text \<open>The check of the URL by \<open>http.NewRequestWithContext\<close> is the argument \<open>urlError\<close>.\<close>

definition Triage ::
    "golib \<Rightarrow> (bytes \<Rightarrow> error option) \<Rightarrow> 'w AITriageClient \<Rightarrow> triageRequest \<Rightarrow> 'w \<Rightarrow>
     (error + triageResponse) \<times> 'w" where
  "Triage lib urlError c request w =
     (let url = ac_baseURL c @ ''/triage'' in
      case urlError url of
        Some e \<Rightarrow> (Inl (ErrWrap ''create triage request: '' e []), w)
      | None \<Rightarrow>
      case ac_client c (aiRequest url (marshal (triageRequest_json request))) w of
        (Inl e, w1) \<Rightarrow> (Inl (ErrWrap ''call AI triage service: '' e []), w1)
      | (Inr resp, w1) \<Rightarrow>
          if rs_StatusCode resp < 200 \<or> 300 \<le> rs_StatusCode resp
          then (Inl (ErrNew (''AI triage service returned '' @ rs_Status resp)), w1)
          else
            (case decode_response lib decodeTriageResponse (ai_Body resp) (ai_BodyError resp) of
               Inl e \<Rightarrow> (Inl (ErrWrap ''decode AI triage response: '' e []), w1)
             | Inr result \<Rightarrow> (Inr result, w1)))"

definition Explain ::
    "golib \<Rightarrow> (bytes \<Rightarrow> error option) \<Rightarrow> ((bytes \<times> bytes) list \<Rightarrow> (bytes \<times> bytes) list) \<Rightarrow>
     'w AITriageClient \<Rightarrow> explainRequest \<Rightarrow> 'w \<Rightarrow> (error + explainResponse) \<times> 'w" where
  "Explain lib urlError order c request w =
     (let url = ac_baseURL c @ ''/explain'' in
      case urlError url of
        Some e \<Rightarrow> (Inl (ErrWrap ''create explain request: '' e []), w)
      | None \<Rightarrow>
      case ac_client c (aiRequest url (marshal (explainRequest_json request))) w of
        (Inl e, w1) \<Rightarrow> (Inl (ErrWrap [] ErrAIServiceUnavailable ('': '' @ error_text e)), w1)
      | (Inr resp, w1) \<Rightarrow>
          if rs_StatusCode resp < 200 \<or> 300 \<le> rs_StatusCode resp
          then (Inl (ErrWrap [] ErrAIServiceUnavailable
                       ('': AI explain service returned '' @ rs_Status resp)), w1)
          else
            (case limit_reader maxAIResponseBytes (ai_Body resp) (ai_BodyError resp) of (body, berr) \<Rightarrow>
             case decode_response lib decodeExplainResponse body berr of
               Inl e \<Rightarrow>
                 (Inl (ErrWrap [] ErrAIServiceInvalidResponse
                         ('': decode AI explain response: '' @ error_text e)), w1)
             | Inr result \<Rightarrow>
             case validateExplainResponse order result of
               Some e \<Rightarrow>
                 (Inl (ErrWrap [] ErrAIServiceInvalidResponse ('': '' @ error_text e)), w1)
             | None \<Rightarrow> (Inr result, w1)))"

section \<open>What an accepted explanation has\<close>

definition complete_explanation :: "explainResponse \<Rightarrow> bool" where
  "complete_explanation x \<longleftrightarrow>
     (\<forall>(name, value) \<in> set (requiredFields x). \<not> blank value) \<and>
     slice_list (xr_RecommendedActions x) \<noteq> [] \<and> length (slice_list (xr_RecommendedActions x)) \<le> 5 \<and>
     (\<forall>a \<in> set (slice_list (xr_RecommendedActions x)). \<not> blank a) \<and>
     isSupportedRecoveryStatus (xr_RecoveryStatus x) \<and> isSupportedAnalysisMode (xr_AnalysisMode x) \<and>
     isSupportedProvider (xr_Provider x) \<and>
     slice_list (xr_Evidence x) \<noteq> [] \<and> length (slice_list (xr_Evidence x)) \<le> 10 \<and>
     (\<forall>e \<in> set (slice_list (xr_Evidence x)). \<not> blank (xe_Type e) \<and> \<not> blank (xe_Description e)) \<and>
     slice_list (xr_Citations x) \<noteq> [] \<and>
     (\<forall>c \<in> set (slice_list (xr_Citations x)). \<not> blank (ct_RunbookID c) \<and> \<not> blank (ct_ChunkID c) \<and>
        \<not> blank (ct_Title c) \<and> \<not> blank (ct_SourcePath c))"

lemma validateExplainResponse_iff:
  assumes "set (order (requiredFields x)) = set (requiredFields x)"
  shows "validateExplainResponse order x = None \<longleftrightarrow> complete_explanation x"
proof -
  have f: "find (\<lambda>(name, value). blank value) (order (requiredFields x)) = None \<longleftrightarrow>
      (\<forall>(name, value) \<in> set (requiredFields x). \<not> blank value)"
    by (auto simp: find_None_iff assms)
  have n: "(if c then Some e else y) = None \<longleftrightarrow> \<not> c \<and> y = None" for c and e :: error and y by simp
  show ?thesis
  proof (cases "find (\<lambda>(name, value). blank value) (order (requiredFields x))")
    case None
    then show ?thesis using f
      by (auto simp: validateExplainResponse_def complete_explanation_def Let_def list_ex_iff n
          simp del: split_paired_All split_paired_Ex)
  next
    case (Some y)
    then show ?thesis using f
      by (auto simp: validateExplainResponse_def complete_explanation_def split: prod.splits)
  qed
qed

section \<open>Explanations that are read back\<close>

lemma plain_names:
  "list_all plain_name [''headline'', ''what_happened'', ''business_impact'', ''next_action'', ''recommended_actions'',
     ''recovery_status'', ''evidence'', ''citations'', ''analysis_mode'', ''provider'', ''model'',
     ''type'', ''description'', ''runbook_id'', ''chunk_id'', ''title'', ''source_path'']"
  by (simp add: plain_name_def byte_def)

lemma plain_name_valid: "plain_name s \<Longrightarrow> valid_utf8 s"
  by (rule ascii_valid) (auto simp: plain_name_def list_all_iff)

lemma put_citation_json: "put_struct put_citation z (triageCitation_json c) = Some c"
  using plain_names
  by (cases c) (simp add: put_struct_def triageCitation_json_def put_citation_def upd_string_def
      field_values_Cons put_string_def)

lemma put_evidence_json: "put_struct put_evidence z (explainEvidence_json e) = Some e"
  using plain_names
  by (cases e) (simp add: put_struct_def explainEvidence_json_def put_evidence_def upd_string_def
      field_values_Cons put_string_def)

lemma decodeExplainResponse_json:
  assumes "JObj (plain_members ms) = explainResponse_json x"
  shows "decodeExplainResponse ms = Some x"
proof -
  let ?k = "plain_members ms"
  note k = assms [unfolded explainResponse_json_def json.inject]
  have fv: "field_values ''headline'' ?k = [JStr (xr_Headline x)]"
    "field_values ''what_happened'' ?k = [JStr (xr_WhatHappened x)]"
    "field_values ''business_impact'' ?k = [JStr (xr_BusinessImpact x)]"
    "field_values ''next_action'' ?k = [JStr (xr_NextAction x)]"
    "field_values ''recommended_actions'' ?k = [slice_json JStr (xr_RecommendedActions x)]"
    "field_values ''recovery_status'' ?k = [JStr (xr_RecoveryStatus x)]"
    "field_values ''evidence'' ?k = [slice_json explainEvidence_json (xr_Evidence x)]"
    "field_values ''citations'' ?k = [slice_json triageCitation_json (xr_Citations x)]"
    "field_values ''analysis_mode'' ?k = [JStr (xr_AnalysisMode x)]"
    "field_values ''provider'' ?k = [JStr (xr_Provider x)]"
    "field_values ''model'' ?k = [ptr_json JStr (xr_Model x)]"
    unfolding k using plain_names by (simp_all add: field_values_Cons)
  show ?thesis unfolding decodeExplainResponse_def get_citations_def Let_def
    by (simp add: fv(1-4,6,9,10) [THEN get_string_json] get_string_ptr_json [OF fv(11)]
        get_slice_json [OF _ fv(5)] get_slice_json [OF _ fv(7)] get_slice_json [OF _ fv(8)]
        put_citation_json put_evidence_json put_string_def)
qed

text \<open>The texts of an explanation.\<close>

definition explanation_texts :: "explainResponse \<Rightarrow> bytes list" where
  "explanation_texts x =
     map snd (requiredFields x) @ slice_list (xr_RecommendedActions x) @
     concat (map (\<lambda>e. [xe_Type e, xe_Description e]) (slice_list (xr_Evidence x))) @
     concat (map (\<lambda>c. [ct_RunbookID c, ct_ChunkID c, ct_Title c, ct_SourcePath c])
       (slice_list (xr_Citations x))) @
     (case xr_Model x of None \<Rightarrow> [] | Some t \<Rightarrow> [t])"

lemma slice_json_wf: "wf_json (slice_json g xs) \<longleftrightarrow> (\<forall>x \<in> set (slice_list xs). wf_json (g x))"
  by (cases xs) (auto simp: slice_json_def slice_list_def)

lemma slice_json_depth:
  "(\<And>x. json_depth (g x) \<le> n) \<Longrightarrow> 0 \<le> n \<Longrightarrow> json_depth (slice_json g xs) \<le> 1 + n"
  by (cases xs) (auto simp: slice_json_def fold_max_le)

lemma explainResponse_json_wf:
  assumes "\<forall>t \<in> set (explanation_texts x). valid_utf8 t"
  shows "wf_json (explainResponse_json x)"
  using assms plain_names
  by (auto simp: explainResponse_json_def explanation_texts_def requiredFields_def slice_json_wf
      explainEvidence_json_def triageCitation_json_def ptr_json_def plain_name_valid split: option.splits)

lemma explainResponse_json_depth: "json_depth (explainResponse_json x) \<le> maxNestingDepth"
proof -
  have "json_depth (slice_json JStr ys) \<le> 1 + 1" "json_depth (slice_json explainEvidence_json es) \<le> 1 + 1"
    "json_depth (slice_json triageCitation_json cs) \<le> 1 + 1" for ys es cs
    by (rule slice_json_depth; simp add: explainEvidence_json_def triageCitation_json_def)+
  moreover have "json_depth (ptr_json JStr p) = 0" for p by (cases p) (auto simp: ptr_json_def)
  ultimately have "json_depth (explainResponse_json x) \<le> 1 + 2"
    unfolding explainResponse_json_def json_depth.simps add_le_cancel_left fold_max_le by auto
  then show ?thesis by (simp add: maxNestingDepth_def)
qed

lemma decode_explanation:
  assumes "\<forall>t \<in> set (explanation_texts x). valid_utf8 t"
  shows "decode_response lib decodeExplainResponse (marshal (explainResponse_json x)) e = Inr x"
proof -
  have d: "json_decode (marshal (explainResponse_json x)) = DecVal (explainResponse_json x) []"
    using parse_marshal [OF explainResponse_json_wf [OF assms] explainResponse_json_depth, of "[]"]
    by (simp add: num_stop_def)
  obtain kvs where k: "explainResponse_json x = JObj kvs" by (simp add: explainResponse_json_def)
  have "decodeExplainResponse (raw_object (marshal (explainResponse_json x))) = Some x"
    using d raw_object_parse k by (intro decodeExplainResponse_json) simp
  then show ?thesis using d k
    by (simp add: decode_response_def read_value_def decode_struct_def split: option.split)
qed

text \<open>
  C32: What the AI service says arrives as it was said. An explanation that is complete and whose texts are
  valid UTF-8, sent by the service as JSON of at most one mebibyte with a status of the class
  2xx, is returned by \<open>Explain\<close> with every field as it was.
\<close>

theorem explanation_passed_on:
  assumes "urlError (ac_baseURL c @ ''/explain'') = None"
    and "ac_client c (aiRequest (ac_baseURL c @ ''/explain'') (marshal (explainRequest_json q))) w = (Inr resp, w')"
    and "200 \<le> rs_StatusCode resp" "rs_StatusCode resp < 300"
    and "ai_Body resp = marshal (explainResponse_json x)" "int (length (ai_Body resp)) \<le> 2 ^ 20"
    and "complete_explanation x" "\<forall>t \<in> set (explanation_texts x). valid_utf8 t"
    and "\<And>fs. set (order fs) = set fs"
  shows "Explain lib urlError order c q w = (Inr x, w')"
proof -
  have "fst (limit_reader maxAIResponseBytes (ai_Body resp) (ai_BodyError resp)) = ai_Body resp"
    using assms(6) by (simp add: limit_reader_def maxAIResponseBytes_def)
  then obtain e where "limit_reader maxAIResponseBytes (ai_Body resp) (ai_BodyError resp) =
      (marshal (explainResponse_json x), e)"
    using assms(5) by (metis prod.collapse)
  moreover have "validateExplainResponse order x = None"
    using validateExplainResponse_iff [of order x] assms(7,9) by simp
  ultimately show ?thesis
    using assms(1-4) decode_explanation [OF assms(8)] by (simp add: Explain_def)
qed

definition example_explanation :: explainResponse where
  "example_explanation =
     \<lparr>xr_Headline = ''h'', xr_WhatHappened = ''w'', xr_BusinessImpact = ''b'', xr_NextAction = ''n'',
      xr_RecommendedActions = Some [''a''], xr_RecoveryStatus = ''completed'',
      xr_Evidence = Some [\<lparr>xe_Type = ''t'', xe_Description = ''d''\<rparr>],
      xr_Citations = Some [\<lparr>ct_RunbookID = ''r'', ct_ChunkID = ''c'', ct_Title = ''t'', ct_SourcePath = ''p''\<rparr>],
      xr_AnalysisMode = ''llm_grounded'', xr_Provider = ''openai'', xr_Model = None\<rparr>"

lemma example_explanation_facts:
  "complete_explanation example_explanation"
  "length (marshal (explainResponse_json example_explanation)) \<le> 1000"
  "\<forall>t \<in> set (explanation_texts example_explanation). valid_utf8 t"
    apply code_simp
   apply code_simp
  by (auto simp: explanation_texts_def example_explanation_def requiredFields_def slice_list_def byte_def
      intro!: ascii_valid)

definition example_question :: explainRequest where
  "example_question =
     \<lparr>xq_EventType = ''t'', xq_BusinessEventType = None, xq_Source = ''s'', xq_Destination = ''d'',
      xq_CurrentStatus = StatusStored, xq_StatusHistory = [], xq_DeliveryAttempts = [],
      xq_RetryCount = 0, xq_EnteredDLQ = False, xq_RedriveCount = 0, xq_Delivered = False\<rparr>"

text \<open>A service that answers every request with this explanation.\<close>

definition example_service :: "unit AITriageClient" where
  "example_service = NewAITriageClient (\<lambda>q w. (Inl io_EOF, w)) ''http://ai:8000/''
     (Some (\<lambda>q w. (Inr \<lparr>rs_StatusCode = 200, rs_Status = ''200 OK'',
        ai_Body = marshal (explainResponse_json example_explanation), ai_BodyError = None\<rparr>, w)))"

lemma Explain_example:
  "Explain plain_lib (\<lambda>url. None) (\<lambda>fs. fs) example_service q () = (Inr example_explanation, ())"
proof -
  have "validateExplainResponse (\<lambda>fs. fs) example_explanation = None"
    using validateExplainResponse_iff [of "\<lambda>fs. fs"] example_explanation_facts(1) by simp
  then show ?thesis
    using example_explanation_facts(2) decode_explanation [OF example_explanation_facts(3)]
    by (simp add: Explain_def example_service_def NewAITriageClient_def limit_reader_def maxAIResponseBytes_def)
qed

theorem explanation_passed_on_witness:
  "Explain plain_lib (\<lambda>url. None) (\<lambda>fs. fs) example_service example_question () = (Inr example_explanation, ())"
proof (rule explanation_passed_on)
  show "ac_client example_service (aiRequest (ac_baseURL example_service @ ''/explain'')
      (marshal (explainRequest_json example_question))) () =
      (Inr \<lparr>rs_StatusCode = 200, rs_Status = ''200 OK'',
         ai_Body = marshal (explainResponse_json example_explanation), ai_BodyError = None\<rparr>, ())"
    by (simp add: example_service_def NewAITriageClient_def)
qed (use example_explanation_facts in auto)

end
