(* ===== verification/Event_Explain.thy ===== *)
theory Event_Explain
  imports AI_Client
begin

text \<open>
  The handler of \<open>POST /events/{id}/explain\<close>, \<open>internal/httpapi/event_explain.go\<close>: it builds a
  bounded snapshot of an event without secrets and asks the AI service to explain it.
\<close>

section \<open>The snapshot\<close>

definition maxExplainHistoryItems :: nat where "maxExplainHistoryItems = 20"
definition maxExplainAttemptItems :: nat where "maxExplainAttemptItems = 20"
definition maxExplainErrorLength :: nat where "maxExplainErrorLength = 1000"
definition defaultExplainDestination :: bytes where
  "defaultExplainDestination = ''Webhook destination''"

text \<open>The regular expression \<open>uuidPattern\<close>, as a list of classes of characters.\<close>

definition is_hex :: "char \<Rightarrow> bool" where
  "is_hex c \<longleftrightarrow> hex_val c \<noteq> None"

definition uuidPattern :: "(char \<Rightarrow> bool) list" where
  "uuidPattern =
     (let dash = (\<lambda>c. c = CHR ''-'') in
      replicate 8 is_hex @ [dash] @ replicate 4 is_hex @ [dash] @
      [\<lambda>c. 49 \<le> byte c \<and> byte c \<le> 53] @ replicate 3 is_hex @ [dash] @
      [\<lambda>c. c \<in> set ''89abAB''] @ replicate 3 is_hex @ [dash] @ replicate 12 is_hex)"

definition validEventID :: "bytes \<Rightarrow> bool" where
  "validEventID eventID \<longleftrightarrow> list_all2 (\<lambda>P c. P c) uuidPattern (TrimSpace eventID)"

definition mapExplainStatus :: "bytes \<Rightarrow> bytes option" where
  "mapExplainStatus status =
     (if status \<in> {StatusStored, StatusPendingPublication, StatusPublished, StatusProcessing,
          StatusRetrying, StatusDeadLettered, StatusRedriven, StatusDelivered} then Some status
      else if status = ''RECEIVED'' then Some ''RECEIVED''
      else None)"

text \<open>The zero value of \<open>time.Time\<close>, January 1 of the year 1.\<close>

definition zero_time :: time where "zero_time = -62135596800 * Second"

definition formatOptionalTime :: "time \<Rightarrow> bytes option" where
  "formatOptionalTime t = (if t = zero_time then None else Some (RFC3339Nano t))"

definition explainStatusHistoryFromStore :: "StatusHistoryEntry list \<Rightarrow> explainStatusHistory list" where
  "explainStatusHistoryFromStore hist =
     concat (map (\<lambda>entry.
       case mapExplainStatus (sh_Status entry) of
         None \<Rightarrow> []
       | Some status \<Rightarrow>
           [\<lparr>xh_Status = status, xh_OccurredAt = formatOptionalTime (sh_CreatedAt entry)\<rparr>]) hist)"

definition explainAttemptOutcome :: "DeliveryAttempt \<Rightarrow> bytes" where
  "explainAttemptOutcome attempt =
     (let byText =
        (if da_Outcome attempt = DeliveryOutcomeSucceeded then ''success''
         else if da_Outcome attempt \<noteq> DeliveryOutcomeFailed then ''unknown''
         else
           let errText = (case da_Error attempt of None \<Rightarrow> [] | Some e \<Rightarrow> ToLower e) in
           if contains errText ''permanent'' then ''permanent_failure''
           else if contains errText ''timeout'' \<or> contains errText ''connection'' \<or>
                   contains errText ''no such host'' \<or> contains errText ''deliver webhook request''
           then ''transport_failure''
           else if contains errText ''retryable'' then ''temporary_failure''
           else ''unknown'')
      in case da_ResponseCode attempt of
           None \<Rightarrow> byText
         | Some code \<Rightarrow>
             if 200 \<le> code \<and> code \<le> 299 then ''success''
             else if ClassifyHTTPStatus code = FailureRetryable then ''temporary_failure''
             else if ClassifyHTTPStatus code = FailurePermanent then ''permanent_failure''
             else byText)"

definition truncateError :: "bytes \<Rightarrow> bytes option" where
  "truncateError message =
     (let m = (if maxExplainErrorLength < length message
               then TrimSpace (take maxExplainErrorLength message) else message)
      in if m = [] then None else Some m)"

definition safeExplainError :: "DeliveryAttempt \<Rightarrow> bytes option" where
  "safeExplainError attempt =
     (case da_Error attempt of
        None \<Rightarrow> None
      | Some e \<Rightarrow>
      let message = TrimSpace e; l = ToLower message in
      if message = [] then None
      else if contains l ''invoice_id'' \<or> contains l ''amount'' \<or> contains l ''currency''
      then truncateError ''Required destination field was missing''
      else if contains l ''http://'' \<or> contains l ''https://''
      then truncateError ''Destination delivery failed before a safe HTTP response was recorded''
      else if contains l ''authorization'' \<or> contains l ''token'' \<or> contains l ''secret''
      then truncateError ''Destination rejected the request with an authentication or authorization error''
      else if contains l ''stack trace'' \<or> contains l ''panic'' \<or> contains l ''database'' \<or>
              contains l ''dsn''
      then None
      else truncateError message)"

definition explainDeliveryAttemptsFromStore :: "DeliveryAttempt list \<Rightarrow> explainDeliveryAttempt list" where
  "explainDeliveryAttemptsFromStore atts =
     map (\<lambda>(index, attempt).
       \<lparr>xa_AttemptNumber = int index + 1, xa_HTTPStatus = da_ResponseCode attempt,
        xa_Outcome = explainAttemptOutcome attempt, xa_Error = safeExplainError attempt,
        xa_OccurredAt = formatOptionalTime (da_CompletedAt attempt)\<rparr>) (enumerate 0 atts)"

text \<open>The two counters in the details of a status; \<open>None\<close> when they do not decode.\<close>

definition retryDetails :: "bytes \<Rightarrow> (int option \<times> int option) option" where
  "retryDetails details =
     (case json_unmarshal details of
        Some (JObj kvs) \<Rightarrow>
          (case get_int_ptr ''retry'' kvs of None \<Rightarrow> None | Some retry \<Rightarrow>
           case get_int_ptr ''next_retry'' kvs of None \<Rightarrow> None | Some nextRetry \<Rightarrow>
           Some (retry, nextRetry))
      | Some JNull \<Rightarrow> Some (None, None)
      | _ \<Rightarrow> None)"

definition raise_to :: "int option \<Rightarrow> int \<Rightarrow> int" where
  "raise_to x m = (case x of None \<Rightarrow> m | Some i \<Rightarrow> if m < i then i else m)"

fun maxRetryOf :: "StatusHistoryEntry list \<Rightarrow> int \<Rightarrow> int" where
  "maxRetryOf [] maxRetry = maxRetry"
| "maxRetryOf (entry # hist) maxRetry =
     (if sh_Status entry \<noteq> StatusRetrying then maxRetryOf hist maxRetry
      else
        case retryDetails (sh_Details entry) of
          None \<Rightarrow> maxRetryOf hist maxRetry
        | Some (retry, nextRetry) \<Rightarrow> maxRetryOf hist (raise_to retry (raise_to nextRetry maxRetry)))"

definition statusHistoryContains :: "StatusHistoryEntry list \<Rightarrow> bytes \<Rightarrow> bool" where
  "statusHistoryContains hist status = list_ex (\<lambda>entry. sh_Status entry = status) hist"

definition countStatus :: "StatusHistoryEntry list \<Rightarrow> bytes \<Rightarrow> int" where
  "countStatus hist status = int (length (filter (\<lambda>entry. sh_Status entry = status) hist))"

definition retryCountFromHistory :: "StatusHistoryEntry list \<Rightarrow> int" where
  "retryCountFromHistory hist =
     (let maxRetry = maxRetryOf hist 0 in
      if 0 < maxRetry then maxRetry else countStatus hist StatusRetrying)"

definition boundExplainAttempts :: "explainDeliveryAttempt list \<Rightarrow> explainDeliveryAttempt list" where
  "boundExplainAttempts atts =
     (if length atts \<le> maxExplainAttemptItems then atts
      else drop (length atts - maxExplainAttemptItems) atts)"

definition is_marker :: "explainStatusHistory \<Rightarrow> bool" where
  "is_marker entry \<longleftrightarrow> xh_Status entry \<in> {StatusDeadLettered, StatusRedriven, StatusDelivered}"

text \<open>The loop that fills the set of kept positions from the end.\<close>

fun keepRecent :: "nat \<Rightarrow> nat list \<Rightarrow> nat list" where
  "keepRecent 0 keep = keep"
| "keepRecent (Suc i) keep =
     (if length keep < maxExplainHistoryItems then keepRecent i (List.insert i keep) else keep)"

text \<open>The loop that keeps the markers.\<close>

fun keepMarkers :: "nat \<Rightarrow> explainStatusHistory list \<Rightarrow> nat list \<Rightarrow> nat list" where
  "keepMarkers i [] keep = keep"
| "keepMarkers i (entry # hist) keep =
     keepMarkers (Suc i) hist (if is_marker entry then List.insert i keep else keep)"

definition boundExplainHistory :: "explainStatusHistory list \<Rightarrow> explainStatusHistory list" where
  "boundExplainHistory hist =
     (if length hist \<le> maxExplainHistoryItems then hist
      else
        let keep = keepRecent (length hist) (keepMarkers 0 hist [0]) in
        take maxExplainHistoryItems
          (map snd (filter (\<lambda>(i, entry). i \<in> set keep) (enumerate 0 hist))))"

record 'w EventExplainReader =
  er_EventStatus :: "bytes \<Rightarrow> 'w \<Rightarrow> (error + EventStatus) \<times> 'w"
  er_DLQDetail :: "bytes \<Rightarrow> 'w \<Rightarrow> (error + DLQDetail) \<times> 'w"

text \<open>The request for the service from what the store has.\<close>

definition explainSnapshot :: "golib \<Rightarrow> EventStatus \<Rightarrow> DLQDetail option \<Rightarrow> error + explainRequest" where
  "explainSnapshot lib status dlqDetail =
     (case mapExplainStatus (es_CurrentStatus status) of
        None \<Rightarrow> Inl ErrEventNotReadyForExplanation
      | Some currentStatus \<Rightarrow>
      let hist = explainStatusHistoryFromStore (es_History status);
          atts = explainDeliveryAttemptsFromStore (es_DeliveryAttempts status)
      in
      if hist = [] \<and> atts = [] then Inl ErrEventNotReadyForExplanation
      else
        let payload = em_Payload (es_Event status);
            destination = destinationFromEventPayload lib payload;
            redriven = countStatus (es_History status) StatusRedriven
        in Inr \<lparr>xq_EventType = em_EventType (es_Event status),
                xq_BusinessEventType = fst (safeMetadataFromEventPayload lib payload),
                xq_Source = em_Source (es_Event status),
                xq_Destination = (if destination = [] then defaultExplainDestination else destination),
                xq_CurrentStatus = currentStatus,
                xq_StatusHistory = boundExplainHistory hist,
                xq_DeliveryAttempts = boundExplainAttempts atts,
                xq_RetryCount = retryCountFromHistory (es_History status),
                xq_EnteredDLQ = (dlqDetail \<noteq> None \<or>
                   statusHistoryContains (es_History status) StatusDeadLettered),
                xq_RedriveCount =
                  (case dlqDetail of
                     Some detail \<Rightarrow>
                       if redriven = 0 \<and> dr_RedrivenAt (dd_Record detail) \<noteq> None then 1 else redriven
                   | None \<Rightarrow> redriven),
                xq_Delivered = (currentStatus = StatusDelivered)\<rparr>)"

definition explainRequestFromStore ::
    "golib \<Rightarrow> 'w EventExplainReader \<Rightarrow> bytes \<Rightarrow> 'w \<Rightarrow> (error + explainRequest) \<times> 'w" where
  "explainRequestFromStore lib store eventID w =
     (case er_EventStatus store eventID w of
        (Inl err, w1) \<Rightarrow> (Inl err, w1)
      | (Inr status, w1) \<Rightarrow>
      case er_DLQDetail store eventID w1 of
        (Inr detail, w2) \<Rightarrow> (explainSnapshot lib status (Some detail), w2)
      | (Inl err, w2) \<Rightarrow>
          if errors_is err ErrDLQNotFound then (explainSnapshot lib status None, w2)
          else (Inl err, w2))"

section \<open>The handler\<close>

type_synonym 'w EventExplainClient = "explainRequest \<Rightarrow> 'w \<Rightarrow> (error + explainResponse) \<times> 'w"

definition explainEventID :: "bytes \<Rightarrow> bytes" where
  "explainEventID path =
     TrimChar (TrimSuffix (TrimPrefix (TrimRightChar path (CHR ''/'')) ''/events/'') ''/explain'') (CHR ''/'')"

definition error_json :: "bytes \<Rightarrow> json option" where
  "error_json code = Some (JObj [(''error'', JStr code)])"

definition NewEventExplainHandler ::
    "golib \<Rightarrow> 'w EventExplainReader \<Rightarrow> 'w EventExplainClient option \<Rightarrow> 'w handler" where
  "NewEventExplainHandler lib store client r w =
     (if req_Method r \<noteq> ''POST'' then (method_not_allowed ''POST'', w)
      else
        case client of
          None \<Rightarrow> (writeJSON 503 (error_json ''EXPLANATION_UNAVAILABLE''), w)
        | Some explain \<Rightarrow>
        let eventID = explainEventID (req_Path r) in
        if \<not> validEventID eventID then (writeJSON 400 (error_json ''INVALID_EVENT_ID''), w)
        else
          case explainRequestFromStore lib store eventID w of
            (Inl err, w1) \<Rightarrow>
              (if errors_is err ErrEventNotFound then status_only 404
               else if errors_is err ErrEventNotReadyForExplanation
               then writeJSON 409 (error_json ''EVENT_NOT_READY_FOR_EXPLANATION'')
               else http_Error ''failed to build event explanation snapshot'' 500, w1)
          | (Inr snapshot, w1) \<Rightarrow>
          case explain snapshot w1 of
            (Inl err, w2) \<Rightarrow>
              (if errors_is err ErrAIServiceInvalidResponse
               then writeJSON 502 (error_json ''EXPLANATION_INVALID_RESPONSE'')
               else writeJSON 503 (error_json ''EXPLANATION_UNAVAILABLE''), w2)
          | (Inr explanation, w2) \<Rightarrow> (writeJSON 200 (Some (explainResponse_json explanation)), w2))"

section \<open>Lemmas on the bounds\<close>

abbreviation markers :: "explainStatusHistory list \<Rightarrow> nat list" where
  "markers hist \<equiv> keepMarkers 0 hist [0]"

lemma distinct_keepMarkers: "distinct keep \<Longrightarrow> distinct (keepMarkers i hist keep)"
  by (induction i hist keep rule: keepMarkers.induct) (auto simp: distinct_insert)

lemma set_keepMarkers:
  "set (keepMarkers i hist keep) = set keep \<union> {k. i \<le> k \<and> k < i + length hist \<and> is_marker (hist ! (k - i))}"
proof (induction i hist keep rule: keepMarkers.induct)
  case (2 i entry hist keep)
  have "{k. i \<le> k \<and> k < i + length (entry # hist) \<and> is_marker ((entry # hist) ! (k - i))} =
      (if is_marker entry then {i} else {}) \<union>
      {k. Suc i \<le> k \<and> k < Suc i + length hist \<and> is_marker (hist ! (k - Suc i))}" (is "?l = ?r")
  proof (rule set_eqI)
    fix k
    have "k - Suc i = k - i - 1" by simp
    then show "k \<in> ?l \<longleftrightarrow> k \<in> ?r" by (cases "k - i") auto
  qed
  then show ?case using 2 by auto
qed auto

lemma keepRecent_subset: "set keep \<subseteq> set (keepRecent i keep)"
  by (induction i keep rule: keepRecent.induct) auto

lemma keepRecent_distinct: "distinct keep \<Longrightarrow> distinct (keepRecent i keep)"
  by (induction i keep rule: keepRecent.induct) (auto simp: distinct_insert)

lemma keepRecent_range: "set (keepRecent i keep) \<subseteq> set keep \<union> {..<i}"
proof (induction i keep rule: keepRecent.induct)
  case (2 i keep)
  then show ?case by (auto simp: less_Suc_eq)
qed simp

lemma keepRecent_length:
  "length keep \<le> maxExplainHistoryItems \<Longrightarrow> length (keepRecent i keep) \<le> maxExplainHistoryItems"
  by (induction i keep rule: keepRecent.induct) (auto simp: List.insert_def)

lemma keepRecent_last: "length keep < maxExplainHistoryItems \<Longrightarrow> i \<in> set (keepRecent (Suc i) keep)"
  using keepRecent_subset [of "List.insert i keep" i] by auto

lemma filter_enumerate_length:
  assumes "distinct keep" "set keep \<subseteq> {..<length xs}"
  shows "length (filter (\<lambda>(i, e). i \<in> set keep) (enumerate 0 xs)) = length keep"
proof -
  have "set (map fst (filter (\<lambda>(i, e). i \<in> set keep) (enumerate 0 xs))) = set keep"
    using assms(2) by (force simp: in_set_enumerate_eq image_iff)
  moreover have "distinct (map fst (filter (\<lambda>(i, e). i \<in> set keep) (enumerate 0 xs)))"
    by (simp add: distinct_map_filter)
  ultimately show ?thesis using assms(1) by (metis distinct_card length_map)
qed

lemma subseq_bound: "subseq (boundExplainHistory hist) hist"
proof -
  have "subseq (map snd (filter P (enumerate 0 hist))) (map snd (enumerate 0 hist))" for P
    by (rule subseq_map) (rule subseq_filter_left)
  then show ?thesis
    using subseq_order.trans [OF prefix_imp_subseq [OF take_is_prefix]]
    by (fastforce simp: boundExplainHistory_def Let_def)
qed

text \<open>The kept positions, and the history when they are not too many.\<close>

abbreviation kept :: "explainStatusHistory list \<Rightarrow> nat list" where
  "kept hist \<equiv> keepRecent (length hist) (markers hist)"

lemma kept_range: "hist \<noteq> [] \<Longrightarrow> set (kept hist) \<subseteq> {..<length hist}"
  using keepRecent_range [of "length hist" "markers hist"] by (auto simp: set_keepMarkers)

lemma bound_eq:
  assumes "length (markers hist) \<le> maxExplainHistoryItems" "maxExplainHistoryItems < length hist"
  shows "boundExplainHistory hist = map snd (filter (\<lambda>(i, e). i \<in> set (kept hist)) (enumerate 0 hist))"
proof -
  have "length (filter (\<lambda>(i, e). i \<in> set (kept hist)) (enumerate 0 hist)) \<le> maxExplainHistoryItems"
    using filter_enumerate_length [of "kept hist" hist] keepRecent_length [OF assms(1)] kept_range [of hist]
      keepRecent_distinct [OF distinct_keepMarkers] assms(2) by fastforce
  then show ?thesis using assms(2) by (simp add: boundExplainHistory_def)
qed

lemma bound_first: "take 1 (boundExplainHistory hist) = take 1 hist"
proof (cases hist)
  case (Cons e es)
  have "0 \<in> set (kept hist)" using keepRecent_subset [of "markers hist"] by (auto simp: set_keepMarkers)
  then show ?thesis using Cons
    by (simp add: boundExplainHistory_def maxExplainHistoryItems_def enumerate_simps Let_def)
qed (simp add: boundExplainHistory_def)

lemma bound_markers:
  assumes "length (markers hist) \<le> maxExplainHistoryItems"
  shows "filter is_marker (boundExplainHistory hist) = filter is_marker hist"
proof (cases "length hist \<le> maxExplainHistoryItems")
  case False
  have "i \<in> set (kept hist)" if "(i, e) \<in> set (enumerate 0 hist)" "is_marker e" for i e
    using that keepRecent_subset [of "markers hist" "length hist"]
    by (auto simp: set_keepMarkers in_set_enumerate_eq)
  then have "filter (\<lambda>(i, e). is_marker e) (filter (\<lambda>(i, e). i \<in> set (kept hist)) (enumerate 0 hist)) =
      filter (\<lambda>(i, e). is_marker e) (enumerate 0 hist)"
    by (auto intro!: filter_cong)
  moreover have "filter is_marker (map snd xs) = map snd (filter (\<lambda>(i, e). is_marker e) xs)"
    for xs :: "(nat \<times> explainStatusHistory) list"
    by (simp add: filter_map comp_def split_def)
  moreover have "map snd (enumerate 0 hist) = hist" by simp
  ultimately show ?thesis using bound_eq [of hist] assms False by (metis not_le)
qed (simp add: boundExplainHistory_def)

lemma bound_last:
  assumes "length (markers hist) < maxExplainHistoryItems" "hist \<noteq> []"
  shows "last hist \<in> set (boundExplainHistory hist)"
proof (cases "length hist \<le> maxExplainHistoryItems")
  case False
  have "length hist - 1 \<in> set (kept hist)"
    using keepRecent_last [OF assms(1), of "length hist - 1"] assms(2) by simp
  moreover have "(length hist - 1, last hist) \<in> set (enumerate 0 hist)"
    using assms(2) by (simp add: in_set_enumerate_eq last_conv_nth)
  ultimately show ?thesis using bound_eq [of hist] assms False by (force simp: image_iff)
qed (use assms in \<open>simp add: boundExplainHistory_def\<close>)

section \<open>Properties\<close>

text \<open>
  The history sent for an explanation. It has at most 20 entries, in their order, and begins with
  the first one. If the first entry and the markers (dead-lettered, redriven, delivered) are
  fewer than 20, then every marker and the last entry are in it.
\<close>

theorem boundExplainHistory_keeps:
  "length (boundExplainHistory hist) \<le> 20 \<and> subseq (boundExplainHistory hist) hist \<and>
   take 1 (boundExplainHistory hist) = take 1 hist \<and>
   (length (filter is_marker hist) < 19 \<longrightarrow>
      filter is_marker (boundExplainHistory hist) = filter is_marker hist \<and>
      (hist = [] \<or> last hist \<in> set (boundExplainHistory hist)))"
proof -
  have "length (markers hist) < maxExplainHistoryItems" if "length (filter is_marker hist) < 19"
  proof -
    have "length (keepMarkers i hist keep) \<le> length keep + length (filter is_marker hist)" for i keep
      by (induction i hist keep rule: keepMarkers.induct) (auto simp: List.insert_def intro: le_SucI)
    from this [of 0 "[0]"] that show ?thesis by (simp add: maxExplainHistoryItems_def)
  qed
  moreover have "length (boundExplainHistory hist) \<le> 20"
    by (auto simp: boundExplainHistory_def maxExplainHistoryItems_def Let_def)
  ultimately show ?thesis using subseq_bound bound_first bound_markers bound_last by fastforce
qed

theorem boundExplainHistory_keeps_witness:
  "let hist = map (\<lambda>st. \<lparr>xh_Status = st, xh_OccurredAt = None\<rparr>)
       (StatusStored # replicate 23 StatusRetrying @ [StatusDelivered])
   in last hist \<in> set (boundExplainHistory hist)"
  using boundExplainHistory_keeps [of "map (\<lambda>st. \<lparr>xh_Status = st, xh_OccurredAt = None\<rparr>)
       (StatusStored # replicate 23 StatusRetrying @ [StatusDelivered])"]
  by (simp add: is_marker_def StatusRetrying_def StatusStored_def StatusDelivered_def StatusDeadLettered_def
      StatusRedriven_def del: replicate.simps)

text \<open>
  The most recent status can be lost. A history with a first entry and 20 markers after it is
  cut to its first 20 entries that are kept: an event that was dead-lettered and redriven ten
  times and is then delivered is sent for an explanation without its delivery.
\<close>

theorem boundExplainHistory_drops_delivery:
  "boundExplainHistory
     (map (\<lambda>st. \<lparr>xh_Status = st, xh_OccurredAt = None\<rparr>)
       (StatusStored # concat (replicate 10 [StatusDeadLettered, StatusRedriven]) @ [StatusDelivered])) =
   map (\<lambda>st. \<lparr>xh_Status = st, xh_OccurredAt = None\<rparr>)
     (StatusStored # concat (replicate 9 [StatusDeadLettered, StatusRedriven]) @ [StatusDeadLettered])"
  by code_simp

text \<open>The texts that stand for a message that is not passed on.\<close>

definition fixed_messages :: "bytes list" where
  "fixed_messages =
     [''Required destination field was missing'',
      ''Destination delivery failed before a safe HTTP response was recorded'',
      ''Destination rejected the request with an authentication or authorization error'']"

definition sensitive_words :: "bytes list" where
  "sensitive_words = [''invoice_id'', ''amount'', ''currency'', ''http://'', ''https://'', ''authorization'',
     ''token'', ''secret'', ''stack trace'', ''panic'', ''database'', ''dsn'']"

lemma truncateError_Some:
  "truncateError m = Some x \<Longrightarrow> x \<noteq> [] \<and> length x \<le> 1000 \<and> (length m \<le> 1000 \<longrightarrow> x = m)"
  using TrimSpace_sublist [of "take maxExplainErrorLength m"]
  by (auto simp: truncateError_def maxExplainErrorLength_def Let_def split: if_splits)

lemma truncateError_cases:
  "truncateError m = Some x \<Longrightarrow> length m \<le> 1000 \<and> x = m \<or> x = TrimSpace (take 1000 m)"
  by (auto simp: truncateError_def maxExplainErrorLength_def Let_def split: if_splits)

lemma truncateError_eq:
  "truncateError m =
     (case (if length m \<le> 1000 then m else TrimSpace (take 1000 m)) of [] \<Rightarrow> None | c # t \<Rightarrow> Some (c # t))"
  by (simp add: truncateError_def maxExplainErrorLength_def Let_def split: list.split)

lemma safeExplainError_listed:
  assumes "da_Error att = Some e" "list_ex (contains (ToLower (TrimSpace e))) sensitive_words"
  shows "safeExplainError att \<in> {None} \<union> Some ` set fixed_messages"
proof -
  have fixed: "list_all (\<lambda>t. truncateError t = Some t) fixed_messages" by code_simp
  show ?thesis
  proof (cases "safeExplainError att")
    case (Some m)
    then have "\<exists>t \<in> set fixed_messages. truncateError t = Some m" using assms
      by (auto simp: safeExplainError_def sensitive_words_def fixed_messages_def Let_def split: if_splits)
    then show ?thesis using fixed Some by (auto simp: list_all_iff)
  qed simp
qed

lemma safeExplainError_unlisted:
  assumes "da_Error att = Some e" "\<not> list_ex (contains (ToLower (TrimSpace e))) sensitive_words"
  shows "safeExplainError att =
    (case (if length (TrimSpace e) \<le> 1000 then TrimSpace e else TrimSpace (take 1000 (TrimSpace e))) of
       [] \<Rightarrow> None | c # t \<Rightarrow> Some (c # t))"
  using assms truncateError_eq [of "TrimSpace e"]
  by (simp add: safeExplainError_def sensitive_words_def Let_def)

lemma attempts_nth:
  assumes "a \<in> set (boundExplainAttempts (explainDeliveryAttemptsFromStore atts))"
  obtains k where "k < length atts" "a = \<lparr>xa_AttemptNumber = int k + 1, xa_HTTPStatus = da_ResponseCode (atts ! k),
      xa_Outcome = explainAttemptOutcome (atts ! k), xa_Error = safeExplainError (atts ! k),
      xa_OccurredAt = formatOptionalTime (da_CompletedAt (atts ! k))\<rparr>"
proof -
  have "a \<in> set (explainDeliveryAttemptsFromStore atts)"
    using assms by (auto simp: boundExplainAttempts_def split: if_splits dest: in_set_dropD)
  then show thesis using that by (auto simp: explainDeliveryAttemptsFromStore_def in_set_enumerate_eq)
qed

text \<open>
  C33: Which error texts are sent for an explanation. The error of every attempt in the snapshot is decided by the
  error recorded with the attempt of that number. If that contains, in any case, a URL or one of the
  listed words, the snapshot has one of the three fixed texts or none; otherwise it has the recorded text,
  trimmed and cut to 1000 bytes. (The triage of a dead-letter record has its own request, which is not covered here.)
\<close>

theorem explain_errors_safe:
  assumes "explainSnapshot lib status dlqDetail = Inr q" "a \<in> set (xq_DeliveryAttempts q)"
  shows "1 \<le> xa_AttemptNumber a \<and> xa_AttemptNumber a \<le> int (length (es_DeliveryAttempts status)) \<and>
    (case da_Error (es_DeliveryAttempts status ! nat (xa_AttemptNumber a - 1)) of
       None \<Rightarrow> xa_Error a = None
     | Some e \<Rightarrow>
         if list_ex (contains (ToLower (TrimSpace e)))
              [''invoice_id'', ''amount'', ''currency'', ''http://'', ''https://'', ''authorization'', ''token'',
               ''secret'', ''stack trace'', ''panic'', ''database'', ''dsn'']
         then xa_Error a \<in> {None, Some ''Required destination field was missing'',
           Some ''Destination delivery failed before a safe HTTP response was recorded'',
           Some ''Destination rejected the request with an authentication or authorization error''}
         else xa_Error a =
           (case (if length (TrimSpace e) \<le> 1000 then TrimSpace e else TrimSpace (take 1000 (TrimSpace e))) of
              [] \<Rightarrow> None | c # t \<Rightarrow> Some (c # t)))"
proof -
  have "xq_DeliveryAttempts q = boundExplainAttempts (explainDeliveryAttemptsFromStore (es_DeliveryAttempts status))"
    using assms(1) by (auto simp: explainSnapshot_def Let_def split: option.splits if_splits)
  then obtain k where k: "k < length (es_DeliveryAttempts status)" "xa_AttemptNumber a = int k + 1"
    "xa_Error a = safeExplainError (es_DeliveryAttempts status ! k)"
    using attempts_nth [of a "es_DeliveryAttempts status"] assms(2) by (metis explainDeliveryAttempt.select_convs(1,4))
  let ?att = "es_DeliveryAttempts status ! k"
  have n: "nat (xa_AttemptNumber a - 1) = k" using k(2) by simp
  show ?thesis
  proof (cases "da_Error ?att")
    case None
    then show ?thesis using k n by (simp add: safeExplainError_def)
  next
    case (Some e)
    show ?thesis
    proof (cases "list_ex (contains (ToLower (TrimSpace e))) sensitive_words")
      case True
      from safeExplainError_listed [OF Some this] True show ?thesis
        unfolding n k(3) Some using k(1,2) by (simp add: sensitive_words_def fixed_messages_def) blast
    next
      case False
      from safeExplainError_unlisted [OF Some this] False show ?thesis
        unfolding n k(3) Some using k(1,2) by (simp add: sensitive_words_def)
    qed
  qed
qed

section \<open>The contents of the snapshot\<close>

lemma mapExplainStatus_Some: "mapExplainStatus st = Some x \<Longrightarrow> x = st"
  by (simp add: mapExplainStatus_def split: if_splits)

text \<open>The statuses the AI service knows.\<close>

definition explained_statuses :: "bytes list" where
  "explained_statuses = [''RECEIVED'', ''STORED'', ''PENDING_PUBLICATION'', ''PUBLISHED'', ''PROCESSING'', ''RETRYING'',
     ''DELIVERED'', ''DEAD_LETTERED'', ''REDRIVEN'']"

lemma mapExplainStatus_iff: "mapExplainStatus st = (if st \<in> set explained_statuses then Some st else None)"
  by (simp add: mapExplainStatus_def explained_statuses_def status_consts)

text \<open>The numbers of retries that the details of the history name.\<close>

definition retry_numbers :: "StatusHistoryEntry list \<Rightarrow> int list" where
  "retry_numbers hist =
     concat (map (\<lambda>h. if sh_Status h \<noteq> ''RETRYING'' then []
       else case retryDetails (sh_Details h) of
          None \<Rightarrow> []
        | Some (retry, nextRetry) \<Rightarrow> List.map_filter id [nextRetry, retry]) hist)"

lemma maxRetryOf_fold: "maxRetryOf hist m = fold max (retry_numbers hist) m"
proof (induction hist m rule: maxRetryOf.induct)
  case (2 entry hist m)
  show ?case
  proof (cases "sh_Status entry = ''RETRYING''")
    case True
    then show ?thesis using 2 by (auto simp: retry_numbers_def StatusRetrying_def raise_to_def map_filter_simps
          max_def split: option.splits)
  next
    case False
    then show ?thesis using 2 by (simp add: retry_numbers_def StatusRetrying_def)
  qed
qed (simp add: retry_numbers_def)

lemma fold_max_positive:
  fixes xs :: "int list"
  shows "fold max xs 0 = (if list_ex (\<lambda>v. 0 < v) xs then Max (set xs) else 0)"
proof -
  have "fold max xs 0 = Max (set (0 # xs))" by (simp only: Max.set_eq_fold)
  moreover have "Max (set xs) = Max (insert 0 (set xs))" if "v \<in> set xs" "0 < v" for v
    using that order_trans [OF less_imp_le Max_ge [of "set xs" v]] by (subst Max_insert) (auto simp: max_def)
  moreover have "Max (insert 0 (set xs)) = 0" if "\<forall>v \<in> set xs. v \<le> 0" using that by (auto intro: Max_eqI)
  ultimately show ?thesis by (auto simp: list_ex_iff not_less)
qed

lemma retryCount_eq:
  "retryCountFromHistory hist =
     (if list_ex (\<lambda>v. 0 < v) (retry_numbers hist) then Max (set (retry_numbers hist))
      else int (length (filter (\<lambda>h. sh_Status h = ''RETRYING'') hist)))"
proof -
  have "0 < Max (set xs)" if "list_ex (\<lambda>v. 0 < v) xs" for xs :: "int list"
    using that by (subst Max_gr_iff) (auto simp: list_ex_iff)
  then show ?thesis
    by (simp add: retryCountFromHistory_def maxRetryOf_fold fold_max_positive countStatus_def StatusRetrying_def Let_def)
qed

lemma history_eq:
  "explainStatusHistoryFromStore hist =
     map (\<lambda>h. \<lparr>xh_Status = sh_Status h, xh_OccurredAt = formatOptionalTime (sh_CreatedAt h)\<rparr>)
       (filter (\<lambda>h. sh_Status h \<in> set explained_statuses) hist)"
  by (induction hist) (simp_all add: explainStatusHistoryFromStore_def mapExplainStatus_iff)

lemma attempts_eq:
  "map xa_AttemptNumber (boundExplainAttempts (explainDeliveryAttemptsFromStore atts)) =
     map int [Suc (length atts - 20) ..< Suc (length atts)]"
  "map xa_HTTPStatus (boundExplainAttempts (explainDeliveryAttemptsFromStore atts)) =
     map da_ResponseCode (drop (length atts - 20) atts)"
  "map xa_Outcome (boundExplainAttempts (explainDeliveryAttemptsFromStore atts)) =
     map explainAttemptOutcome (drop (length atts - 20) atts)"
proof -
  have b: "boundExplainAttempts (explainDeliveryAttemptsFromStore atts) =
      drop (length atts - 20) (explainDeliveryAttemptsFromStore atts)"
    by (simp add: boundExplainAttempts_def maxExplainAttemptItems_def explainDeliveryAttemptsFromStore_def)
  show "map xa_AttemptNumber (boundExplainAttempts (explainDeliveryAttemptsFromStore atts)) =
      map int [Suc (length atts - 20) ..< Suc (length atts)]"
    unfolding b by (rule nth_equalityI)
      (auto simp: explainDeliveryAttemptsFromStore_def nth_enumerate_eq simp del: upt_Suc)
  show "map xa_HTTPStatus (boundExplainAttempts (explainDeliveryAttemptsFromStore atts)) =
      map da_ResponseCode (drop (length atts - 20) atts)"
    "map xa_Outcome (boundExplainAttempts (explainDeliveryAttemptsFromStore atts)) =
      map explainAttemptOutcome (drop (length atts - 20) atts)"
    unfolding b by (rule nth_equalityI; simp add: explainDeliveryAttemptsFromStore_def nth_enumerate_eq)+
qed

text \<open>
  C34: What the snapshot for an explanation says. The statuses are those of the stored history that the service knows,
  with their times; all of them if they are at most 20, otherwise at most 20 of them in their order, the first one
  among them, and every dead-lettering, redrive and delivery if these are fewer than 19. The attempts are
  the last 20, with their numbers among all attempts and their response codes. The retry count is the highest
  number of a retry that the history names, or the number of its \<open>RETRYING\<close> entries if it names none; the
  redrive count is the number of its \<open>REDRIVEN\<close> entries, or 1 if there are none but the dead-letter
  record has been redriven; the event has entered the dead-letter queue if there is a record or a \<open>DEAD_LETTERED\<close>
  entry, and is delivered if its status is \<open>DELIVERED\<close>.
\<close>

theorem explain_snapshot_exact:
  assumes "explainSnapshot lib status dlqDetail = Inr q" "hist = es_History status" "atts = es_DeliveryAttempts status"
    and "known = map (\<lambda>h. \<lparr>xh_Status = sh_Status h, xh_OccurredAt = formatOptionalTime (sh_CreatedAt h)\<rparr>)
      (filter (\<lambda>h. sh_Status h \<in> set explained_statuses) hist)"
  shows "(if length known \<le> 20 then xq_StatusHistory q = known
      else length (xq_StatusHistory q) \<le> 20 \<and> subseq (xq_StatusHistory q) known \<and>
        hd (xq_StatusHistory q) = hd known \<and> xq_StatusHistory q \<noteq> [] \<and>
        (length (filter (\<lambda>h. xh_Status h \<in> {''DEAD_LETTERED'', ''REDRIVEN'', ''DELIVERED''}) known) < 19 \<longrightarrow>
           filter (\<lambda>h. xh_Status h \<in> {''DEAD_LETTERED'', ''REDRIVEN'', ''DELIVERED''}) (xq_StatusHistory q) =
           filter (\<lambda>h. xh_Status h \<in> {''DEAD_LETTERED'', ''REDRIVEN'', ''DELIVERED''}) known)) \<and>
    map xa_AttemptNumber (xq_DeliveryAttempts q) = map int [Suc (length atts - 20) ..< Suc (length atts)] \<and>
    map xa_HTTPStatus (xq_DeliveryAttempts q) = map da_ResponseCode (drop (length atts - 20) atts) \<and>
    xq_RetryCount q = (if list_ex (\<lambda>v. 0 < v) (retry_numbers hist) then Max (set (retry_numbers hist))
      else int (length (filter (\<lambda>h. sh_Status h = ''RETRYING'') hist))) \<and>
    xq_RedriveCount q = (case int (length (filter (\<lambda>h. sh_Status h = ''REDRIVEN'') hist)) of n \<Rightarrow>
      if n = 0 \<and> (\<exists>detail. dlqDetail = Some detail \<and> dr_RedrivenAt (dd_Record detail) \<noteq> None) then 1 else n) \<and>
    (xq_EnteredDLQ q \<longleftrightarrow> dlqDetail \<noteq> None \<or> ''DEAD_LETTERED'' \<in> sh_Status ` set hist) \<and>
    (xq_Delivered q \<longleftrightarrow> es_CurrentStatus status = ''DELIVERED'')"
proof -
  have q: "xq_StatusHistory q = boundExplainHistory known"
    "xq_DeliveryAttempts q = boundExplainAttempts (explainDeliveryAttemptsFromStore atts)"
    "xq_RetryCount q = retryCountFromHistory hist"
    "xq_RedriveCount q = (case countStatus hist StatusRedriven of n \<Rightarrow>
      if n = 0 \<and> (\<exists>detail. dlqDetail = Some detail \<and> dr_RedrivenAt (dd_Record detail) \<noteq> None) then 1 else n)"
    "xq_EnteredDLQ q \<longleftrightarrow> dlqDetail \<noteq> None \<or> statusHistoryContains hist StatusDeadLettered"
    "xq_Delivered q \<longleftrightarrow> es_CurrentStatus status = ''DELIVERED''"
    using assms by (auto simp: explainSnapshot_def history_eq Let_def StatusDelivered_def
        split: option.splits if_splits dest!: mapExplainStatus_Some)
  have m: "is_marker = (\<lambda>h. xh_Status h \<in> {''DEAD_LETTERED'', ''REDRIVEN'', ''DELIVERED''})"
    by (simp add: is_marker_def fun_eq_iff StatusDeadLettered_def StatusRedriven_def StatusDelivered_def)
  have "hd (boundExplainHistory known) = hd known \<and> boundExplainHistory known \<noteq> []" if "\<not> length known \<le> 20"
    using bound_first [of known] that by (cases known; cases "boundExplainHistory known") auto
  moreover have short: "boundExplainHistory known = known" if "length known \<le> 20"
    using that by (simp add: boundExplainHistory_def maxExplainHistoryItems_def)
  ultimately have history: "if length known \<le> 20 then xq_StatusHistory q = known
      else length (xq_StatusHistory q) \<le> 20 \<and> subseq (xq_StatusHistory q) known \<and>
        hd (xq_StatusHistory q) = hd known \<and> xq_StatusHistory q \<noteq> [] \<and>
        (length (filter is_marker known) < 19 \<longrightarrow> filter is_marker (xq_StatusHistory q) = filter is_marker known)"
    using boundExplainHistory_keeps [of known] short unfolding q(1) by simp
  have contains: "statusHistoryContains hist StatusDeadLettered \<longleftrightarrow> ''DEAD_LETTERED'' \<in> sh_Status ` set hist"
    by (auto simp: statusHistoryContains_def list_ex_iff image_iff StatusDeadLettered_def) (metis)
  show ?thesis using history unfolding m q(2-6) contains
    by (intro conjI) (simp_all add: attempts_eq retryCount_eq countStatus_def StatusRedriven_def)
qed

definition example_status :: EventStatus where
  "example_status =
     \<lparr>es_Event = \<lparr>em_EventID = ''e1'', em_EventType = ''t'', em_Source = ''s'', em_Payload = ''{}'', em_CreatedAt = 0\<rparr>,
      es_CurrentStatus = StatusStored,
      es_History = [\<lparr>sh_Status = StatusStored, sh_Details = ''{}'', sh_CreatedAt = 0\<rparr>],
      es_DeliveryAttempts = []\<rparr>"

definition failed_status :: EventStatus where
  "failed_status = example_status\<lparr>es_CurrentStatus := StatusRetrying,
     es_History := [\<lparr>sh_Status = StatusStored, sh_Details = ''{}'', sh_CreatedAt = 0\<rparr>,
       \<lparr>sh_Status = StatusRetrying, sh_Details = marshal (JObj [(''next_retry'', JNum ''3'')]), sh_CreatedAt = 1\<rparr>],
     es_DeliveryAttempts := [\<lparr>da_AttemptNumber = 1, da_Outcome = DeliveryOutcomeFailed, da_ResponseCode = Some 401,
       da_Error = Some ''Bad Token'', da_StartedAt = 0, da_CompletedAt = 1\<rparr>]\<rparr>"

lemma failed_snapshot:
  "\<exists>q. explainSnapshot plain_lib failed_status None = Inr q \<and> xq_DeliveryAttempts q =
     boundExplainAttempts (explainDeliveryAttemptsFromStore (es_DeliveryAttempts failed_status))"
proof -
  have "mapExplainStatus (es_CurrentStatus failed_status) = Some StatusRetrying"
    "explainStatusHistoryFromStore (es_History failed_status) \<noteq> []"
    by (simp_all add: failed_status_def mapExplainStatus_def history_eq explained_statuses_def StatusStored_def)
  then show ?thesis by (simp add: explainSnapshot_def Let_def)
qed

theorem explain_errors_safe_witness:
  "case explainSnapshot plain_lib failed_status None of
     Inl e \<Rightarrow> False
   | Inr q \<Rightarrow> length (xq_DeliveryAttempts q) = 1 \<and>
       xa_Error (hd (xq_DeliveryAttempts q)) \<in> {None, Some ''Required destination field was missing'',
           Some ''Destination delivery failed before a safe HTTP response was recorded'',
           Some ''Destination rejected the request with an authentication or authorization error''}"
proof -
  obtain q where q: "explainSnapshot plain_lib failed_status None = Inr q"
    "xq_DeliveryAttempts q = boundExplainAttempts (explainDeliveryAttemptsFromStore (es_DeliveryAttempts failed_status))"
    using failed_snapshot by blast
  have "map xa_AttemptNumber (xq_DeliveryAttempts q) = [1]"
    unfolding q(2) attempts_eq by (simp add: failed_status_def upt_rec)
  then obtain a where a: "xq_DeliveryAttempts q = [a]" "xa_AttemptNumber a = 1" by auto
  have e: "da_Error (es_DeliveryAttempts failed_status ! 0) = Some ''Bad Token''"
    by (simp add: failed_status_def)
  have "contains (ToLower (TrimSpace ''Bad Token'')) ''token''" by code_simp
  then show ?thesis using explain_errors_safe [OF q(1), of a] q(1) a by (simp add: e)
qed

theorem explain_snapshot_exact_witness:
  "case explainSnapshot plain_lib failed_status None of
     Inl e \<Rightarrow> False
   | Inr q \<Rightarrow> xq_RetryCount q = 3 \<and> xq_RedriveCount q = 0 \<and> \<not> xq_EnteredDLQ q \<and>
       map xa_HTTPStatus (xq_DeliveryAttempts q) = [Some 401]"
proof -
  obtain q where q: "explainSnapshot plain_lib failed_status None = Inr q" using failed_snapshot by blast
  have "retry_numbers (es_History failed_status) = [3]" by code_simp
  moreover have "length (filter (\<lambda>h. sh_Status h = ''REDRIVEN'') (es_History failed_status)) = 0"
    "''DEAD_LETTERED'' \<notin> sh_Status ` set (es_History failed_status)"
    "map da_ResponseCode (drop (length (es_DeliveryAttempts failed_status) - 20) (es_DeliveryAttempts failed_status)) =
      [Some 401]" by code_simp+
  ultimately show ?thesis using explain_snapshot_exact [OF q refl refl refl] q by simp
qed

section \<open>The answer\<close>

lemma Explain_complete:
  assumes "Explain lib urlError order c q w = (Inr x, w')" "\<And>fs. set (order fs) = set fs"
  shows "complete_explanation x"
proof -
  have "validateExplainResponse order x = None"
    using assms(1) by (auto simp: Explain_def Let_def split: option.splits prod.splits sum.splits if_splits)
  then show ?thesis using validateExplainResponse_iff [of order x] assms(2) by simp
qed


definition example_reader :: "unit EventExplainReader" where
  "example_reader = \<lparr>er_EventStatus = (\<lambda>i w. (Inr example_status, w)),
     er_DLQDetail = (\<lambda>i w. (Inl ErrDLQNotFound, w))\<rparr>"

definition example_explain_request :: Request where
  "example_explain_request =
     \<lparr>req_Method = ''POST'', req_Path = ''/events/11111111-1111-4111-8111-111111111111/explain'',
      req_Query = [], req_Header = [], req_Body = [], req_BodyError = None\<rparr>"


end
