(* ===== verification/Replay_Handler.thy ===== *)
theory Replay_Handler
  imports Event_Handler
begin

text \<open>
  The replay of stored events, \<open>cmd/api/replay_handler.go\<close>: one page of the events of a time range
  is published again, in the order of \<open>(created_at, id)\<close>, and a cursor says where the next page
  begins. The query and the publisher are arguments; \<open>replayQuery\<close> is the query on the tables.

  \<open>replay_pages\<close> follows the cursors: the pages publish every matching event once and in order
  (\<open>replay_covers_range\<close>).
\<close>

section \<open>Data\<close>

record ReplayCursor =
  cu_CreatedAt :: bytes
  cu_EventID :: bytes

record ReplayRequest =
  rp_From :: bytes
  rp_To :: bytes
  rp_Source :: bytes
  rp_EventType :: bytes
  rp_Limit :: int
  rp_Cursor :: "ReplayCursor option"

record ReplayResponse =
  ry_Published :: int
  ry_HasMore :: bool
  ry_NextCursor :: "ReplayCursor option"

text \<open>A row of the result, and the rows that arrive with the error after them.\<close>

record replayRow =
  rw_id :: bytes
  rw_eventType :: bytes
  rw_source :: bytes
  rw_payload :: bytes
  rw_createdAt :: time

type_synonym replayRows = "replayRow list \<times> error option"

text \<open>The arguments of the query: an empty source or event type is no condition.\<close>

record replayArgs =
  qa_from :: time
  qa_to :: time
  qa_source :: bytes
  qa_eventType :: bytes
  qa_cursor :: "(time \<times> bytes) option"
  qa_limit :: int

type_synonym 'w replayQueryFunc = "replayArgs \<Rightarrow> 'w \<Rightarrow> (error + replayRows) \<times> 'w"
type_synonym 'w replayPublishFunc = "fields \<Rightarrow> 'w \<Rightarrow> (error + bytes) \<times> 'w"

section \<open>The query\<close>

definition replayKey :: "event_row \<Rightarrow> int \<times> bytes" where
  "replayKey e = (ev_created_at e, ev_id e)"

definition replayMatches :: "replayArgs \<Rightarrow> event_row \<Rightarrow> bool" where
  "replayMatches a e \<longleftrightarrow>
     to_pg (qa_from a) \<le> ev_created_at e \<and> ev_created_at e \<le> to_pg (qa_to a) \<and>
     (qa_source a \<noteq> [] \<longrightarrow> ev_source e = qa_source a) \<and>
     (qa_eventType a \<noteq> [] \<longrightarrow> ev_event_type e = qa_eventType a)"

definition afterCursor :: "(int \<times> bytes) option \<Rightarrow> event_row \<Rightarrow> bool" where
  "afterCursor c e \<longleftrightarrow>
     (case c of
        None \<Rightarrow> True
      | Some (t, u) \<Rightarrow> t < ev_created_at e \<or> ev_created_at e = t \<and> u < ev_id e)"

definition replayRow_of :: "event_row \<Rightarrow> replayRow" where
  "replayRow_of e = \<lparr>rw_id = ev_id e, rw_eventType = ev_event_type e, rw_source = ev_source e,
     rw_payload = ev_payload e, rw_createdAt = of_pg (ev_created_at e)\<rparr>"

definition selectReplay :: "replayArgs \<Rightarrow> (int \<times> bytes) option \<Rightarrow> db \<Rightarrow> event_row list" where
  "selectReplay a c d =
     take (nat (qa_limit a))
       (sort_key replayKey (filter (\<lambda>e. replayMatches a e \<and> afterCursor c e) (events d)))"

text \<open>The text of the cursor's identifier is cast to a \<open>uuid\<close>.\<close>

definition castCursor :: "pg \<Rightarrow> (time \<times> bytes) option \<Rightarrow> error + (int \<times> bytes) option" where
  "castCursor p c =
     (case c of
        None \<Rightarrow> Inr None
      | Some (t, i) \<Rightarrow> (case cast_uuid p i of Inl e \<Rightarrow> Inl e | Inr u \<Rightarrow> Inr (Some (to_pg t, u))))"

definition replayQuery :: "pg \<Rightarrow> replayArgs \<Rightarrow> db \<Rightarrow> error + replayRows" where
  "replayQuery p a d =
     (case guard p SelectReplay (castCursor p (qa_cursor a)) of
        Inl e \<Rightarrow> Inl e
      | Inr c \<Rightarrow>
          let rows = map replayRow_of (selectReplay a c d) in
          (case pg_fault p ReadReplay of
             None \<Rightarrow> Inr (rows, None)
           | Some e \<Rightarrow> Inr (take (pg_rows p) rows, Some e)))"

section \<open>The handler\<close>

definition decodeCursor :: "ReplayCursor \<Rightarrow> (bytes \<times> json) list \<Rightarrow> ReplayCursor option" where
  "decodeCursor c kvs = do {
     t \<leftarrow> upd_string ''created_at'' (cu_CreatedAt c) kvs;
     i \<leftarrow> upd_string ''event_id'' (cu_EventID c) kvs;
     Some \<lparr>cu_CreatedAt = t, cu_EventID = i\<rparr> }"

text \<open>The pointer to the cursor: \<open>null\<close> sets it to nil, an object fills the cursor that is there.\<close>

definition put_cursor_ptr :: "ReplayCursor option \<Rightarrow> json \<Rightarrow> ReplayCursor option option" where
  "put_cursor_ptr acc v =
     (case v of
        JNull \<Rightarrow> Some None
      | JObj kvs \<Rightarrow>
          map_option Some (decodeCursor
            (case acc of None \<Rightarrow> \<lparr>cu_CreatedAt = [], cu_EventID = []\<rparr> | Some c \<Rightarrow> c) kvs)
      | _ \<Rightarrow> None)"

definition decodeReplayRequest :: "(bytes \<times> json \<times> bytes) list \<Rightarrow> ReplayRequest option" where
  "decodeReplayRequest ms =
     (let kvs = plain_members ms in do {
      from \<leftarrow> get_string ''from'' kvs;
      to \<leftarrow> get_string ''to'' kvs;
      source \<leftarrow> get_string ''source'' kvs;
      eventType \<leftarrow> get_string ''event_type'' kvs;
      limit \<leftarrow> get_int ''limit'' kvs;
      cursor \<leftarrow> fold_field put_cursor_ptr None (field_values ''cursor'' kvs);
      Some \<lparr>rp_From = from, rp_To = to, rp_Source = source, rp_EventType = eventType,
            rp_Limit = limit, rp_Cursor = cursor\<rparr> })"

definition cursor_json :: "ReplayCursor \<Rightarrow> json" where
  "cursor_json c = JObj [(''created_at'', JStr (cu_CreatedAt c)), (''event_id'', JStr (cu_EventID c))]"

definition replayResponse_json :: "ReplayResponse \<Rightarrow> json" where
  "replayResponse_json r = JObj
     ([(''published'', JInt (ry_Published r)), (''has_more'', JBool (ry_HasMore r))] @
      (case ry_NextCursor r of None \<Rightarrow> [] | Some c \<Rightarrow> [(''next_cursor'', cursor_json c)]))"

definition replayLimit :: "int \<Rightarrow> int" where
  "replayLimit given =
     (let limit = (if given \<le> 0 then 1000 else given) in if 5000 < limit then 5000 else limit)"

text \<open>The checks of a decoded request: the arguments of the query or the message of a 400 answer.\<close>

definition replayArgs_of :: "ReplayRequest \<Rightarrow> bytes + replayArgs" where
  "replayArgs_of req =
     (if rp_From req = [] \<or> rp_To req = [] then Inl ''from and to are required (RFC3339)''
      else
        let blankCursor = (case rp_Cursor req of
              None \<Rightarrow> False
            | Some c \<Rightarrow> TrimSpace (cu_CreatedAt c) = [] \<or> TrimSpace (cu_EventID c) = [])
        in
        if blankCursor then Inl ''cursor created_at and event_id are required together''
        else
          case ParseRFC3339 (rp_From req) of None \<Rightarrow> Inl ''from must be RFC3339'' | Some fromT \<Rightarrow>
          case ParseRFC3339 (rp_To req) of None \<Rightarrow> Inl ''to must be RFC3339'' | Some toT \<Rightarrow>
          let args = \<lparr>qa_from = fromT, qa_to = toT, qa_source = rp_Source req,
                qa_eventType = rp_EventType req, qa_cursor = None,
                qa_limit = replayLimit (rp_Limit req) + 1\<rparr>
          in
          case rp_Cursor req of
            None \<Rightarrow> Inr args
          | Some c \<Rightarrow>
              (case ParseRFC3339 (cu_CreatedAt c) of
                 None \<Rightarrow> Inl ''cursor created_at must be RFC3339''
               | Some t \<Rightarrow> Inr (args\<lparr>qa_cursor := Some (t, cu_EventID c)\<rparr>)))"

definition replayValues :: "replayRow \<Rightarrow> fields" where
  "replayValues row = str_fields
     [(''event_id'', rw_id row), (''event_type'', rw_eventType row), (''source'', rw_source row),
      (''payload'', rw_payload row), (''retry'', ''0''),
      (''created_at'', RFC3339 (rw_createdAt row)), (''replay'', ''1'')]"

definition rowCursor :: "replayRow \<Rightarrow> ReplayCursor" where
  "rowCursor row = \<lparr>cu_CreatedAt = RFC3339Nano (rw_createdAt row), cu_EventID = rw_id row\<rparr>"

text \<open>The loop over the rows: the number published, whether a row was left, the cursor; \<open>None\<close> when a
  publication fails.\<close>

fun replayLoop ::
    "'w replayPublishFunc \<Rightarrow> int \<Rightarrow> replayRow list \<Rightarrow> int \<Rightarrow> ReplayCursor option \<Rightarrow> 'w \<Rightarrow>
     (int \<times> bool \<times> ReplayCursor option) option \<times> 'w" where
  "replayLoop publish limit [] published cursor w = (Some (published, False, cursor), w)"
| "replayLoop publish limit (row # rows) published cursor w =
     (if limit \<le> published then (Some (published, True, cursor), w)
      else
        case publish (replayValues row) w of
          (Inl e, w1) \<Rightarrow> (None, w1)
        | (Inr _, w1) \<Rightarrow> replayLoop publish limit rows (published + 1) (Some (rowCursor row)) w1)"

text \<open>A decoded request: an error answer or the result.\<close>

definition replayEvents ::
    "'w replayQueryFunc \<Rightarrow> 'w replayPublishFunc \<Rightarrow> ReplayRequest \<Rightarrow> 'w \<Rightarrow> (Response + ReplayResponse) \<times> 'w" where
  "replayEvents queryEvents publish req w =
     (case replayArgs_of req of
        Inl msg \<Rightarrow> (Inl (http_Error msg 400), w)
      | Inr args \<Rightarrow>
      case queryEvents args w of
        (Inl e, w1) \<Rightarrow> (Inl (http_Error ''failed to query events'' 500), w1)
      | (Inr (rows, readErr), w1) \<Rightarrow>
      case replayLoop publish (replayLimit (rp_Limit req)) rows 0 None w1 of
        (None, w2) \<Rightarrow> (Inl (http_Error ''failed to publish replay event'' 503), w2)
      | (Some (published, hasMore, cursor), w2) \<Rightarrow>
          if \<not> hasMore \<and> readErr \<noteq> None then (Inl (http_Error ''failed to read events'' 500), w2)
          else
            (Inr \<lparr>ry_Published = published, ry_HasMore = hasMore,
                  ry_NextCursor = (if hasMore then cursor else None)\<rparr>, w2))"

definition newReplayHandler ::
    "golib \<Rightarrow> 'w replayQueryFunc \<Rightarrow> 'w replayPublishFunc \<Rightarrow> 'w handler" where
  "newReplayHandler lib queryEvents publish r w =
     (if req_Method r \<noteq> ''POST'' then (status_only 405, w)
      else
        case DecodeJSONRequest lib r decodeReplayRequest of
          Inl err \<Rightarrow>
            (if IsRequestBodyTooLarge err then http_Error ''request body too large'' 413
             else http_Error ''invalid JSON body'' 400, w)
        | Inr req \<Rightarrow>
        case replayEvents queryEvents publish req w of
          (Inl rsp, w1) \<Rightarrow> (rsp, w1)
        | (Inr result, w1) \<Rightarrow> (json_response 200 (Some (replayResponse_json result)), w1))"

section \<open>Pages\<close>

text \<open>A publisher with the list of what it accepted, and a client that follows the cursors: whether
  it came to the last page.\<close>

definition observedReplay :: "'w replayPublishFunc \<Rightarrow> ('w \<times> fields list) replayPublishFunc" where
  "observedReplay pub values s =
     (case s of (w, log) \<Rightarrow>
        (case pub values w of
           (Inr i, w1) \<Rightarrow> (Inr i, (w1, log @ [values]))
         | (Inl e, w1) \<Rightarrow> (Inl e, (w1, log))))"

fun replay_pages ::
    "nat \<Rightarrow> 'w replayQueryFunc \<Rightarrow> 'w replayPublishFunc \<Rightarrow> ReplayRequest \<Rightarrow> 'w \<Rightarrow> bool \<times> 'w" where
  "replay_pages 0 query pub req w = (False, w)"
| "replay_pages (Suc n) query pub req w =
     (case replayEvents query pub req w of
        (Inl rsp, w1) \<Rightarrow> (False, w1)
      | (Inr r, w1) \<Rightarrow>
          if ry_HasMore r then replay_pages n query pub (req\<lparr>rp_Cursor := ry_NextCursor r\<rparr>) w1
          else (True, w1))"

text \<open>The events of a range in the order of the replay.\<close>

definition replayRange :: "replayArgs \<Rightarrow> db \<Rightarrow> event_row list" where
  "replayRange a d = sort_key replayKey (filter (replayMatches a) (events d))"

definition accepts :: "'w replayPublishFunc \<Rightarrow> bool" where
  "accepts pub \<longleftrightarrow> (\<forall>v w. \<exists>i w1. pub v w = (Inr i, w1))"

lemma replayLoop_accepting:
  assumes "accepts pub" "0 \<le> n" "n \<le> limit"
  shows "\<exists>w'. replayLoop (observedReplay pub) limit rows n cur (w, log) =
    (Some (n + int (length (take (nat (limit - n)) rows)), nat (limit - n) < length rows,
       (if take (nat (limit - n)) rows = [] then cur else Some (rowCursor (last (take (nat (limit - n)) rows))))),
     (w', log @ map replayValues (take (nat (limit - n)) rows)))"
  using assms(2,3)
proof (induction rows arbitrary: n cur w log)
  case (Cons row rows)
  obtain i w1 where pub: "pub (replayValues row) w = (Inr i, w1)" using assms(1) unfolding accepts_def by blast
  then have obs: "observedReplay pub (replayValues row) (w, log) = (Inr i, (w1, log @ [replayValues row]))"
    by (simp add: observedReplay_def)
  show ?case
  proof (cases "limit \<le> n")
    case False
    then have "nat (limit - n) = Suc (nat (limit - (n + 1)))" using Cons.prems by simp
    moreover obtain w' where "replayLoop (observedReplay pub) limit rows (n + 1) (Some (rowCursor row))
        (w1, log @ [replayValues row]) =
      (Some (n + 1 + int (length (take (nat (limit - (n + 1))) rows)), nat (limit - (n + 1)) < length rows,
         (if take (nat (limit - (n + 1))) rows = [] then Some (rowCursor row)
          else Some (rowCursor (last (take (nat (limit - (n + 1))) rows))))),
       (w', (log @ [replayValues row]) @ map replayValues (take (nat (limit - (n + 1))) rows)))"
      using Cons.IH [of "n + 1"] Cons.prems False by fastforce
    ultimately show ?thesis using False obs by auto
  qed simp
qed simp

lemma replayLimit_range: "1 \<le> replayLimit n" "replayLimit n \<le> 5000"
  by (auto simp: replayLimit_def)

lemma afterCursor_key: "afterCursor (Some k) = (\<lambda>e. k < replayKey e)"
  by (cases k) (auto simp: afterCursor_def replayKey_def fun_eq_iff)

lemma replayMatches_cursor [simp]: "replayMatches (a\<lparr>qa_cursor := c\<rparr>) = replayMatches a"
  by (simp add: replayMatches_def fun_eq_iff)

lemma no_cursor: "rp_Cursor req = None \<Longrightarrow> req\<lparr>rp_Cursor := None\<rparr> = req"
  by (cases req) simp

lemma filter_after_nth:
  fixes k :: "'a \<Rightarrow> 'b :: linorder"
  assumes "sorted_wrt (\<lambda>a b. k a < k b) xs" "m < length xs"
  shows "filter (\<lambda>x. k (xs ! m) < k x) xs = drop (Suc m) xs"
proof -
  have "xs = take (Suc m) xs @ drop (Suc m) xs" by simp
  moreover have "filter (\<lambda>x. k (xs ! m) < k x) (take (Suc m) xs) = []"
  proof (rule filter_False, intro ballI)
    fix x assume "x \<in> set (take (Suc m) xs)"
    then obtain i where i: "i \<le> m" "x = xs ! i" by (auto simp: in_set_conv_nth less_Suc_eq_le)
    show "\<not> k (xs ! m) < k x"
    proof (cases "i = m")
      case False
      then have "k (xs ! i) < k (xs ! m)" using assms i by (auto simp: sorted_wrt_iff_nth_less)
      then show ?thesis using i by auto
    qed (use i in auto)
  qed
  moreover have "filter (\<lambda>x. k (xs ! m) < k x) (drop (Suc m) xs) = drop (Suc m) xs"
    using assms by (intro filter_True ballI) (auto simp: in_set_conv_nth sorted_wrt_iff_nth_less)
  ultimately show ?thesis by (metis append_Nil filter_append)
qed

lemma replayRange_sorted:
  assumes "schema_ok u d"
  shows "sorted_wrt (\<lambda>a b. replayKey a < replayKey b) (replayRange a d)"
proof -
  have "distinct (map ev_id (events d))" using assms by (simp add: schema_defs)
  then have "inj_on ev_id (set (events d))" "distinct (events d)" by (auto simp: distinct_map)
  then have "distinct (replayRange a d)" "inj_on replayKey (set (replayRange a d))"
    by (auto simp: replayRange_def inj_on_def replayKey_def)
  then have "distinct (map replayKey (replayRange a d))" by (simp add: distinct_map)
  moreover have "sorted (map replayKey (replayRange a d))" by (simp add: replayRange_def)
  ultimately have "sorted_wrt (<) (map replayKey (replayRange a d))" by (simp add: strict_sorted_iff)
  then show ?thesis by (simp add: sorted_wrt_map)
qed

text \<open>The events after a cursor are the rest of the range.\<close>

lemma selectReplay_range:
  "selectReplay a c d = take (nat (qa_limit a)) (filter (afterCursor c) (replayRange a d))"
proof -
  have "filter (\<lambda>e. replayMatches a e \<and> afterCursor c e) (events d) =
      filter (afterCursor c) (filter (replayMatches a) (events d))"
    by (simp add: conj_commute)
  then show ?thesis by (simp add: selectReplay_def replayRange_def filter_sort)
qed

text \<open>The cursor at a position of the range, as the handler makes it and as the query reads it.\<close>

definition cursor_at :: "event_row list \<Rightarrow> nat \<Rightarrow> ReplayCursor option" where
  "cursor_at es m = (if m = 0 then None else Some (rowCursor (replayRow_of (es ! (m - 1)))))"

lemma selectReplay_at:
  assumes "schema_ok u d" "m \<le> length (replayRange a d)"
  shows "selectReplay a (if m = 0 then None else Some (replayKey (replayRange a d ! (m - 1)))) d =
    take (nat (qa_limit a)) (drop m (replayRange a d))"
proof (cases m)
  case 0
  then show ?thesis by (simp add: selectReplay_range afterCursor_def)
next
  case (Suc k)
  then have "filter (\<lambda>e. replayKey (replayRange a d ! k) < replayKey e) (replayRange a d) = drop m (replayRange a d)"
    using filter_after_nth [OF replayRange_sorted [OF assms(1)], of k] assms(2) by simp
  then show ?thesis using Suc by (simp add: selectReplay_range afterCursor_key)
qed

text \<open>What the tables must have for a cursor to survive its text: identifiers are not blank and
  the times of the events are read back as they were printed.\<close>

definition cursors_ok :: "db \<Rightarrow> bool" where
  "cursors_ok d \<longleftrightarrow> list_all (\<lambda>e. TrimSpace (ev_id e) \<noteq> [] \<and>
     TrimSpace (RFC3339Nano (of_pg (ev_created_at e))) \<noteq> [] \<and>
     ParseRFC3339 (RFC3339Nano (of_pg (ev_created_at e))) = Some (of_pg (ev_created_at e))) (events d)"

lemma replayQuery_at:
  assumes "schema_ok u d" "pg_uuid p = u" "no_faults p" "cursors_ok d" "rp_Cursor req = None"
    "replayArgs_of req = Inr a" "m \<le> length (replayRange a d)"
  shows "\<exists>a'. replayArgs_of (req\<lparr>rp_Cursor := cursor_at (replayRange a d) m\<rparr>) = Inr a' \<and>
    replayQuery p a' d = Inr (map replayRow_of (take (nat (qa_limit a)) (drop m (replayRange a d))), None)"
proof -
  let ?R = "replayRange a d"
  have c0: "qa_cursor a = None" using assms(5,6)
    by (auto simp: replayArgs_of_def Let_def split: if_splits option.splits)
  have R: "replayRange (a\<lparr>qa_cursor := c\<rparr>) d = ?R" "qa_limit (a\<lparr>qa_cursor := c\<rparr>) = qa_limit a" for c
    by (simp_all add: replayRange_def)
  show ?thesis
  proof (cases "m = 0")
    case True
    then have "replayQuery p a d = Inr (map replayRow_of (take (nat (qa_limit a)) (drop m ?R)), None)"
      using selectReplay_at [OF assms(1,7)] assms(3) c0
      by (simp add: replayQuery_def castCursor_def guard_def no_faults_def)
    moreover have "req\<lparr>rp_Cursor := None\<rparr> = req" using assms(5) by (rule no_cursor)
    ultimately show ?thesis using True assms(6) by (auto simp: cursor_at_def)
  next
    case False
    let ?e = "?R ! (m - 1)"
    have "?e \<in> set ?R" using False assms(7) by (intro nth_mem) auto
    then have e: "?e \<in> set (events d)" by (auto simp: replayRange_def)
    then have ok: "TrimSpace (ev_id ?e) \<noteq> []" "TrimSpace (RFC3339Nano (of_pg (ev_created_at ?e))) \<noteq> []"
      "ParseRFC3339 (RFC3339Nano (of_pg (ev_created_at ?e))) = Some (of_pg (ev_created_at ?e))"
      using assms(4) by (auto simp: cursors_ok_def list_all_iff)
    let ?a = "a\<lparr>qa_cursor := Some (of_pg (ev_created_at ?e), ev_id ?e)\<rparr>"
    have "replayArgs_of (req\<lparr>rp_Cursor := cursor_at ?R m\<rparr>) = Inr ?a"
      using assms(5,6) ok False
      by (auto simp: replayArgs_of_def cursor_at_def rowCursor_def replayRow_of_def Let_def
          split: if_splits option.splits)
    moreover have "pg_uuid p (ev_id ?e) = Some (ev_id ?e)"
      using assms(1,2) e by (auto simp: schema_defs)
    then have "replayQuery p ?a d = Inr (map replayRow_of (take (nat (qa_limit a)) (drop m ?R)), None)"
      using selectReplay_at [of u d m ?a] assms(1,3,7) R False
      by (simp add: replayQuery_def castCursor_def guard_def no_faults_def cast_uuid_def replayKey_def)
    ultimately show ?thesis by blast
  qed
qed

lemma replay_page:
  assumes "schema_ok u d" "pg_uuid p = u" "no_faults p" "cursors_ok d" "rp_Cursor req = None"
    "replayArgs_of req = Inr a" "m \<le> length (replayRange a d)" "accepts pub"
    and "L = nat (replayLimit (rp_Limit req))"
  shows "\<exists>w' pub'. replayEvents (\<lambda>a w. (replayQuery p a d, w)) (observedReplay pub)
      (req\<lparr>rp_Cursor := cursor_at (replayRange a d) m\<rparr>) (w, log) =
    (Inr \<lparr>ry_Published = pub', ry_HasMore = (m + L < length (replayRange a d)),
          ry_NextCursor = (if m + L < length (replayRange a d) then cursor_at (replayRange a d) (m + L) else None)\<rparr>,
     (w', log @ map (\<lambda>e. replayValues (replayRow_of e)) (take L (drop m (replayRange a d)))))"
proof -
  let ?R = "replayRange a d" and ?l = "replayLimit (rp_Limit req)"
  have q: "qa_limit a = ?l + 1" using assms(5,6)
    by (auto simp: replayArgs_of_def Let_def split: if_splits option.splits)
  have L: "0 < L" "nat (?l + 1) = Suc L" using replayLimit_range [of "rp_Limit req"] assms(9) by auto
  obtain a' where a': "replayArgs_of (req\<lparr>rp_Cursor := cursor_at ?R m\<rparr>) = Inr a'"
    "replayQuery p a' d = Inr (map replayRow_of (take (Suc L) (drop m ?R)), None)"
    using replayQuery_at [OF assms(1-7)] q L(2) by auto
  let ?rows = "map replayRow_of (take (Suc L) (drop m ?R))"
  have lim: "nat (?l - 0) = L" using assms(9) by simp
  obtain w' where loop: "replayLoop (observedReplay pub) ?l ?rows 0 None (w, log) =
      (Some (0 + int (length (take L ?rows)), L < length ?rows,
         (if take L ?rows = [] then None else Some (rowCursor (last (take L ?rows))))),
       (w', log @ map replayValues (take L ?rows)))"
    using replayLoop_accepting [OF assms(8), of 0 ?l ?rows None w log] lim
      replayLimit_range [of "rp_Limit req"] by auto
  have more: "L < length ?rows \<longleftrightarrow> m + L < length ?R" by auto
  have "Some (rowCursor (last (take L ?rows))) = cursor_at ?R (m + L)" if "m + L < length ?R"
    using that L(1) by (simp add: cursor_at_def last_conv_nth take_map min_def nth_append)
  moreover have "take L ?rows \<noteq> []" if "m + L < length ?R" using that L(1) by (cases ?R) auto
  moreover have "take L ?rows = map replayRow_of (take L (drop m ?R))" by (simp add: take_map min_def)
  ultimately show ?thesis using a' loop more
    by (auto simp: replayEvents_def comp_def)
qed

lemma replay_pages_from:
  assumes "schema_ok u d" "pg_uuid p = u" "no_faults p" "cursors_ok d" "rp_Cursor req = None"
    "replayArgs_of req = Inr a" "m \<le> length (replayRange a d)" "accepts pub"
    "length (replayRange a d) < m + n"
  shows "\<exists>w'. replay_pages n (\<lambda>a w. (replayQuery p a d, w)) (observedReplay pub)
      (req\<lparr>rp_Cursor := cursor_at (replayRange a d) m\<rparr>) (w, log) =
    (True, (w', log @ map (\<lambda>e. replayValues (replayRow_of e)) (drop m (replayRange a d))))"
  using assms(7,9)
proof (induction n arbitrary: m w log)
  case (Suc n)
  let ?R = "replayRange a d" and ?L = "nat (replayLimit (rp_Limit req))"
  have L: "1 \<le> ?L" using replayLimit_range [of "rp_Limit req"] by auto
  obtain w1 k where page: "replayEvents (\<lambda>a w. (replayQuery p a d, w)) (observedReplay pub)
      (req\<lparr>rp_Cursor := cursor_at ?R m\<rparr>) (w, log) =
    (Inr \<lparr>ry_Published = k, ry_HasMore = (m + ?L < length ?R),
          ry_NextCursor = (if m + ?L < length ?R then cursor_at ?R (m + ?L) else None)\<rparr>,
     (w1, log @ map (\<lambda>e. replayValues (replayRow_of e)) (take ?L (drop m ?R))))"
    using replay_page [OF assms(1-6) Suc.prems(1) assms(8) refl] by blast
  show ?case
  proof (cases "m + ?L < length ?R")
    case True
    obtain w' where "replay_pages n (\<lambda>a w. (replayQuery p a d, w)) (observedReplay pub)
        (req\<lparr>rp_Cursor := cursor_at ?R (m + ?L)\<rparr>)
        (w1, log @ map (\<lambda>e. replayValues (replayRow_of e)) (take ?L (drop m ?R))) =
      (True, (w', (log @ map (\<lambda>e. replayValues (replayRow_of e)) (take ?L (drop m ?R))) @
         map (\<lambda>e. replayValues (replayRow_of e)) (drop (m + ?L) ?R)))"
      using Suc.IH [of "m + ?L" w1] True Suc.prems(2) L by fastforce
    moreover have "take ?L (drop m ?R) @ drop (m + ?L) ?R = drop m ?R"
      by (metis add.commute append_take_drop_id drop_drop)
    ultimately show ?thesis using page True
      by (simp flip: map_append append_assoc) (metis append.assoc map_append)
  next
    case False
    then show ?thesis using page by simp
  qed
qed simp

section \<open>Properties\<close>

text \<open>
  C17: A replay over several pages covers its range. While the tables stay as they are, on a server that
  does not fail and with a broker that accepts, following the cursors from the first page
  comes to a last page, and the messages published on the way are those of exactly the
  events of the range that match the filters, each once, in the order of creation time and
  identifier.
\<close>

theorem replay_covers_range:
  assumes "schema_ok u d" "pg_uuid p = u" "no_faults p" "cursors_ok d" "accepts pub"
    and "rp_Cursor req = None" "replayArgs_of req = Inr a" "length (events d) < n"
    and "replay_pages n (\<lambda>a w. (replayQuery p a d, w)) (observedReplay pub) req (w, []) = (finished, w', log)"
  shows "finished \<and> log = map (\<lambda>e. replayValues (replayRow_of e)) (replayRange a d) \<and>
    set (replayRange a d) = {e \<in> set (events d). replayMatches a e} \<and> distinct (replayRange a d) \<and>
    sorted (map replayKey (replayRange a d))"
proof -
  have "length (replayRange a d) \<le> length (events d)" by (simp add: replayRange_def)
  then have "length (replayRange a d) < 0 + n" using assms(8) by simp
  from replay_pages_from [OF assms(1-4,6,7) _ assms(5) this, of w "[]"] assms(6,9)
  have "finished \<and> log = map (\<lambda>e. replayValues (replayRow_of e)) (replayRange a d)"
    by (auto simp: cursor_at_def no_cursor)
  moreover have "distinct (replayRange a d)"
    using assms(1) by (auto simp: replayRange_def schema_defs distinct_map)
  ultimately show ?thesis by (auto simp: replayRange_def)
qed

text \<open>An example: two events on two pages.\<close>

definition replay_event :: "bytes \<Rightarrow> int \<Rightarrow> event_row" where
  "replay_event i t = \<lparr>ev_id = i, ev_event_type = ''t'', ev_source = ''s'', ev_payload = ''1'',
     ev_created_at = t, ev_idempotency_key = None, ev_request_hash = None\<rparr>"

definition replay_db :: db where
  "replay_db = empty_db\<lparr>events := [replay_event ''e1'' 0, replay_event ''e2'' 5]\<rparr>"

definition replay_request :: ReplayRequest where
  "replay_request = \<lparr>rp_From = ''1970-01-01T00:00:00Z'', rp_To = ''1970-01-01T01:00:00+00:00'',
     rp_Source = ''s'', rp_EventType = [], rp_Limit = 1, rp_Cursor = None\<rparr>"

lemma replay_digits:
  "digit 0 = CHR ''0''" "digit (Suc 0) = CHR ''1''" "digit 5 = CHR ''5''" "digit 7 = CHR ''7''"
  "digit 9 = CHR ''9''"
  by code_simp+

lemma nat_digits_steps:
  "n < 10 \<Longrightarrow> nat_digits n = [digit n]"
  "10 \<le> n \<Longrightarrow> nat_digits n = nat_digits (n div 10) @ [digit (n mod 10)]"
  by (subst nat_digits.simps, simp)+

lemma replay_pads:
  "pad 4 1970 = ''1970''" "pad 2 1 = ''01''" "pad 2 0 = ''00''" "pad 9 5000 = ''000005000''"
proof -
  have n: "nat_digits 0 = ''0''" "nat_digits (Suc 0) = ''1''" "nat_digits 1970 = ''1970''"
    "nat_digits 5000 = ''5000''"
    by (simp_all add: nat_digits_steps replay_digits)
  have r: "replicate 5 x = [x, x, x, x, x]" for x :: char by (simp add: eval_nat_numeral)
  show "pad 4 1970 = ''1970''" "pad 2 1 = ''01''" "pad 2 0 = ''00''" "pad 9 5000 = ''000005000''"
    by (simp_all add: pad_def Itoa_def n r)
qed

lemmas parse_defs = ParseRFC3339_def take_date_def take_clock_def take_num_def take_hour_def
  take_char_def take_fraction_def take_zone_def is_digit_def days_from_civil_def daysIn_def
  leap_year_def Let_def of_pg_def Second_def

lemma replay_times:
  "RFC3339Nano (of_pg 0) = ''1970-01-01T00:00:00Z''"
  "RFC3339Nano (of_pg 5) = ''1970-01-01T00:00:00.000005Z''"
  "ParseRFC3339 ''1970-01-01T00:00:00Z'' = Some (of_pg 0)"
  "ParseRFC3339 ''1970-01-01T00:00:00.000005Z'' = Some (of_pg 5)"
proof -
  have civ: "civil 0 = (1970, 1, 1)" by code_simp
  have r: "replicate 3 x = [x, x, x]" for x :: char by (simp add: numeral_3_eq_3)
  show "RFC3339Nano (of_pg 0) = ''1970-01-01T00:00:00Z''"
    "RFC3339Nano (of_pg 5) = ''1970-01-01T00:00:00.000005Z''"
    by (simp_all add: RFC3339Nano_def datetime_def Let_def fraction_def of_pg_def Second_def civ replay_pads)
  show "ParseRFC3339 ''1970-01-01T00:00:00Z'' = Some (of_pg 0)"
    "ParseRFC3339 ''1970-01-01T00:00:00.000005Z'' = Some (of_pg 5)"
    by (simp_all add: parse_defs r)
qed

lemma replay_args_ok: "isl (replayArgs_of replay_request) = False"
  by (simp add: replayArgs_of_def replay_request_def replay_times Let_def) (simp add: parse_defs)

theorem replay_covers_range_witness:
  "fst (replay_pages 3 (\<lambda>a w. (replayQuery (quiet_pg [] [] 9) a replay_db, w))
     (observedReplay (\<lambda>v w. (Inr ''1-0'', w))) replay_request ((), []))"
proof -
  have s: "schema_ok Some replay_db"
    by (simp add: schema_defs replay_db_def empty_db_def replay_event_def event_ids_def)
  have "CHR ''1'' \<notin> set (concat space_runes)" "CHR ''e'' \<notin> set (concat space_runes)" by code_simp+
  then have "TrimSpace (CHR ''1'' # x) \<noteq> []" "TrimSpace (CHR ''e'' # x) \<noteq> []" for x
    using TrimSpace_keeps [of "CHR ''1''" "CHR ''1'' # x"] TrimSpace_keeps [of "CHR ''e''" "CHR ''e'' # x"]
    by auto
  with replay_times have c: "cursors_ok replay_db" by (simp add: cursors_ok_def replay_db_def replay_event_def)
  have n: "length (events replay_db) < 3" by (simp add: replay_db_def)
  obtain a where a: "replayArgs_of replay_request = Inr a"
    using replay_args_ok by (cases "replayArgs_of replay_request") auto
  let ?q = "\<lambda>a w. (replayQuery (quiet_pg [] [] 9) a replay_db, w)"
  obtain f w' log where run: "replay_pages 3 ?q (observedReplay (\<lambda>v w. (Inr ''1-0'', w))) replay_request ((), []) =
      (f, w', log)" by (metis surj_pair)
  have "f" using replay_covers_range [OF s _ quiet_server(2) c _ _ a n run]
    by (simp add: quiet_pg_def accepts_def replay_request_def)
  with run show ?thesis by simp
qed

end
