(* ===== verification/Worker_Recording.thy ===== *)
theory Worker_Recording
  imports Delivery_Worker Event_Machine
begin

text \<open>
  The delivery worker with its recorder. The interface \<open>Recorder\<close> of the worker is the locale
  \<open>recorder_contract\<close>; its providers are the operations store and \<open>noopRecorder\<close>. The locale
  \<open>acking_worker\<close> adds the environment of the worker, in which only \<open>XACK\<close> acknowledges
  messages; its lemmas show that a message is acknowledged only after its outcome was recorded.
\<close>

section \<open>The worker in its world\<close>

text \<open>The network with Redis, the tables, the number of transactions so far and the messages
  acknowledged so far.\<close>

record 'r world =
  wd_net :: 'r
  wd_db :: db
  wd_tx :: nat
  wd_acks :: "bytes list"

definition on_net :: "('r \<Rightarrow> 'a \<times> 'r) \<Rightarrow> 'r world \<Rightarrow> 'a \<times> 'r world" where
  "on_net f w = (case f (wd_net w) of (a, n) \<Rightarrow> (a, w\<lparr>wd_net := n\<rparr>))"

definition note_ack :: "bytes \<Rightarrow> error option \<times> 'r world \<Rightarrow> error option \<times> 'r world" where
  "note_ack i r = (case r of (e, w) \<Rightarrow> (e, w\<lparr>wd_acks := wd_acks w @ [i]\<rparr>))"

definition world_redis :: "'r redis \<Rightarrow> 'r world redis" where
  "world_redis r = \<lparr>rd_xadd = (\<lambda>s vs. on_net (rd_xadd r s vs)),
     rd_xack = (\<lambda>s g i w. note_ack i (on_net (rd_xack r s g i) w)),
     rd_zadd = (\<lambda>k sc m. on_net (rd_zadd r k sc m)),
     rd_zrangebyscore = (\<lambda>k lo hi off n. on_net (rd_zrangebyscore r k lo hi off n)),
     rd_zrem = (\<lambda>k m. on_net (rd_zrem r k m)),
     rd_xautoclaim = (\<lambda>s g c t st n. on_net (rd_xautoclaim r s g c t st n)),
     rd_xreadgroup = (\<lambda>g c ss n t. on_net (rd_xreadgroup r g c ss n t)),
     rd_xgroup_create_mkstream = (\<lambda>s g st. on_net (rd_xgroup_create_mkstream r s g st))\<rparr>"

definition world_env :: "'r worker_env \<Rightarrow> 'r world worker_env" where
  "world_env e = \<lparr>en_now = on_net (en_now e), en_redis = world_redis (en_redis e),
     en_do = (\<lambda>rq. on_net (en_do e rq)), en_url_error = en_url_error e,
     en_ctx = \<lparr>ctx_err = (\<lambda>w. ctx_err (en_ctx e) (wd_net w)),
               ctx_wait = (\<lambda>t. on_net (ctx_wait (en_ctx e) t))\<rparr>,
     en_tick = on_net (en_tick e), en_lib = en_lib e\<rparr>"

text \<open>The operations store as a recorder: each call is a transaction with its own server.\<close>

definition on_db :: "(nat \<Rightarrow> pg) \<Rightarrow> (pg \<Rightarrow> db \<Rightarrow> error option \<times> db) \<Rightarrow> 'r world \<Rightarrow> error option \<times> 'r world" where
  "on_db srv f w =
     (case f (srv (wd_tx w)) (wd_db w) of
        (e, d) \<Rightarrow> (e, w\<lparr>wd_db := d, wd_tx := Suc (wd_tx w)\<rparr>))"

definition storeRecorder :: "(nat \<Rightarrow> pg) \<Rightarrow> Store \<Rightarrow> 'r world Recorder" where
  "storeRecorder srv s =
     \<lparr>rc_RecordProcessing = (\<lambda>r. on_db srv (\<lambda>p. RecordProcessing p s r)),
      rc_RecordDelivered = (\<lambda>r. on_db srv (\<lambda>p. RecordDelivered p s r)),
      rc_RecordRetrying = (\<lambda>r. on_db srv (\<lambda>p. RecordRetrying p s r)),
      rc_RecordDeadLettered = (\<lambda>r. on_db srv (\<lambda>p. RecordDeadLettered p s r))\<rparr>"

text \<open>The outcome of the message with this stream id is in the status history: some transaction of the
  run added an entry whose details, as its server stores them, name the stream id.\<close>

definition outcome_recorded :: "(nat \<Rightarrow> pg) \<Rightarrow> db \<Rightarrow> bytes \<Rightarrow> bool" where
  "outcome_recorded srv d i \<longleftrightarrow>
     (\<exists>h \<in> set (history d). h_status h \<in> {StatusDelivered, StatusRetrying, StatusDeadLettered} \<and>
        (\<exists>n fs. h_created_at h = pg_now (srv n) \<and> h_details h = pg_jsonb (srv n) (marshalDetails (Some fs)) \<and>
           map_of fs ''stream_id'' = Some (JStr i)))"

text \<open>The state is as it should be and every acknowledged message is settled.\<close>

definition all_settled ::
    "('w \<Rightarrow> bool) \<Rightarrow> ('w \<Rightarrow> bytes \<Rightarrow> bool) \<Rightarrow> ('w \<Rightarrow> bytes set) \<Rightarrow> 'w \<Rightarrow> bool" where
  "all_settled good settled acks w \<longleftrightarrow> good w \<and> (\<forall>i \<in> acks w. settled w i)"

section \<open>The contract of a recorder\<close>

locale recorder_contract =
  fixes good :: "'w \<Rightarrow> bool" and rec :: "'w Recorder" and settled :: "'w \<Rightarrow> bytes \<Rightarrow> bool"
  assumes rec_inv: "good w \<Longrightarrow> good (snd (rc_RecordProcessing rec pr w))"
      "good w \<Longrightarrow> good (snd (rc_RecordDelivered rec ar w))"
      "good w \<Longrightarrow> good (snd (rc_RecordRetrying rec rt w))"
      "good w \<Longrightarrow> good (snd (rc_RecordDeadLettered rec dl w))"
    and processing_mono: "settled w i \<Longrightarrow> settled (snd (rc_RecordProcessing rec pr w)) i"
    and delivered_mono: "settled w i \<Longrightarrow> settled (snd (rc_RecordDelivered rec ar w)) i"
    and retrying_mono: "settled w i \<Longrightarrow> settled (snd (rc_RecordRetrying rec rt w)) i"
    and dead_lettered_mono: "settled w i \<Longrightarrow> settled (snd (rc_RecordDeadLettered rec dl w)) i"
    and delivered_settles: "rc_RecordDelivered rec ar w = (None, w1) \<Longrightarrow> settled w1 (ar_StreamID ar)"
    and retrying_settles: "rc_RecordRetrying rec rt w = (None, w1) \<Longrightarrow> settled w1 (ar_StreamID rt)"
    and dead_lettered_settles:
      "rc_RecordDeadLettered rec dl w = (None, w1) \<Longrightarrow> settled w1 (ar_StreamID dl)"

text \<open>Commands of the environment keep the invariant and leave what is settled and acknowledged as it is,
  only \<open>XACK\<close> acknowledges, and only the message it names.\<close>

locale acking_worker = recorder_contract good rec settled
  for good :: "'w \<Rightarrow> bool" and rec :: "'w Recorder" and settled :: "'w \<Rightarrow> bytes \<Rightarrow> bool" +
  fixes env :: "'w worker_env" and acks :: "'w \<Rightarrow> bytes set"
  assumes rec_acks: "acks (snd (rc_RecordProcessing rec pr w)) = acks w"
      "acks (snd (rc_RecordDelivered rec ar w)) = acks w"
      "acks (snd (rc_RecordRetrying rec rt w)) = acks w"
      "acks (snd (rc_RecordDeadLettered rec dl w)) = acks w"
    and env_acks: "acks (snd (en_now env w)) = acks w" "acks (snd (en_do env rq w)) = acks w"
      "acks (snd (rd_xadd (en_redis env) s vs w)) = acks w"
      "acks (snd (rd_zadd (en_redis env) k sc m w)) = acks w"
      "acks (snd (rd_xautoclaim (en_redis env) s g c t st n w)) = acks w"
      "acks (snd (rd_xreadgroup (en_redis env) g c ss n t w)) = acks w"
      "acks (snd (ctx_wait (en_ctx env) t w)) = acks w"
      "acks (snd (rd_zrangebyscore (en_redis env) k lo hi off n w)) = acks w"
      "acks (snd (rd_zrem (en_redis env) k m w)) = acks w" "acks (snd (en_tick env w)) = acks w"
    and env_settled: "settled w i \<Longrightarrow> settled (snd (en_now env w)) i"
      "settled w i \<Longrightarrow> settled (snd (en_do env rq w)) i"
      "settled w i \<Longrightarrow> settled (snd (rd_xadd (en_redis env) s vs w)) i"
      "settled w i \<Longrightarrow> settled (snd (rd_zadd (en_redis env) k sc m w)) i"
      "settled w i \<Longrightarrow> settled (snd (rd_xautoclaim (en_redis env) s g c t st n w)) i"
      "settled w i \<Longrightarrow> settled (snd (rd_xreadgroup (en_redis env) g c ss n t w)) i"
      "settled w i \<Longrightarrow> settled (snd (ctx_wait (en_ctx env) t w)) i"
      "settled w i \<Longrightarrow> settled (snd (rd_xack (en_redis env) s g j w)) i"
      "settled w i \<Longrightarrow> settled (snd (rd_zrangebyscore (en_redis env) k lo hi off n w)) i"
      "settled w i \<Longrightarrow> settled (snd (rd_zrem (en_redis env) k m w)) i"
      "settled w i \<Longrightarrow> settled (snd (en_tick env w)) i"
    and env_inv: "good w \<Longrightarrow> good (snd (en_now env w))" "good w \<Longrightarrow> good (snd (en_do env rq w))"
      "good w \<Longrightarrow> good (snd (rd_xadd (en_redis env) s vs w))"
      "good w \<Longrightarrow> good (snd (rd_zadd (en_redis env) k sc m w))"
      "good w \<Longrightarrow> good (snd (rd_xautoclaim (en_redis env) s g c t st n w))"
      "good w \<Longrightarrow> good (snd (rd_xreadgroup (en_redis env) g c ss n t w))"
      "good w \<Longrightarrow> good (snd (ctx_wait (en_ctx env) t w))"
      "good w \<Longrightarrow> good (snd (rd_xack (en_redis env) s g j w))"
      "good w \<Longrightarrow> good (snd (rd_zrangebyscore (en_redis env) k lo hi off n w))"
      "good w \<Longrightarrow> good (snd (rd_zrem (en_redis env) k m w))"
      "good w \<Longrightarrow> good (snd (en_tick env w))"
    and xack_acks: "acks (snd (rd_xack (en_redis env) s g i w)) \<subseteq> insert i (acks w)"
begin

lemma step_ok:
  "all_settled good settled acks w \<Longrightarrow> en_now env w = (t', w1) \<Longrightarrow> all_settled good settled acks w1"
  "all_settled good settled acks w \<Longrightarrow> en_do env rq w = (x1, w1) \<Longrightarrow> all_settled good settled acks w1"
  "all_settled good settled acks w \<Longrightarrow> rd_xadd (en_redis env) s vs w = (x2, w1) \<Longrightarrow> all_settled good settled acks w1"
  "all_settled good settled acks w \<Longrightarrow> rd_zadd (en_redis env) k sc m w = (x3, w1) \<Longrightarrow> all_settled good settled acks w1"
  "all_settled good settled acks w \<Longrightarrow> ctx_wait (en_ctx env) t w = (x4, w1) \<Longrightarrow> all_settled good settled acks w1"
  "all_settled good settled acks w \<Longrightarrow> rd_xautoclaim (en_redis env) s g c t st n w = (x5, w1) \<Longrightarrow>
   all_settled good settled acks w1"
  "all_settled good settled acks w \<Longrightarrow> rd_xreadgroup (en_redis env) g c ss n t w = (x6, w1) \<Longrightarrow>
   all_settled good settled acks w1"
  "all_settled good settled acks w \<Longrightarrow> rd_zrangebyscore (en_redis env) k lo hi off n w = (x6', w1) \<Longrightarrow>
   all_settled good settled acks w1"
  "all_settled good settled acks w \<Longrightarrow> rd_zrem (en_redis env) k m w = (x7, w1) \<Longrightarrow> all_settled good settled acks w1"
  "all_settled good settled acks w \<Longrightarrow> en_tick env w = (x8, w1) \<Longrightarrow> all_settled good settled acks w1"
  unfolding all_settled_def
  by (metis env_acks env_settled env_inv snd_conv)+

lemma record_ok:
  "all_settled good settled acks w \<Longrightarrow> rc_RecordProcessing rec pr w = (e, w1) \<Longrightarrow> all_settled good settled acks w1"
  "all_settled good settled acks w \<Longrightarrow> rc_RecordDelivered rec ar w = (e, w1) \<Longrightarrow> all_settled good settled acks w1"
  "all_settled good settled acks w \<Longrightarrow> rc_RecordRetrying rec rt w = (e, w1) \<Longrightarrow> all_settled good settled acks w1"
  "all_settled good settled acks w \<Longrightarrow> rc_RecordDeadLettered rec dl w = (e, w1) \<Longrightarrow> all_settled good settled acks w1"
  unfolding all_settled_def
  by (metis rec_acks rec_inv processing_mono delivered_mono retrying_mono dead_lettered_mono snd_conv)+

lemma ack_ok:
  assumes "all_settled good settled acks w" "settled w j" "rd_xack (en_redis env) s g j w = (e, w1)"
  shows "all_settled good settled acks w1"
  using assms xack_acks [of s g j w] env_settled(8) [of w _ s g j] env_inv(8) [of w s g j]
  unfolding all_settled_def by auto

lemma ackAfterFailure_ok:
  assumes "all_settled good settled acks w" "settled w j"
    "ackAfterFailure (rd_xack (en_redis env) s g) j w = (e, w1)"
  shows "all_settled good settled acks w1"
  using assms ack_ok [OF assms(1,2)] by (auto simp: ackAfterFailure_def split: prod.splits option.splits)

lemma schedule_ok:
  assumes "all_settled good settled acks w"
    "scheduleRetry (en_now env) (en_redis env) z msg n delay w = (r, w1)"
  shows "all_settled good settled acks w1"
  using assms by (auto simp: scheduleRetry_def Let_def split: prod.splits dest: step_ok)

lemma moveToDLQ_ok:
  assumes "all_settled good settled acks w"
    "moveToDLQ (en_now env) (en_redis env) z msg cause w = (r, w1)"
  shows "all_settled good settled acks w1"
  using assms by (auto simp: moveToDLQ_def Let_def split: prod.splits sum.splits dest: step_ok)

lemma handle_ok:
  assumes "all_settled good settled acks w"
    "handleDeliveryFailure (en_now env) msg cause retry n t0 t1 maxRetries base
       (scheduleRetry (en_now env) (en_redis env) z) (moveToDLQ (en_now env) (en_redis env) ds)
       (rd_xack (en_redis env) s g) (rc_RecordRetrying rec) (rc_RecordDeadLettered rec) w = Some (e, w1)"
  shows "all_settled good settled acks w1"
proof (cases "DecideFailureAction cause retry maxRetries = FailureActionRetry")
  case True
  then obtain delay t w0 r w2 where steps: "en_now env w = (t, w0)"
      "scheduleRetry (en_now env) (en_redis env) z msg (wrap64 (retry + 1)) delay w0 = (r, w2)"
    and rest: "w1 = w2 \<or> (\<exists>rt e3 w3. rc_RecordRetrying rec rt w2 = (e3, w3) \<and> ar_StreamID rt = xm_ID msg \<and>
      (e3 \<noteq> None \<and> w1 = w3 \<or> e3 = None \<and> ackAfterFailure (rd_xack (en_redis env) s g) (xm_ID msg) w3 = (e, w1)))"
    using assms(2)
    by (auto simp: handleDeliveryFailure_def Let_def split: option.splits prod.splits) fastforce+
  have w2: "all_settled good settled acks w2" using schedule_ok [OF step_ok(1) [OF assms(1) steps(1)] steps(2)] .
  show ?thesis using rest w2 record_ok(3) [OF w2] retrying_settles ackAfterFailure_ok by metis
next
  case False
  then have dead: "DecideFailureAction cause retry maxRetries = FailureActionDeadLetter"
    using DecideFailureAction_cases by blast
  then obtain r w2 where steps: "moveToDLQ (en_now env) (en_redis env) ds msg cause w = (r, w2)"
    and rest: "w1 = w2 \<or> (\<exists>dl e3 w3. rc_RecordDeadLettered rec dl w2 = (e3, w3) \<and> ar_StreamID dl = xm_ID msg \<and>
      (e3 \<noteq> None \<and> w1 = w3 \<or> e3 = None \<and> ackAfterFailure (rd_xack (en_redis env) s g) (xm_ID msg) w3 = (e, w1)))"
    using assms(2)
    by (auto simp: handleDeliveryFailure_def Let_def split: option.splits prod.splits) fastforce+
  have w2: "all_settled good settled acks w2" using moveToDLQ_ok [OF assms(1) steps] .
  show ?thesis using rest w2 record_ok(4) [OF w2] dead_lettered_settles ackAfterFailure_ok by metis
qed

lemma deliver_ok:
  assumes "all_settled good settled acks w" "processMessageWithResult env msg w = (r, w1)"
  shows "all_settled good settled acks w1"
  using assms
  by (auto simp: processMessageWithResult_def processWebhookMessageWithResult_def Let_def
      split: if_splits option.splits prod.splits sum.splits dest: step_ok)

lemma acknowledge_ok:
  assumes "all_settled good settled acks w" "ar_StreamID ar = xm_ID msg"
    "acknowledgeDeliveredMessage msg ar (rc_RecordDelivered rec) (rd_xack (en_redis env) s g) w = (e, w1)"
  shows "all_settled good settled acks w1"
proof -
  obtain e2 w2 where r: "rc_RecordDelivered rec ar w = (e2, w2)" by force
  have ok: "all_settled good settled acks w2" by (rule record_ok(2) [OF assms(1) r])
  show ?thesis
  proof (cases e2)
    case None
    then have "settled w2 (xm_ID msg)" using delivered_settles [of ar w w2] r assms(2) by simp
    then show ?thesis using assms(3) r None ack_ok [OF ok]
      by (auto simp: acknowledgeDeliveredMessage_def split: prod.splits option.splits)
  next
    case (Some x)
    then show ?thesis using assms(3) r ok by (simp add: acknowledgeDeliveredMessage_def)
  qed
qed

lemma message_ok:
  assumes "all_settled good settled acks w" "wk_recorder wk = rec" "processStreamMessage env wk msg w = Some w'"
  shows "all_settled good settled acks w'"
proof -
  obtain t0 w0 where n0: "en_now env w = (t0, w0)" by force
  have ok0: "all_settled good settled acks w0" by (rule step_ok(1) [OF assms(1) n0])
  define pr where "pr = \<lparr>pr_EventID = eventIDFromMessage msg, pr_StreamID = xm_ID msg,
    pr_Retry = parseRetry (map_of (xm_Values msg) ''retry'')\<rparr>"
  obtain e1 w1 where r1: "rc_RecordProcessing rec pr w0 = (e1, w1)" by force
  have ok1: "all_settled good settled acks w1" by (rule record_ok(1) [OF ok0 r1])
  obtain result err w2 where r2: "processMessageWithResult env msg w1 = ((result, err), w2)" by (metis surj_pair)
  have ok2: "all_settled good settled acks w2" by (rule deliver_ok [OF ok1 r2])
  obtain t3 w3 where r3: "en_now env w2 = (t3, w3)" by force
  have ok3: "all_settled good settled acks w3" by (rule step_ok(1) [OF ok2 r3])
  show ?thesis
  proof (cases "e1 = None")
    case True
    show ?thesis
      using assms(3) n0 r1 r2 r3 True
      by (cases err) (auto simp: assms(2) processStreamMessage_def Let_def pr_def
        intro: handle_ok [OF ok3] acknowledge_ok [OF ok3 _ surjective_pairing])
  next
    case False
    then show ?thesis using assms(3) n0 r1 ok1 by (auto simp: assms(2) processStreamMessage_def Let_def pr_def)
  qed
qed

lemma batch_ok:
  assumes "all_settled good settled acks w" "wk_recorder wk = rec" "processBatch env wk msgs w = Some (b, w')"
  shows "all_settled good settled acks w'"
  using assms
proof (induction msgs arbitrary: w)
  case (Cons msg msgs)
  then show ?case by (auto split: if_splits option.splits dest: message_ok)
qed simp

lemma readNew_ok:
  assumes "all_settled good settled acks w" "wk_recorder wk = rec" "readNew env wk w = Some (b, w')"
  shows "all_settled good settled acks w'"
  using assms by (auto simp: readNew_def Let_def split: prod.splits sum.splits if_splits
      dest: step_ok(7) step_ok(5) batch_ok)

lemma round_ok:
  assumes "all_settled good settled acks w" "wk_recorder wk = rec" "workerRound env wk w = Some (b, w')"
  shows "all_settled good settled acks w'"
proof (cases "ctx_err (en_ctx env) w")
  case True
  then show ?thesis using assms(1,3) by (simp add: workerRound_def)
next
  case False
  let ?cfg = "wk_config wk"
  obtain r w1 where c: "reclaimPendingMessagesForConsumer (en_redis env) (wc_Stream ?cfg)
      (wc_ConsumerGroup ?cfg) (wc_Consumer ?cfg) PendingClaimIdle PendingClaimCount w = (r, w1)" by force
  then have ok: "all_settled good settled acks w1"
    using step_ok(6) [OF assms(1)]
    by (auto simp: reclaimPendingMessagesForConsumer_def split: prod.splits sum.splits if_splits)
  show ?thesis
  proof (cases r)
    case (Inl e)
    then show ?thesis using False c assms(3) ok
      by (auto simp: workerRound_def Let_def split: if_splits intro: readNew_ok [OF _ assms(2)])
  next
    case (Inr msgs)
    then show ?thesis using False c assms(3) ok batch_ok [OF ok assms(2), of msgs]
      by (auto simp: workerRound_def Let_def split: option.splits if_splits
          intro: readNew_ok [OF _ assms(2)])
  qed
qed

lemma republish_ok:
  assumes "all_settled good settled acks w"
    "republishRetryMember lib m (publishRetry (en_redis env) s) (removeRetry (en_redis env) z) w = (e, w')"
  shows "all_settled good settled acks w'"
  using assms by (auto simp: republishRetryMember_def publishRetry_def removeRetry_def
      split: option.splits prod.splits sum.splits if_splits dest: step_ok)

lemma republishAll_ok:
  "all_settled good settled acks w \<Longrightarrow> republishAll env wk ms w = (b, w') \<Longrightarrow> all_settled good settled acks w'"
proof (induction ms arbitrary: w)
  case (Cons m ms)
  then show ?case by (auto split: if_splits intro: republish_ok [OF _ surjective_pairing])
qed simp

lemma retry_round_ok:
  assumes "all_settled good settled acks w" "retryRound env wk w = (b, w')"
  shows "all_settled good settled acks w'"
proof -
  obtain b1 w1 where t: "en_tick env w = (b1, w1)" by force
  obtain t2 w2 where n: "en_now env w1 = (t2, w2)" by force
  obtain r w3 where z: "rd_zrangebyscore (en_redis env) (wc_RetryZSet (wk_config wk)) ''-inf''
      (Itoa (t2 div 1000000)) 0 50 w2 = (r, w3)" by force
  have ok1: "all_settled good settled acks w1" by (rule step_ok(10) [OF assms(1) t])
  have ok3: "all_settled good settled acks w3" by (rule step_ok(8) [OF step_ok(1) [OF ok1 n] z])
  show ?thesis using assms(2) t n z ok1 ok3 republishAll_ok [OF ok3]
    by (auto simp: retryRound_def split: bool.splits sum.splits if_splits)
qed

lemma run_ok:
  assumes "all_settled good settled acks w" "wk_recorder wk = rec" "runStreamWorker n env wk w = Some (b, w')"
  shows "all_settled good settled acks w'"
  using assms
proof (induction n arbitrary: w)
  case (Suc n)
  then show ?case by (auto split: option.splits if_splits dest: round_ok)
qed simp

lemma Run_step_ok:
  assumes "Run_step env wk c c'" "wk_recorder wk = rec" "all_settled good settled acks (snd (snd c))"
  shows "all_settled good settled acks (snd (snd c'))"
  using assms by cases (auto dest: round_ok [OF _ assms(2)] retry_round_ok)

lemma Run_ok:
  assumes "(Run_step env wk)\<^sup>*\<^sup>* c c'" "wk_recorder wk = rec" "all_settled good settled acks (snd (snd c))"
  shows "all_settled good settled acks (snd (snd c'))"
  using assms by (induction rule: rtranclp_induct) (auto dest: Run_step_ok)

end

section \<open>The providers\<close>

lemma outcome_mono: "extends d d' \<Longrightarrow> outcome_recorded srv d i \<Longrightarrow> outcome_recorded srv d' i"
  unfolding extends_def outcome_recorded_def by (meson set_mono_prefix subsetD)

lemma outcome_added:
  assumes "InsertStatusHistory (srv n) e st (Some fs) d = Inr d'" "map_of fs ''stream_id'' = Some (JStr i)"
    "st \<in> {StatusDelivered, StatusRetrying, StatusDeadLettered}"
  shows "outcome_recorded srv d' i"
proof -
  from assms(1) obtain u where d': "d' = add_history (new_history (srv n) d u st (Some fs)) d"
    by (auto simp: InsertStatusHistory_Inr)
  show ?thesis unfolding outcome_recorded_def d'
    by (rule bexI [of _ "new_history (srv n) d u st (Some fs)"]) (use assms(2,3) in \<open>auto simp: new_history_def\<close>)
qed

lemma recorded_outcomes:
  "RecordDelivered (srv n) s ar d = (None, d1) \<Longrightarrow> outcome_recorded srv d1 (ar_StreamID ar)"
  "RecordRetrying (srv n) s rt d = (None, d1) \<Longrightarrow> outcome_recorded srv d1 (ar_StreamID rt)"
  "RecordDeadLettered (srv n) s dl d = (None, d1) \<Longrightarrow> outcome_recorded srv d1 (ar_StreamID dl)"
  by (auto simp: RecordDelivered_def RecordRetrying_def RecordDeadLettered_def Let_def inTransaction_Inr
      deliveredBody_def retryingBody_def deadLetteredBody_def split: if_splits sum.splits
      elim: outcome_added)

lemma on_db_db: "wd_db (snd (on_db srv f w)) = snd (f (srv (wd_tx w)) (wd_db w))"
  "wd_acks (snd (on_db srv f w)) = wd_acks w"
  by (simp_all add: on_db_def split: prod.splits)

lemma on_db_None: "on_db srv f w = (None, w1) \<Longrightarrow> f (srv (wd_tx w)) (wd_db w) = (None, wd_db w1)"
  by (auto simp: on_db_def split: prod.splits)

lemma on_net_keeps [simp]: "wd_db (snd (on_net f w)) = wd_db w" "wd_acks (snd (on_net f w)) = wd_acks w"
  by (simp_all add: on_net_def split: prod.splits)

lemma note_ack_keeps [simp]: "wd_db (snd (note_ack i r)) = wd_db (snd r)"
  "wd_acks (snd (note_ack i r)) = wd_acks (snd r) @ [i]"
  by (simp_all add: note_ack_def split: prod.splits)

interpretation store: recorder_contract "\<lambda>w. True" "storeRecorder srv s" "\<lambda>w. outcome_recorded srv (wd_db w)" for srv s
  by unfold_locales
    (auto simp: storeRecorder_def on_db_db intro: outcome_mono [OF recorder_extends(1)]
      outcome_mono [OF recorder_extends(2)] outcome_mono [OF recorder_extends(3)]
      outcome_mono [OF recorder_extends(4)] dest!: on_db_None recorded_outcomes)

interpretation noop: recorder_contract good noopRecorder "\<lambda>w i. True" for good
  by unfold_locales (simp_all add: noopRecorder_def)

interpretation worker: acking_worker "\<lambda>w. True" "storeRecorder srv s" "\<lambda>w. outcome_recorded srv (wd_db w)"
  "world_env env" "\<lambda>w. set (wd_acks w)" for srv s env
  by unfold_locales (auto simp: storeRecorder_def on_db_db world_env_def world_redis_def)


text \<open>The same for a number of rounds of the stream worker alone.\<close>

lemma stream_worker_acks_recorded:
  assumes "runStreamWorker n (world_env env) (New (cfg\<lparr>wc_Recorder := Some (storeRecorder srv s)\<rparr>)) w =
      Some (b, w')" "wd_acks w = []"
  shows "\<forall>i. i \<in> set (wd_acks w') \<longrightarrow> outcome_recorded srv (wd_db w') i"
proof -
  have "all_settled (\<lambda>w. True) (\<lambda>w. outcome_recorded srv (wd_db w)) (\<lambda>w. set (wd_acks w)) w"
    using assms(2) by (simp add: all_settled_def)
  from worker.run_ok [OF this _ assms(1)] show ?thesis by (simp add: New_def all_settled_def)
qed

text \<open>A worker that reads the message of the example event once.\<close>

definition example_env :: "nat worker_env" where
  "example_env = \<lparr>en_now = (\<lambda>n. (0, Suc n)),
     en_redis = idle_redis\<lparr>rd_xreadgroup := (\<lambda>_ _ _ _ _ n.
       (Inr [(''s'', [\<lparr>xm_ID = ''1-0'', xm_Values = [(''event_id'', JStr ''e1'')]\<rparr>])], n))\<rparr>,
     en_do = (\<lambda>_ n. (Inl ErrNoRows, n)), en_url_error = (\<lambda>_. None),
     en_ctx = \<lparr>ctx_err = (\<lambda>_. False), ctx_wait = (\<lambda>_ n. (True, n))\<rparr>,
     en_tick = (\<lambda>n. (True, n)), en_lib = plain_lib\<rparr>"

definition example_config :: "nat world WorkerConfig" where
  "example_config = \<lparr>wc_Stream = ''s'', wc_ConsumerGroup = ''g'', wc_Consumer = ''c'', wc_DLQStream = ''d'',
     wc_RetryZSet = ''z'', wc_MaxRetries = 5, wc_BaseBackoff = 500000000, wc_Recorder = None\<rparr>"

definition example_world :: "nat world" where
  "example_world = \<lparr>wd_net = 0, wd_db = example_db, wd_tx = 0, wd_acks = []\<rparr>"


end
