(* ===== verification/Migrations.thy ===== *)
theory Migrations
  imports Go_Base
begin

text \<open>
  The schema migrations, \<open>migrations/migrate.go\<close>. The state is the table \<open>schema_migrations\<close>
  (the names in the order they were inserted; \<open>None\<close> before the table exists) and the rest of
  the schema, on which a script acts through the argument \<open>exec\<close>. What the server decides, the
  faults and whether a failed commit took effect, is the record \<open>migration_server\<close>.
\<close>

section \<open>Model\<close>

record 's schema_db =
  md_applied :: "bytes list option"
  md_schema :: 's

datatype migration_stmt =
    CreateMigrationsTable
  | ListApplied
  | ReadApplied
  | BeginMigration bytes
  | RecordMigration bytes
  | CommitMigration bytes

record migration_server =
  mv_fault :: "migration_stmt \<Rightarrow> error option"
  mv_commit_applied :: bool

text \<open>The embedded files with their contents, and the effect of a script.\<close>

record 's migration_files =
  mf_files :: "(bytes \<times> bytes) list"
  mf_exec :: "bytes \<Rightarrow> 's \<Rightarrow> error + 's"

definition migrationNames :: "'s migration_files \<Rightarrow> bytes list" where
  "migrationNames fs = sort (filter (\<lambda>name. suffix ''.sql'' name) (map fst (mf_files fs)))"

definition applyOne ::
    "'s migration_files \<Rightarrow> migration_server \<Rightarrow> bytes \<Rightarrow> 's schema_db \<Rightarrow> error option \<times> 's schema_db" where
  "applyOne fs sv name d =
     (case map_of (mf_files fs) name of
        None \<Rightarrow> (Some (ErrWrap (''read migration '' @ name @ '': '') (ErrNew ''file does not exist'') []), d)
      | Some sql \<Rightarrow>
      case mv_fault sv (BeginMigration name) of
        Some e \<Rightarrow> (Some (ErrWrap (''begin migration '' @ name @ '': '') e []), d)
      | None \<Rightarrow>
      case mf_exec fs sql (md_schema d) of
        Inl e \<Rightarrow> (Some (ErrWrap (''apply migration '' @ name @ '': '') e []), d)
      | Inr s \<Rightarrow>
      case (case mv_fault sv (RecordMigration name) of
              Some e \<Rightarrow> Inl e
            | None \<Rightarrow>
                (case md_applied d of
                   None \<Rightarrow> Inl (ErrNew ''SQLSTATE 42P01'')
                 | Some names \<Rightarrow>
                     if name \<in> set names then Inl (ErrNew ''SQLSTATE 23505'') else Inr (names @ [name]))) of
        Inl e \<Rightarrow> (Some (ErrWrap (''record migration '' @ name @ '': '') e []), d)
      | Inr names \<Rightarrow>
          let d1 = \<lparr>md_applied = Some names, md_schema = s\<rparr> in
          (case mv_fault sv (CommitMigration name) of
             Some e \<Rightarrow>
               (Some (ErrWrap (''commit migration '' @ name @ '': '') e []),
                if mv_commit_applied sv then d1 else d)
           | None \<Rightarrow> (None, d1)))"

text \<open>The loop over the names, which skips what the table had when it was read.\<close>

fun applyAll ::
    "'s migration_files \<Rightarrow> migration_server \<Rightarrow> bytes list \<Rightarrow> bytes list \<Rightarrow> 's schema_db \<Rightarrow>
     error option \<times> 's schema_db" where
  "applyAll fs sv applied [] d = (None, d)"
| "applyAll fs sv applied (name # names) d =
     (if name \<in> set applied then applyAll fs sv applied names d
      else
        case applyOne fs sv name d of
          (Some e, d1) \<Rightarrow> (Some e, d1)
        | (None, d1) \<Rightarrow> applyAll fs sv applied names d1)"

definition Apply ::
    "'s migration_files \<Rightarrow> migration_server \<Rightarrow> 's schema_db \<Rightarrow> error option \<times> 's schema_db" where
  "Apply fs sv d =
     (case mv_fault sv CreateMigrationsTable of
        Some e \<Rightarrow> (Some (ErrWrap ''create schema_migrations table: '' e []), d)
      | None \<Rightarrow>
      let rows = (case md_applied d of None \<Rightarrow> [] | Some names \<Rightarrow> names); d1 = d\<lparr>md_applied := Some rows\<rparr> in
      case mv_fault sv ListApplied of
        Some e \<Rightarrow> (Some (ErrWrap ''list applied migrations: '' e []), d1)
      | None \<Rightarrow>
      case mv_fault sv ReadApplied of
        Some e \<Rightarrow> (Some (ErrWrap ''read applied migrations: '' e []), d1)
      | None \<Rightarrow> applyAll fs sv rows (migrationNames fs) d1)"

section \<open>What the table records\<close>

text \<open>The scripts of the names, run one after the other.\<close>

fun run_scripts :: "'s migration_files \<Rightarrow> bytes list \<Rightarrow> 's \<Rightarrow> 's option" where
  "run_scripts fs [] s = Some s"
| "run_scripts fs (name # names) s =
     (case map_of (mf_files fs) name of
        None \<Rightarrow> None
      | Some sql \<Rightarrow> (case mf_exec fs sql s of Inl e \<Rightarrow> None | Inr s1 \<Rightarrow> run_scripts fs names s1))"

definition recorded :: "'s schema_db \<Rightarrow> bytes list" where
  "recorded d = (case md_applied d of None \<Rightarrow> [] | Some names \<Rightarrow> names)"

text \<open>The schema is what the recorded scripts make of the schema \<open>s0\<close>, each run once.\<close>

definition migrated :: "'s migration_files \<Rightarrow> 's \<Rightarrow> 's schema_db \<Rightarrow> bool" where
  "migrated fs s0 d \<longleftrightarrow> distinct (recorded d) \<and> run_scripts fs (recorded d) s0 = Some (md_schema d)"

lemma run_scripts_append:
  "run_scripts fs (xs @ ys) s = (case run_scripts fs xs s of None \<Rightarrow> None | Some s1 \<Rightarrow> run_scripts fs ys s1)"
  by (induction xs arbitrary: s) (auto split: option.splits sum.splits)

lemma applyOne_cases:
  assumes "applyOne fs sv name d = (err, d')"
  shows "d' = d \<and> err \<noteq> None \<or>
    name \<notin> set (recorded d) \<and> md_applied d \<noteq> None \<and> md_applied d' = Some (recorded d @ [name]) \<and>
    run_scripts fs [name] (md_schema d) = Some (md_schema d')"
  using assms
  by (auto simp: applyOne_def recorded_def Let_def split: option.splits sum.splits if_splits)

lemma applyOne_migrated:
  assumes "applyOne fs sv name d = (err, d')" "migrated fs s0 d"
  shows "migrated fs s0 d' \<and> (d' = d \<or> recorded d' = recorded d @ [name])"
  using applyOne_cases [OF assms(1)] assms(2)
  by (auto simp: migrated_def recorded_def run_scripts_append simp del: run_scripts.simps)

lemma applyAll_migrated:
  assumes "applyAll fs sv applied names d = (err, d')" "migrated fs s0 d"
  shows "migrated fs s0 d' \<and>
    (\<exists>done. recorded d' = recorded d @ done \<and> prefix done (filter (\<lambda>n. n \<notin> set applied) names) \<and>
       (err = None \<longrightarrow> done = filter (\<lambda>n. n \<notin> set applied) names))"
  using assms
proof (induction names arbitrary: d)
  case Nil
  then show ?case by auto
next
  case (Cons name names)
  show ?case
  proof (cases "name \<in> set applied")
    case True
    then show ?thesis using Cons by auto
  next
    case False
    obtain e d1 where one: "applyOne fs sv name d = (e, d1)" by force
    note step = applyOne_migrated [OF one Cons.prems(2)]
    show ?thesis
    proof (cases e)
      case None
      then have "recorded d1 = recorded d @ [name]"
        using applyOne_cases [OF one] by (auto simp: recorded_def)
      then show ?thesis using Cons.IH [of d1] Cons.prems step one None False by auto
    next
      case (Some x)
      then show ?thesis using Cons.prems step one False by auto
    qed
  qed
qed

lemma applyAll_nothing: "set names \<subseteq> set applied \<Longrightarrow> applyAll fs sv applied names d = (None, d)"
  by (induction names) auto

lemma recorded_created: "recorded (d\<lparr>md_applied := Some (case md_applied d of None \<Rightarrow> [] | Some xs \<Rightarrow> xs)\<rparr>) = recorded d"
  by (simp add: recorded_def)

lemma Apply_migrated:
  assumes "Apply fs sv d = (err, d')" "migrated fs s0 d"
  shows "migrated fs s0 d' \<and>
    (\<exists>done. recorded d' = recorded d @ done \<and>
       prefix done (filter (\<lambda>n. n \<notin> set (recorded d)) (migrationNames fs)) \<and>
       (err = None \<longrightarrow> done = filter (\<lambda>n. n \<notin> set (recorded d)) (migrationNames fs)))"
proof -
  let ?d1 = "d\<lparr>md_applied := Some (recorded d)\<rparr>"
  have r: "recorded ?d1 = recorded d" "migrated fs s0 ?d1"
    using assms(2) by (simp_all add: recorded_def migrated_def)
  from assms(1) consider "err \<noteq> None" "d' = d \<or> d' = ?d1"
    | "applyAll fs sv (recorded d) (migrationNames fs) ?d1 = (err, d')"
    by (auto simp: Apply_def recorded_def Let_def split: option.splits)
  then show ?thesis
  proof cases
    case 1
    then show ?thesis using assms(2) r by auto
  next
    case 2
    then show ?thesis using applyAll_migrated [OF 2 r(2)] r(1) by simp
  qed
qed

section \<open>Properties\<close>

text \<open>
  C23: Migrations are applied once and in order. Starting from a schema that the recorded scripts
  made, a call of \<open>Apply\<close>, wherever it fails, leaves a schema that the recorded scripts made, each
  of them run exactly once; it adds to the record an initial part of the pending names in
  ascending order, and all of them when it succeeds; and after a success another call changes
  nothing and succeeds unless the server fails.
\<close>

theorem migrations_once_in_order:
  assumes "migrated fs s0 d" "Apply fs sv d = (err, d')" "distinct (map fst (mf_files fs))"
  shows "migrated fs s0 d' \<and>
    (\<exists>done. recorded d' = recorded d @ done \<and> sorted done \<and>
       prefix done (filter (\<lambda>n. n \<notin> set (recorded d)) (migrationNames fs))) \<and>
    (err = None \<longrightarrow> set (migrationNames fs) \<subseteq> set (recorded d') \<and>
       snd (Apply fs sv2 d') = d' \<and> (mv_fault sv2 = (\<lambda>_. None) \<longrightarrow> fst (Apply fs sv2 d') = None))"
proof -
  obtain added where m: "migrated fs s0 d'" "recorded d' = recorded d @ added"
    "prefix added (filter (\<lambda>n. n \<notin> set (recorded d)) (migrationNames fs))"
    "err = None \<longrightarrow> added = filter (\<lambda>n. n \<notin> set (recorded d)) (migrationNames fs)"
    using Apply_migrated [OF assms(2,1)] by blast
  have "sorted (migrationNames fs)" by (simp add: migrationNames_def)
  then have "sorted (filter (\<lambda>n. n \<notin> set (recorded d)) (migrationNames fs))"
    by (rule sorted_filter [of "\<lambda>x. x", simplified])
  with m(3) have s: "sorted added" by (auto simp: prefix_def sorted_append)
  have all: "set (migrationNames fs) \<subseteq> set (recorded d')" if "err = None" using m(2,4) that by auto
  have "Apply fs sv2 d' = (fst (Apply fs sv2 d'), d') \<and>
      (mv_fault sv2 = (\<lambda>_. None) \<longrightarrow> fst (Apply fs sv2 d') = None)" if "err = None"
  proof -
    have "md_applied d' \<noteq> None"
    proof -
      have "applyAll fs sv ap names x = (None, y) \<Longrightarrow> md_applied x \<noteq> None \<Longrightarrow> md_applied y \<noteq> None" for ap names x y
        by (induction names arbitrary: x)
          (auto split: if_splits prod.splits option.splits dest: applyOne_cases)
      then show ?thesis using assms(2) that by (auto simp: Apply_def Let_def split: option.splits)
    qed
    then have "md_applied d' = Some (recorded d')" by (auto simp: recorded_def)
    then have "d'\<lparr>md_applied := Some (recorded d')\<rparr> = d'" by simp
    with all [OF that] \<open>md_applied d' = Some (recorded d')\<close> show ?thesis
      by (auto simp: Apply_def Let_def applyAll_nothing split: option.splits)
  qed
  then show ?thesis using m(1,2,3) s all by (metis snd_conv)
qed

definition example_files :: "bytes list migration_files" where
  "example_files = \<lparr>mf_files = [(''002_b.sql'', ''B''), (''001_a.sql'', ''A'')],
     mf_exec = (\<lambda>sql s. Inr (s @ [sql]))\<rparr>"

definition quiet_migrations :: migration_server where
  "quiet_migrations = \<lparr>mv_fault = (\<lambda>_. None), mv_commit_applied = False\<rparr>"

theorem migrations_once_in_order_witness:
  "md_schema (snd (Apply example_files quiet_migrations \<lparr>md_applied = None, md_schema = []\<rparr>)) = [''A'', ''B''] \<and>
   snd (Apply example_files quiet_migrations
     (snd (Apply example_files quiet_migrations \<lparr>md_applied = None, md_schema = []\<rparr>))) =
   snd (Apply example_files quiet_migrations \<lparr>md_applied = None, md_schema = []\<rparr>)"
proof -
  let ?d = "\<lparr>md_applied = None, md_schema = []\<rparr> :: bytes list schema_db"
  have m: "migrated example_files [] ?d" by (simp add: migrated_def recorded_def)
  obtain err d' where run: "Apply example_files quiet_migrations ?d = (err, d')" by (metis surj_pair)
  have v: "Apply example_files quiet_migrations ?d =
      (None, \<lparr>md_applied = Some [''001_a.sql'', ''002_b.sql''], md_schema = [''A'', ''B'']\<rparr>)" by code_simp
  have "distinct (map fst (mf_files example_files))" by (simp add: example_files_def)
  from migrations_once_in_order [OF m run this, of quiet_migrations] run v show ?thesis by auto
qed

end
