(* ===== verification/Config_Load.thy ===== *)
theory Config_Load
  imports Go_Base
begin

text \<open>
  The configuration of \<open>internal/config/config.go\<close>: \<open>Load\<close> reads the process environment,
  given as a map from names to values, and returns the configuration or an error. Durations are
  nanoseconds in a 64-bit integer, so the conversion from milliseconds wraps around.
\<close>

type_synonym environ = "bytes \<Rightarrow> bytes option"

definition defaultConsumerName :: bytes where "defaultConsumerName = ''api-1''"
definition defaultMaxRetries :: int where "defaultMaxRetries = 5"
definition defaultBaseBackoffMS :: int where "defaultBaseBackoffMS = 500"
definition defaultOutboxPollInterval :: int where "defaultOutboxPollInterval = 250"
definition defaultAIServiceURL :: bytes where "defaultAIServiceURL = ''http://127.0.0.1:8090''"
definition defaultAIServiceTimeoutMS :: int where "defaultAIServiceTimeoutMS = 10000"

record Config =
  PostgresDSN :: bytes
  RedisAddr :: bytes
  AIServiceURL :: bytes
  AIServiceTimeout :: int
  ConsumerName :: bytes
  MaxRetries :: int
  BaseBackoff :: int
  OutboxPollInterval :: int

definition Getenv :: "environ \<Rightarrow> bytes \<Rightarrow> bytes" where
  "Getenv env key = (case env key of Some v \<Rightarrow> v | None \<Rightarrow> [])"

definition requiredString :: "environ \<Rightarrow> bytes \<Rightarrow> error + bytes" where
  "requiredString env key =
     (let value = TrimSpace (Getenv env key) in
      if value = [] then Inl (ErrNew (key @ '' is required'')) else Inr value)"

definition optionalPositiveInt :: "environ \<Rightarrow> bytes \<Rightarrow> int \<Rightarrow> error + int" where
  "optionalPositiveInt env key defaultValue =
     (case env key of
        None \<Rightarrow> Inr defaultValue
      | Some raw \<Rightarrow>
          (case Atoi (TrimSpace raw) of
             None \<Rightarrow> Inl (ErrNew (key @ '' must be a valid integer''))
           | Some value \<Rightarrow>
               if value \<le> 0 then Inl (ErrNew (key @ '' must be greater than zero''))
               else Inr value))"

definition Millisecond :: int where "Millisecond = 1000000"

definition orDefault :: "bytes \<Rightarrow> bytes \<Rightarrow> bytes" where
  "orDefault v d = (if v = [] then d else v)"

definition Load :: "environ \<Rightarrow> error + Config" where
  "Load env =
     (case requiredString env ''POSTGRES_DSN'' of Inl e \<Rightarrow> Inl e | Inr postgresDSN \<Rightarrow>
      case requiredString env ''REDIS_ADDR'' of Inl e \<Rightarrow> Inl e | Inr redisAddr \<Rightarrow>
      let consumerName = orDefault (TrimSpace (Getenv env ''CONSUMER_NAME'')) defaultConsumerName;
          aiServiceURL = orDefault (TrimSpace (Getenv env ''AI_SERVICE_URL'')) defaultAIServiceURL
      in
      case optionalPositiveInt env ''MAX_RETRIES'' defaultMaxRetries of
        Inl e \<Rightarrow> Inl e | Inr maxRetries \<Rightarrow>
      case optionalPositiveInt env ''BASE_BACKOFF_MS'' defaultBaseBackoffMS of
        Inl e \<Rightarrow> Inl e | Inr baseBackoffMS \<Rightarrow>
      case optionalPositiveInt env ''OUTBOX_POLL_INTERVAL_MS'' defaultOutboxPollInterval of
        Inl e \<Rightarrow> Inl e | Inr outboxPollIntervalMS \<Rightarrow>
      case optionalPositiveInt env ''AI_SERVICE_TIMEOUT_MS'' defaultAIServiceTimeoutMS of
        Inl e \<Rightarrow> Inl e | Inr aiServiceTimeoutMS \<Rightarrow>
      Inr \<lparr>PostgresDSN = postgresDSN, RedisAddr = redisAddr, AIServiceURL = aiServiceURL,
           AIServiceTimeout = wrap64 (aiServiceTimeoutMS * Millisecond),
           ConsumerName = consumerName, MaxRetries = maxRetries,
           BaseBackoff = wrap64 (baseBackoffMS * Millisecond),
           OutboxPollInterval = wrap64 (outboxPollIntervalMS * Millisecond)\<rparr>)"

section \<open>Lemmas\<close>

lemma requiredString_Inr:
  "requiredString env k = Inr v \<longleftrightarrow> v = TrimSpace (Getenv env k) \<and> v \<noteq> []"
  by (auto simp: requiredString_def Let_def)

lemma optionalPositiveInt_Inr:
  "optionalPositiveInt env k d = Inr n \<longleftrightarrow>
     (env k = None \<and> n = d \<or> (\<exists>raw. env k = Some raw \<and> Atoi (TrimSpace raw) = Some n \<and> 0 < n))"
  by (auto simp: optionalPositiveInt_def split: option.splits)

lemma optionalPositiveInt_bounds:
  "optionalPositiveInt env k d = Inr n \<Longrightarrow> 0 < d \<Longrightarrow> is_int64 d \<Longrightarrow> 0 < n \<and> is_int64 n"
  by (auto simp: optionalPositiveInt_Inr dest: Atoi_range)

lemmas Load_defaults =
  defaultConsumerName_def defaultMaxRetries_def defaultBaseBackoffMS_def
  defaultOutboxPollInterval_def defaultAIServiceURL_def defaultAIServiceTimeoutMS_def

lemma Load_Inr:
  "Load env = Inr c \<longleftrightarrow>
     (\<exists>dsn addr mr bb op ai.
        requiredString env ''POSTGRES_DSN'' = Inr dsn \<and>
        requiredString env ''REDIS_ADDR'' = Inr addr \<and>
        optionalPositiveInt env ''MAX_RETRIES'' defaultMaxRetries = Inr mr \<and>
        optionalPositiveInt env ''BASE_BACKOFF_MS'' defaultBaseBackoffMS = Inr bb \<and>
        optionalPositiveInt env ''OUTBOX_POLL_INTERVAL_MS'' defaultOutboxPollInterval = Inr op \<and>
        optionalPositiveInt env ''AI_SERVICE_TIMEOUT_MS'' defaultAIServiceTimeoutMS = Inr ai \<and>
        c = \<lparr>PostgresDSN = dsn, RedisAddr = addr,
             AIServiceURL = orDefault (TrimSpace (Getenv env ''AI_SERVICE_URL'')) defaultAIServiceURL,
             AIServiceTimeout = wrap64 (ai * Millisecond),
             ConsumerName = orDefault (TrimSpace (Getenv env ''CONSUMER_NAME'')) defaultConsumerName,
             MaxRetries = mr, BaseBackoff = wrap64 (bb * Millisecond),
             OutboxPollInterval = wrap64 (op * Millisecond)\<rparr>)"
  by (auto simp: Load_def Let_def split: sum.splits)

lemma wrap64_ms_pos: "0 < n \<Longrightarrow> n \<le> 9223372036854 \<Longrightarrow> 0 < wrap64 (n * Millisecond)"
  by (subst wrap64_id) (auto simp: is_int64_def Millisecond_def)

text \<open>What the integer settings must look like: absent, or a positive 64-bit decimal.\<close>

definition positiveSetting :: "environ \<Rightarrow> bytes \<Rightarrow> bool" where
  "positiveSetting env k =
     (case env k of None \<Rightarrow> True
      | Some raw \<Rightarrow> (case Atoi (TrimSpace raw) of None \<Rightarrow> False | Some n \<Rightarrow> 0 < n))"

lemma positiveSetting_iff: "positiveSetting env k \<longleftrightarrow> (\<exists>n. optionalPositiveInt env k d = Inr n)"
  by (auto simp: positiveSetting_def optionalPositiveInt_def split: option.splits)

text \<open>
  C40: When the configuration loads. \<open>Load\<close> succeeds exactly when the two required
  settings are not blank and each of the four integer settings is absent or a decimal 64-bit
  integer greater than zero.
\<close>

theorem Load_accepts_iff:
  "isl (Load env) \<longleftrightarrow>
     \<not> (TrimSpace (Getenv env ''POSTGRES_DSN'') \<noteq> [] \<and> TrimSpace (Getenv env ''REDIS_ADDR'') \<noteq> [] \<and>
        positiveSetting env ''MAX_RETRIES'' \<and> positiveSetting env ''BASE_BACKOFF_MS'' \<and>
        positiveSetting env ''OUTBOX_POLL_INTERVAL_MS'' \<and>
        positiveSetting env ''AI_SERVICE_TIMEOUT_MS'')"
proof -
  have "\<not> isl (Load env) \<longleftrightarrow> (\<exists>c. Load env = Inr c)" by (cases "Load env") auto
  also have "\<dots> \<longleftrightarrow>
     (\<exists>v. requiredString env ''POSTGRES_DSN'' = Inr v) \<and> (\<exists>v. requiredString env ''REDIS_ADDR'' = Inr v) \<and>
     (\<exists>n. optionalPositiveInt env ''MAX_RETRIES'' defaultMaxRetries = Inr n) \<and>
     (\<exists>n. optionalPositiveInt env ''BASE_BACKOFF_MS'' defaultBaseBackoffMS = Inr n) \<and>
     (\<exists>n. optionalPositiveInt env ''OUTBOX_POLL_INTERVAL_MS'' defaultOutboxPollInterval = Inr n) \<and>
     (\<exists>n. optionalPositiveInt env ''AI_SERVICE_TIMEOUT_MS'' defaultAIServiceTimeoutMS = Inr n)"
    unfolding Load_Inr by blast
  also have "\<dots> \<longleftrightarrow> TrimSpace (Getenv env ''POSTGRES_DSN'') \<noteq> [] \<and>
     TrimSpace (Getenv env ''REDIS_ADDR'') \<noteq> [] \<and>
     positiveSetting env ''MAX_RETRIES'' \<and> positiveSetting env ''BASE_BACKOFF_MS'' \<and>
     positiveSetting env ''OUTBOX_POLL_INTERVAL_MS'' \<and> positiveSetting env ''AI_SERVICE_TIMEOUT_MS''"
    by (simp only: positiveSetting_iff [symmetric] requiredString_Inr) simp
  finally show ?thesis by blast
qed

text \<open>
  What a loaded configuration guarantees. The addresses and names are trimmed and not
  empty, the retry limit is positive, and every duration is positive provided the
  millisecond settings that are given are at most 9223372036854 (the largest value
  whose nanoseconds fit in 64 bits).
\<close>

theorem Load_sound:
  assumes load: "Load env = Inr c"
    and small: "\<forall>k raw n. env k = Some raw \<longrightarrow> Atoi (TrimSpace raw) = Some n \<longrightarrow> n \<le> 9223372036854"
  shows "PostgresDSN c \<noteq> [] \<and> TrimSpace (PostgresDSN c) = PostgresDSN c \<and>
    RedisAddr c \<noteq> [] \<and> TrimSpace (RedisAddr c) = RedisAddr c \<and>
    ConsumerName c \<noteq> [] \<and> AIServiceURL c \<noteq> [] \<and> 0 < MaxRetries c \<and>
    0 < BaseBackoff c \<and> 0 < OutboxPollInterval c \<and> 0 < AIServiceTimeout c"
proof -
  have ms: "0 < n \<and> 0 < wrap64 (n * Millisecond)"
    if "optionalPositiveInt env k d = Inr n" "0 < d" "d \<le> 9223372036854" for k d n
    using that small wrap64_ms_pos [of n] by (auto simp: optionalPositiveInt_Inr)
  from load obtain dsn addr mr bb op ai where parts:
    "requiredString env ''POSTGRES_DSN'' = Inr dsn" "requiredString env ''REDIS_ADDR'' = Inr addr"
    "optionalPositiveInt env ''MAX_RETRIES'' defaultMaxRetries = Inr mr"
    "optionalPositiveInt env ''BASE_BACKOFF_MS'' defaultBaseBackoffMS = Inr bb"
    "optionalPositiveInt env ''OUTBOX_POLL_INTERVAL_MS'' defaultOutboxPollInterval = Inr op"
    "optionalPositiveInt env ''AI_SERVICE_TIMEOUT_MS'' defaultAIServiceTimeoutMS = Inr ai"
    and c: "PostgresDSN c = dsn" "RedisAddr c = addr" "MaxRetries c = mr"
    "BaseBackoff c = wrap64 (bb * Millisecond)" "OutboxPollInterval c = wrap64 (op * Millisecond)"
    "AIServiceTimeout c = wrap64 (ai * Millisecond)"
    "ConsumerName c = orDefault (TrimSpace (Getenv env ''CONSUMER_NAME'')) defaultConsumerName"
    "AIServiceURL c = orDefault (TrimSpace (Getenv env ''AI_SERVICE_URL'')) defaultAIServiceURL"
    unfolding Load_Inr by auto
  have "ConsumerName c \<noteq> [] \<and> AIServiceURL c \<noteq> []"
    by (simp add: c orDefault_def defaultConsumerName_def defaultAIServiceURL_def)
  moreover have "0 < mr" "0 < wrap64 (bb * Millisecond)" "0 < wrap64 (op * Millisecond)"
    "0 < wrap64 (ai * Millisecond)"
    using parts(3-6) [THEN ms] by (simp_all add: Load_defaults)
  ultimately show ?thesis using parts(1,2) by (auto simp: c requiredString_Inr)
qed

theorem Load_sound_witness:
  "0 < MaxRetries (projr (Load [''POSTGRES_DSN'' \<mapsto> ''postgres://db'', ''REDIS_ADDR'' \<mapsto> ''redis:6379'']))"
proof -
  let ?env = "[''POSTGRES_DSN'' \<mapsto> ''postgres://db'', ''REDIS_ADDR'' \<mapsto> ''redis:6379'']"
  have "\<not> isl (Load ?env)" by code_simp
  then obtain c where c: "Load ?env = Inr c" by (cases "Load ?env") auto
  have n: "Atoi (TrimSpace ''postgres://db'') = None" "Atoi (TrimSpace ''redis:6379'') = None"
    by code_simp+
  have small: "\<forall>k raw n. ?env k = Some raw \<longrightarrow> Atoi (TrimSpace raw) = Some n \<longrightarrow> n \<le> 9223372036854"
    using n by (auto split: if_splits)
  have "0 < MaxRetries c"
    using Load_sound [OF c small] by blast
  with c show ?thesis by simp
qed

text \<open>
  A base backoff that passes the validation but not the conversion to nanoseconds. With
  \<open>BASE_BACKOFF_MS=9223372036855\<close> the configuration loads with a negative duration.
\<close>

theorem Load_duration_overflow:
  "case Load [''POSTGRES_DSN'' \<mapsto> ''postgres://db'', ''REDIS_ADDR'' \<mapsto> ''redis:6379'',
              ''BASE_BACKOFF_MS'' \<mapsto> ''9223372036855''] of
     Inl e \<Rightarrow> False | Inr c \<Rightarrow> BaseBackoff c < 0"
  by code_simp

end
