(* ===== verification/Api_Main.thy ===== *)
theory Api_Main
  imports Event_Explain Replay_Handler Worker_Recording Migrations Config_Load
begin

text \<open>
  The program \<open>cmd/api/main.go\<close>: the handlers it adds itself, the routes of the server, and
  the start of the program. A request acts on the tables and on everything outside them: Redis,
  the AI service and the probes, whose calls are the fields of \<open>api_env\<close>. The statements of one
  request are answered by the server \<open>p\<close>, those of the second store call of a request by \<open>p2\<close>.

  The theorems say which step of the event machine a request is, which requests can change the tables,
  which statuses the server answers with, that a created event can be read back, and what a
  successful start has done.
\<close>

section \<open>Constants\<close>

definition EventStream :: bytes where "EventStream = ''eventrail.events''"
definition ConsumerGroup :: bytes where "ConsumerGroup = ''eventrail.cg''"
definition DLQStream :: bytes where "DLQStream = ''eventrail.events.dlq''"
definition RetryZSet :: bytes where "RetryZSet = ''eventrail.events.retry''"
definition DefaultOutboxBaseBackoff :: duration where "DefaultOutboxBaseBackoff = 500 * Millisecond"
definition DefaultOutboxMaxBackoff :: duration where "DefaultOutboxMaxBackoff = 30 * Second"

text \<open>The version of a build without linker flags.\<close>

definition version :: bytes where "version = ''dev''"
definition build_commit :: bytes where "build_commit = ''unknown''"
definition builtAt :: bytes where "builtAt = ''unknown''"

definition dashboardOrigins :: "bytes list" where
  "dashboardOrigins = [''http://localhost:5173'', ''http://127.0.0.1:5173'']"

section \<open>What the server calls\<close>

record 'b api_env =
  ap_lib :: golib
  ap_xadd :: "'b xadd"
  ap_xgroup_setid :: "bytes \<Rightarrow> bytes \<Rightarrow> bytes \<Rightarrow> 'b \<Rightarrow> error option \<times> 'b"
  ap_pg_ping :: "'b \<Rightarrow> error option \<times> 'b"
  ap_redis_ping :: "'b \<Rightarrow> error option \<times> 'b"
  ap_http :: "'b http_client"
  ap_url_error :: "bytes \<Rightarrow> error option"
  ap_order :: "(bytes \<times> bytes) list \<Rightarrow> (bytes \<times> bytes) list"
  ap_redirect :: "bytes \<Rightarrow> Request \<Rightarrow> Response"
  ap_AIServiceURL :: bytes

definition on_rest :: "('b \<Rightarrow> 'a \<times> 'b) \<Rightarrow> db \<times> 'b \<Rightarrow> 'a \<times> db \<times> 'b" where
  "on_rest f s = (case s of (d, b) \<Rightarrow> case f b of (a, b1) \<Rightarrow> (a, d, b1))"

definition on_tables :: "(db \<Rightarrow> 'a) \<Rightarrow> db \<times> 'b \<Rightarrow> 'a \<times> db \<times> 'b" where
  "on_tables f s = (case s of (d, b) \<Rightarrow> (f d, d, b))"

definition aiTriageClient :: "'b api_env \<Rightarrow> (db \<times> 'b) AITriageClient" where
  "aiTriageClient env =
     (let client = (\<lambda>q. on_rest (ap_http env q))
      in NewAITriageClient client (ap_AIServiceURL env) (Some client))"

definition explainReader :: "pg \<Rightarrow> pg \<Rightarrow> Store \<Rightarrow> (db \<times> 'b) EventExplainReader" where
  "explainReader p p2 s =
     \<lparr>er_EventStatus = (\<lambda>eventID. on_tables (EventStatus_of p s eventID)),
      er_DLQDetail = (\<lambda>eventID. on_tables (DLQDetail_of p2 s eventID))\<rparr>"

section \<open>Reading an event\<close>

definition Event_json :: "event_row \<Rightarrow> json option" where
  "Event_json evt = obj_json
     [(''id'', Some (JStr (ev_id evt))), (''event_type'', Some (JStr (ev_event_type evt))),
      (''source'', Some (JStr (ev_source evt))), (''payload'', raw_json (ev_payload evt)),
      (''created_at'', time_json (of_pg (ev_created_at evt)))]"

definition selectEvent :: "pg \<Rightarrow> bytes \<Rightarrow> db \<Rightarrow> error + event_row" where
  "selectEvent p i d =
     guard p SelectEvent
       (case cast_uuid p i of
          Inl e \<Rightarrow> Inl e
        | Inr u \<Rightarrow> (case find_event d u of None \<Rightarrow> Inl ErrNoRows | Some evt \<Rightarrow> Inr evt))"

definition getEventHandler :: "pg \<Rightarrow> (db \<times> 'b) handler" where
  "getEventHandler p r w =
     (if req_Method r \<noteq> ''GET'' then (method_not_allowed ''GET'', w)
      else
        let i = TrimPrefix (req_Path r) ''/events/'' in
        if i = [] then (http_Error ''event id required'' 400, w)
        else
          case on_tables (selectEvent p i) w of
            (Inl err, w1) \<Rightarrow>
              (if err = ErrNoRows then status_only 404
               else http_Error ''failed to fetch event'' 500, w1)
          | (Inr evt, w1) \<Rightarrow> (json_response 200 (Event_json evt), w1))"

text \<open>The handler of \<open>/events/\<close> looks at the end of the path.\<close>

definition eventsHandler ::
    "'w handler \<Rightarrow> 'w handler \<Rightarrow> 'w handler \<Rightarrow> 'w handler" where
  "eventsHandler eventExplainHandler eventStatusHandler getHandler r w =
     (let path = TrimRightChar (req_Path r) (CHR ''/'') in
      if HasSuffix path ''/explain'' then eventExplainHandler r w
      else if HasSuffix path ''/status'' then eventStatusHandler r w
      else getHandler r w)"

section \<open>Setting the cursor of a consumer group\<close>

record SetGroupCursorRequest =
  sg_Group :: bytes
  sg_StartID :: bytes

definition decodeSetGroupCursorRequest ::
    "(bytes \<times> json \<times> bytes) list \<Rightarrow> SetGroupCursorRequest option" where
  "decodeSetGroupCursorRequest ms =
     (let kvs = plain_members ms in do {
      grp \<leftarrow> get_string ''group'' kvs;
      startID \<leftarrow> get_string ''start_id'' kvs;
      Some \<lparr>sg_Group = grp, sg_StartID = startID\<rparr> })"

definition setCursorHandler :: "'b api_env \<Rightarrow> (db \<times> 'b) handler" where
  "setCursorHandler env r w =
     (if req_Method r \<noteq> ''POST'' then (status_only 405, w)
      else
        case DecodeJSONRequest (ap_lib env) r decodeSetGroupCursorRequest of
          Inl err \<Rightarrow>
            (if IsRequestBodyTooLarge err then http_Error ''request body too large'' 413
             else http_Error ''invalid JSON body'' 400, w)
        | Inr req \<Rightarrow>
        let grp = (if TrimSpace (sg_Group req) = [] then ConsumerGroup else TrimSpace (sg_Group req));
            startID = TrimSpace (sg_StartID req)
        in
        if startID = [] then (http_Error ''start_id is required'' 400, w)
        else
          case on_rest (ap_xgroup_setid env EventStream grp startID) w of
            (Some err, w1) \<Rightarrow> (http_Error ''failed to set group cursor'' 500, w1)
          | (None, w1) \<Rightarrow> (status_only 204, w1))"

section \<open>The server\<close>

definition publishValues :: "'b api_env \<Rightarrow> fields \<Rightarrow> 'b \<Rightarrow> (error + bytes) \<times> 'b" where
  "publishValues env vs = ap_xadd env EventStream vs"

definition dlqHandler :: "'b api_env \<Rightarrow> pg \<Rightarrow> (db \<times> 'b) handler" where
  "dlqHandler env p = NewDLQHandler (ap_lib env) triageResponse_json (operationsDLQStore p (Some True))
     (Some (publishValues env)) (Some (Triage (ap_lib env) (ap_url_error env) (aiTriageClient env)))"

definition readinessHandler :: "'b api_env \<Rightarrow> (db \<times> 'b) handler" where
  "readinessHandler env =
     NewReadinessHandler (Some (on_rest (ap_pg_ping env))) (Some (on_rest (ap_redis_ping env)))"

definition persist :: "'b api_env \<Rightarrow> pg \<Rightarrow> (db \<times> 'b) PersistEventFunc" where
  "persist env p input idempotencyKey s =
     (case s of (d, b) \<Rightarrow>
      case PersistEventWithOutbox (ap_lib env) p input idempotencyKey d of (res, d1) \<Rightarrow> (res, d1, b))"

definition eventExplainHandler :: "'b api_env \<Rightarrow> pg \<Rightarrow> pg \<Rightarrow> (db \<times> 'b) handler" where
  "eventExplainHandler env p p2 = NewEventExplainHandler (ap_lib env) (explainReader p p2 (Some True))
     (Some (Explain (ap_lib env) (ap_url_error env) (ap_order env) (aiTriageClient env)))"

definition replayHandler :: "'b api_env \<Rightarrow> pg \<Rightarrow> (db \<times> 'b) handler" where
  "replayHandler env p = newReplayHandler (ap_lib env) (\<lambda>a. on_tables (replayQuery p a))
     (\<lambda>vs. on_rest (publishValues env vs))"

definition apiRoutes :: "'b api_env \<Rightarrow> pg \<Rightarrow> pg \<Rightarrow> (bytes \<times> (db \<times> 'b) handler) list" where
  "apiRoutes env p p2 =
     [(''/health/live'', NewLivenessHandler),
      (''/health/ready'', readinessHandler env),
      (''/health'', readinessHandler env),
      (''/version'', NewVersionHandler ''eventrail-api'' version build_commit builtAt),
      (''/dlq'', dlqHandler env p),
      (''/dlq/'', dlqHandler env p),
      (''/metrics/summary'', NewMetricsSummaryHandler (on_tables (MetricsSummary_of p (Some True)))),
      (''/events'', NewCreateEventHandler (ap_lib env) (persist env p)),
      (''/events/'', eventsHandler (eventExplainHandler env p p2)
         (NewEventStatusHandler (\<lambda>eventID. on_tables (EventStatus_of p (Some True) eventID)))
         (getEventHandler p)),
      (''/replay'', replayHandler env p),
      (''/consumer-groups/set-cursor'', setCursorHandler env)]"

definition apiHandler :: "'b api_env \<Rightarrow> pg \<Rightarrow> pg \<Rightarrow> (db \<times> 'b) handler" where
  "apiHandler env p p2 = WithCORS (serve_mux (ap_redirect env) (apiRoutes env p p2)) dashboardOrigins"

section \<open>The start of the program\<close>

definition publishNext :: "(nat \<Rightarrow> pg) \<Rightarrow> 'r Publisher \<Rightarrow> 'r world PublishNextFunc" where
  "publishNext srv streamPublisher w =
     (case PublishNextOutboxEvent (srv (wd_tx w)) True (Some (Publish (Some streamPublisher)))
             DefaultOutboxBaseBackoff DefaultOutboxMaxBackoff (wd_db w) (wd_net w) of
        (r, d, n) \<Rightarrow> (r, w\<lparr>wd_db := d, wd_net := n, wd_tx := Suc (wd_tx w)\<rparr>))"

definition workerConfig :: "Config \<Rightarrow> 'w Recorder \<Rightarrow> 'w WorkerConfig" where
  "workerConfig cfg operationsStore =
     \<lparr>wc_Stream = EventStream, wc_ConsumerGroup = ConsumerGroup, wc_Consumer = ConsumerName cfg,
      wc_DLQStream = DLQStream, wc_RetryZSet = RetryZSet, wc_MaxRetries = MaxRetries cfg,
      wc_BaseBackoff = BaseBackoff cfg, wc_Recorder = Some operationsStore\<rparr>"

record 'r app =
  app_worker :: "'r world Worker"
  app_runner :: "'r world Runner"
  app_AIServiceURL :: bytes

text \<open>
  \<open>main\<close> up to the start of the two loops and the server: \<open>Inl\<close> is the error of a
  \<open>log.Fatalf\<close>. The connection to PostgreSQL, \<open>pgxpool.New\<close>, is the argument \<open>newPool\<close>.
\<close>

definition main_setup ::
    "environ \<Rightarrow> (bytes \<Rightarrow> error option) \<Rightarrow> 's migration_files \<Rightarrow> migration_server \<Rightarrow> (nat \<Rightarrow> pg) \<Rightarrow>
     'r worker_env \<Rightarrow> 's schema_db \<times> 'r world \<Rightarrow> (error + 'r app) \<times> 's schema_db \<times> 'r world" where
  "main_setup environ newPool files sv srv env st =
     (case st of (m, w) \<Rightarrow>
      case Load environ of
        Inl e \<Rightarrow> (Inl (ErrWrap ''invalid configuration: '' e []), m, w)
      | Inr cfg \<Rightarrow>
      case newPool (PostgresDSN cfg) of
        Some e \<Rightarrow> (Inl (ErrWrap ''failed to connect to postgres: '' e []), m, w)
      | None \<Rightarrow>
      case Apply files sv m of
        (Some e, m1) \<Rightarrow> (Inl (ErrWrap ''failed to apply PostgreSQL migrations: '' e []), m1, w)
      | (None, m1) \<Rightarrow>
      let worker = New (workerConfig cfg (storeRecorder srv (Some True))) in
      case EnsureConsumerGroup (world_env env) worker w of
        (Some e, w1) \<Rightarrow> (Inl (ErrWrap ''failed to ensure consumer group: '' e []), m1, w1)
      | (None, w1) \<Rightarrow>
      case NewPublisher (Some (rd_xadd (en_redis env))) EventStream of
        Inl e \<Rightarrow> (Inl (ErrWrap ''create Redis stream publisher: '' e []), m1, w1)
      | Inr streamPublisher \<Rightarrow>
      case NewRunner (Some (publishNext srv streamPublisher)) (OutboxPollInterval cfg) (Some (\<lambda>e w. w)) of
        Inl e \<Rightarrow> (Inl (ErrWrap ''create outbox runner: '' e []), m1, w1)
      | Inr outboxRunner \<Rightarrow>
          (Inr \<lparr>app_worker = worker, app_runner = outboxRunner, app_AIServiceURL = AIServiceURL cfg\<rparr>,
           m1, w1))"

end
