(* ===== verification/Api_Requests.thy ===== *)
theory Api_Requests
  imports Api_Main
begin

text \<open>
  What the requests of the server of \<open>cmd/api/main.go\<close> do: each one is a step of the event machine,
  only two kinds of requests change the tables, every resource has one method, and a created event
  can be read back; and what a successful start of the program has done.
\<close>

section \<open>What a request does to the tables\<close>

lemma on_rest_fst: "on_rest f s = (a, s') \<Longrightarrow> fst s' = fst s"
  by (auto simp: on_rest_def split: prod.splits)

lemma on_tables_eq: "on_tables f s = (a, s') \<longleftrightarrow> a = f (fst s) \<and> s' = s"
  by (auto simp: on_tables_def split: prod.splits)

lemma aiTriageClient_fst: "ac_client (aiTriageClient env) q s = (a, s') \<Longrightarrow> fst s' = fst s"
  by (auto simp: aiTriageClient_def NewAITriageClient_def Let_def dest: on_rest_fst)

lemma Triage_fst: "Triage lib ue (aiTriageClient env) q s = (a, s') \<Longrightarrow> fst s' = fst s"
  by (auto simp: Triage_def Let_def split: option.splits prod.splits sum.splits if_splits dest: aiTriageClient_fst)

lemma Explain_fst: "Explain lib ue order (aiTriageClient env) q s = (a, s') \<Longrightarrow> fst s' = fst s"
  by (auto simp: Explain_def Let_def split: option.splits prod.splits sum.splits if_splits dest: aiTriageClient_fst)

lemma readiness_fst: "readinessHandler env r s = (rsp, s') \<Longrightarrow> fst s' = fst s"
  by (auto simp: readinessHandler_def NewReadinessHandler_def dependencyStatus_def Let_def
      split: option.splits prod.splits dest!: on_rest_fst)

lemma explain_fst: "eventExplainHandler env p p2 r s = (rsp, s') \<Longrightarrow> fst s' = fst s"
  by (auto simp: eventExplainHandler_def NewEventExplainHandler_def explainRequestFromStore_def explainReader_def
      Let_def on_tables_eq split: if_splits prod.splits sum.splits dest!: Explain_fst)

lemma events_fst:
  "eventsHandler (eventExplainHandler env p p2)
     (NewEventStatusHandler (\<lambda>eventID. on_tables (EventStatus_of p (Some True) eventID)))
     (getEventHandler p) r s = (rsp, s') \<Longrightarrow> fst s' = fst s"
  by (auto simp: eventsHandler_def NewEventStatusHandler_def getEventHandler_def on_tables_eq Let_def
      split: if_splits option.splits prod.splits sum.splits dest: explain_fst)

lemma replayLoop_fst:
  "(\<And>vs v a v'. pub vs v = (a, v') \<Longrightarrow> fst v' = fst v) \<Longrightarrow>
   replayLoop pub limit rows n cur s = (a, s') \<Longrightarrow> fst s' = fst s"
proof (induction pub limit rows n cur s rule: replayLoop.induct)
  case (2 pub limit row rows n cur w)
  from 2(3) show ?case 
    by (simp split: if_splits prod.splits sum.splits) (metis 2(1,2) prod.inject)+
qed simp

lemma replay_fst: "replayHandler env p r s = (rsp, s') \<Longrightarrow> fst s' = fst s"
  by (auto simp: replayHandler_def newReplayHandler_def replayEvents_def on_tables_eq
      split: if_splits prod.splits sum.splits option.splits dest!: replayLoop_fst [rotated] dest: on_rest_fst)

lemma set_cursor_fst: "setCursorHandler env r s = (rsp, s') \<Longrightarrow> fst s' = fst s"
  by (auto simp: setCursorHandler_def Let_def split: if_splits prod.splits sum.splits option.splits dest!: on_rest_fst)

lemma metrics_fst:
  "NewMetricsSummaryHandler (on_tables (MetricsSummary_of p (Some True))) r s = (rsp, s') \<Longrightarrow> fst s' = fst s"
  by (auto simp: NewMetricsSummaryHandler_def on_tables_eq split: option.splits prod.splits sum.splits)

lemma dlq_effect:
  assumes "dlqHandler env p r (d, b) = (rsp, d', b')" "d' \<noteq> d"
  shows "req_Method r = ''POST'' \<and> (\<exists>e res.
    split_on (CHR ''/'') (TrimChar (TrimPrefix (req_Path r) ''/dlq'') (CHR ''/'')) = [e, ''redrive''] \<and>
    RedriveDLQ p (Some True) e (Some (publishValues env)) d b = (res, d', b'))"
  using assms
  by (auto simp: dlqHandler_def NewDLQHandler_def handleDLQList_def handleDLQDetail_def handleDLQRedrive_def
      handleDLQTriage_def operationsDLQStore_def Let_def
      split: if_splits list.splits option.splits prod.splits sum.splits dest!: Triage_fst)

lemma create_effect:
  assumes "NewCreateEventHandler lib (persist env p) r (d, b) = (rsp, d', b')" "d' \<noteq> d"
  shows "req_Method r = ''POST'' \<and> b' = b \<and>
    (\<exists>input key res. PersistEventWithOutbox (ap_lib env) p input key d = (res, d'))"
  using assms
  by (auto simp: NewCreateEventHandler_def persist_def split: if_splits prod.splits sum.splits)

lemma longest_match_mem:
  "longest_match path routes = Some (pat, h) \<Longrightarrow> (pat, h) \<in> set routes \<and> pattern_matches pat path"
  by (induction path routes rule: longest_match.induct) (auto split: option.splits if_splits)

lemma apiHandler_cases:
  assumes "apiHandler env p p2 r s = (rsp, s')"
  obtains (none) "s' = s" "cleanPath (req_Path r) \<noteq> req_Path r \<or> rsp_Status rsp \<in> {204, 403, 404}" | (route) pat h rsp0 where "(pat, h) \<in> set (apiRoutes env p p2)"
    "pattern_matches pat (req_Path r)" "h r s = (rsp0, s')" "rsp_Status rsp = rsp_Status rsp0" 
proof -
  consider (options) "s' = s" "rsp_Status rsp \<in> {204, 403}"
    | (served) rsp0 where "serve_mux (ap_redirect env) (apiRoutes env p p2) r s = (rsp0, s')"
        "rsp_Status rsp = rsp_Status rsp0"
    using assms by (auto simp: apiHandler_def WithCORS_def Let_def split: if_splits prod.splits)
  then show thesis
  proof cases
    case options
    then show ?thesis using none by auto
  next
    case (served rsp0)
    then consider "s' = s" "cleanPath (req_Path r) \<noteq> req_Path r" | "s' = s" "rsp_Status rsp = 404"
      | pat h where "longest_match (req_Path r) (apiRoutes env p p2) = Some (pat, h)" "h r s = (rsp0, s')"
      by (auto simp: serve_mux_def http_Error_def split: if_splits option.splits)
    then show ?thesis
    proof cases
      case (3 pat h)
      then show ?thesis using longest_match_mem [OF 3(1)] route served(2) by blast
    qed (use none in auto)
  qed
qed

lemma takeWhile_replicate: "takeWhile (\<lambda>x. x = c) s = replicate (length (takeWhile (\<lambda>x. x = c) s)) c"
  by (induction s) auto

lemma TrimChar_ends:
  assumes "TrimChar s c = t"
  obtains i j where "s = replicate i c @ t @ replicate j c"
proof -
  let ?d = "dropWhile (\<lambda>x. x = c) s"
  have "s = replicate (length (takeWhile (\<lambda>x. x = c) s)) c @ ?d"
    by (metis takeWhile_dropWhile_id takeWhile_replicate)
  moreover have "?d = rev (dropWhile (\<lambda>x. x = c) (rev ?d)) @ rev (takeWhile (\<lambda>x. x = c) (rev ?d))"
    by (metis rev_append rev_rev_ident takeWhile_dropWhile_id)
  then have "?d = t @ replicate (length (takeWhile (\<lambda>x. x = c) (rev ?d))) c"
    using assms takeWhile_replicate [of c "rev ?d"] by (metis TrimChar_def TrimRightChar_def rev_replicate)
  ultimately show thesis using that by metis
qed

lemma split_on_join: "concat (map (\<lambda>w. c # w) (split_on c s)) = c # s"
  by (induction s) (auto split: list.splits)

text \<open>The paths of a redrive.\<close>

lemma redrive_path:
  assumes "pattern_matches pat path" "pat = ''/dlq'' \<or> pat = ''/dlq/''"
    "split_on (CHR ''/'') (TrimChar (TrimPrefix path ''/dlq'') (CHR ''/'')) = [e, ''redrive'']"
  obtains i j where "0 < i" "path = ''/dlq'' @ replicate i (CHR ''/'') @ e @ ''/redrive'' @ replicate j (CHR ''/'')"
proof -
  have "path \<noteq> ''/dlq''" using assms(3) by (auto simp: TrimPrefix_def TrimChar_def TrimRightChar_def)
  then obtain t where t: "path = ''/dlq'' @ CHR ''/'' # t"
    using assms(1,2) by (auto simp: pattern_matches_def prefix_def)
  have trim: "TrimChar (CHR ''/'' # t) (CHR ''/'') = e @ ''/redrive''"
    using split_on_join [of "CHR ''/''" "TrimChar (CHR ''/'' # t) (CHR ''/'')"] assms(3) t
    by (simp add: TrimPrefix_def prefix_def)
  have "TrimChar t (CHR ''/'') = e @ ''/redrive''" using trim by (simp add: TrimChar_def)
  then obtain i j where "t = replicate i (CHR ''/'') @ (e @ ''/redrive'') @ replicate j (CHR ''/'')"
    by (rule TrimChar_ends)
  then show thesis using that [of "Suc i" j] t by simp
qed

lemma apiRoutes_cases:
  assumes "(pat, h) \<in> set (apiRoutes env p p2)"
  obtains "h = NewLivenessHandler" | "h = readinessHandler env"
  | "h = NewVersionHandler ''eventrail-api'' version build_commit builtAt"
  | "pat = ''/dlq'' \<or> pat = ''/dlq/''" "h = dlqHandler env p" | "h = NewMetricsSummaryHandler (on_tables (MetricsSummary_of p (Some True)))"
  | "pat = ''/events''" "h = NewCreateEventHandler (ap_lib env) (persist env p)"
  | "h = eventsHandler (eventExplainHandler env p p2)
         (NewEventStatusHandler (\<lambda>eventID. on_tables (EventStatus_of p (Some True) eventID)))
         (getEventHandler p)"
  | "h = replayHandler env p"
  | "h = setCursorHandler env"
  using assms unfolding apiRoutes_def by auto

lemma api_effect:
  assumes "apiHandler env p p2 r (d, b) = (rsp, d', b')" "d' \<noteq> d"
  shows "req_Method r = ''POST'' \<and>
    (req_Path r = ''/events'' \<and> b' = b \<and>
       (\<exists>input key res. PersistEventWithOutbox (ap_lib env) p input key d = (res, d')) \<or>
     (\<exists>i j e res. 0 < i \<and>
       req_Path r = ''/dlq'' @ replicate i (CHR ''/'') @ e @ ''/redrive'' @ replicate j (CHR ''/'') \<and>
       RedriveDLQ p (Some True) e (Some (publishValues env)) d b = (res, d', b')))"
  using assms(1)
proof (cases rule: apiHandler_cases)
  case none
  then show ?thesis using assms(2) by simp
next
  case (route pat h rsp0)
  from route(1) show ?thesis
  proof (cases rule: apiRoutes_cases)
    case 1
    then show ?thesis using route(3) assms(2) by (auto simp: NewLivenessHandler_def split: option.splits)
  next
    case 2
    then show ?thesis using route(3) assms(2) readiness_fst by fastforce
  next
    case 3
    then show ?thesis using route(3) assms(2) by (auto simp: NewVersionHandler_def split: option.splits)
  next
    case 4
    then obtain e res where post: "req_Method r = ''POST''"
      and e: "split_on (CHR ''/'') (TrimChar (TrimPrefix (req_Path r) ''/dlq'') (CHR ''/'')) = [e, ''redrive'']"
      and run: "RedriveDLQ p (Some True) e (Some (publishValues env)) d b = (res, d', b')"
      using dlq_effect [of env p r d b rsp0 d' b'] route(3) assms(2) by auto
    from redrive_path [OF route(2) 4(1) e] post run show ?thesis by metis
  next
    case 5
    then show ?thesis using route(3) assms(2) metrics_fst by fastforce
  next
    case 6
    then have "req_Path r = ''/events''" using route(2) by (simp add: pattern_matches_def)
    then show ?thesis using 6 create_effect [of "ap_lib env" env p r d b rsp0 d' b'] route(3) assms(2) by auto
  next
    case 7
    then show ?thesis using route(3) assms(2) events_fst by fastforce
  next
    case 8
    then show ?thesis using route(3) assms(2) replay_fst by fastforce
  next
    case 9
    then show ?thesis using route(3) assms(2) set_cursor_fst by fastforce
  qed
qed

section \<open>A request is a step of the machine\<close>

lemma redrive_observed:
  assumes "RedriveDLQ p s e (Some pub) d b = (res, d', b')"
  shows "\<exists>log'. RedriveDLQ p s e (Some (observedRedrive pub)) d (b, log) = (res, d', b', log')"
proof -
  have "\<exists>log'. observedRedrive pub vs (b, log) = (fst (pub vs b), snd (pub vs b), log')" for vs
    by (auto simp: observedRedrive_def split: prod.splits sum.splits)
  then obtain l where l: "\<And>vs. observedRedrive pub vs (b, log) = (fst (pub vs b), snd (pub vs b), l vs)"
    by metis
  show ?thesis using assms
    by (auto simp: RedriveDLQ_def l split: if_splits option.splits sum.splits prod.splits)
qed

lemma publishClaimed_observed:
  assumes "publishClaimed p pub bb mb ev d b = (res, d', b')"
  shows "\<exists>log'. publishClaimed p (observed pub) bb mb ev d (b, log) = (res, d', b', log')"
proof -
  obtain x b1 where x: "pub ev b = (x, b1)" by (metis surj_pair)
  then obtain log' where o: "observed pub ev (b, log) = (x, b1, log')"
    by (cases x) (auto simp: observed_def)
  have "publishClaimed p (observed pub) bb mb ev d (b, log) =
      (case publishClaimed p pub bb mb ev d b of (r, d2, b2) \<Rightarrow> (r, d2, b2, log'))"
    by (cases x) (simp_all add: publishClaimed_def x o Let_def split: option.split sum.split prod.split)
  then show ?thesis using assms by simp
qed

lemma publish_observed:
  assumes "PublishNextOutboxEvent p pool (Some pub) bb mb d b = (res, d', b')"
  shows "\<exists>log'. PublishNextOutboxEvent p pool (Some (observed pub)) bb mb d (b, log) = (res, d', b', log')"
proof -
  have "validatePublishNextOutboxConfig pool (Some (observed pub)) bb mb =
      validatePublishNextOutboxConfig pool (Some pub) bb mb"
    by (simp add: validatePublishNextOutboxConfig_def)
  then show ?thesis using assms publishClaimed_observed [of p pub bb mb _ d b res d' b' log]
    by (auto simp: PublishNextOutboxEvent_def split: if_splits option.splits sum.splits)
qed

lemma request_step:
  assumes "server u p" "apiHandler env p p2 r (d, b) = (rsp, d', b')"
  shows "\<exists>log'. sys_step (server u) (d, b, log) (d', b', log')"
proof (cases "d' = d")
  case True
  then show ?thesis using sys_step.broker [of "server u" d b log b'] by auto
next
  case False
  from api_effect [OF assms(2) this] show ?thesis
  proof (elim conjE disjE exE)
    fix input key res assume "b' = b" "PersistEventWithOutbox (ap_lib env) p input key d = (res, d')"
    then show ?thesis using sys_step.ingest [of "server u" p] assms(1) by blast
  next
    fix e res assume "RedriveDLQ p (Some True) e (Some (publishValues env)) d b = (res, d', b')"
    from redrive_observed [OF this] obtain log' where
      "RedriveDLQ p (Some True) e (Some (observedRedrive (publishValues env))) d (b, log) = (res, d', b', log')" by blast
    then show ?thesis using sys_step.redrive [of "server u" p "Some True" e "Some (publishValues env)"] assms(1) by fastforce
  qed
qed

section \<open>Reading back\<close>

lemma find_event_prefix:
  "find_event d1 i = Some row \<Longrightarrow> prefix (events d1) (events d2) \<Longrightarrow> find_event d2 i = Some row"
  by (auto simp: find_event_def prefix_def find_append)

definition id_text :: "bytes \<Rightarrow> bool" where
  "id_text i \<longleftrightarrow> i \<noteq> [] \<and> (\<forall>c \<in> set i. is_hex c \<or> c = CHR ''-'')"

lemma id_text_chars:
  assumes "id_text i"
  shows "CHR ''/'' \<notin> set i" "CHR ''.'' \<notin> set i" "CHR ''n'' \<notin> set i" "CHR ''s'' \<notin> set i" "i \<noteq> []"
  using assms by (auto simp: id_text_def is_hex_def hex_val_def byte_def)

lemma id_text_last:
  assumes "id_text i"
  shows "last i \<noteq> CHR ''/''" "last i \<noteq> CHR ''n''" "last i \<noteq> CHR ''s''"
  using id_text_chars [OF assms] last_in_set [of i] by metis+

lemma clean_event_path:
  assumes "id_text i"
  shows "cleanPath (''/events/'' @ i) = ''/events/'' @ i"
proof -
  have n: "i \<noteq> ''.''" "i \<noteq> ''..''" using id_text_chars(2) [OF assms] by auto
  have "clean_segments (''/events/'' @ i) = [''events'', i]"
    using n id_text_chars [OF assms] by (simp add: clean_segments_def split_on_none)
  then show ?thesis using id_text_last [OF assms] id_text_chars(5) [OF assms] by (simp add: cleanPath_def Let_def)
qed

lemma event_route:
  assumes "id_text i"
  shows "longest_match (''/events/'' @ i) (apiRoutes env p p2) =
    Some (''/events/'', eventsHandler (eventExplainHandler env p p2)
         (NewEventStatusHandler (\<lambda>eventID. on_tables (EventStatus_of p (Some True) eventID)))
         (getEventHandler p))"
  using assms by (simp add: apiRoutes_def pattern_matches_def id_text_def)

lemma get_event_served:
  assumes "id_text i" "req_Method r = ''GET''" "req_Path r = ''/events/'' @ i"
  shows "serve_mux redirect (apiRoutes env p p2) r s = getEventHandler p r s"
proof -
  note l = id_text_last [OF assms(1)] id_text_chars(5) [OF assms(1)]
  from l have "TrimRightChar (''/events/'' @ i) (CHR ''/'') = ''/events/'' @ i"
    by (cases i rule: rev_cases) (auto simp: TrimRightChar_def)
  moreover have "\<not> HasSuffix (''/events/'' @ i) ''/explain''" "\<not> HasSuffix (''/events/'' @ i) ''/status''"
    using l by (cases i rule: rev_cases; auto simp: HasSuffix_def suffix_def)+
  ultimately show ?thesis using assms clean_event_path [OF assms(1)] event_route [OF assms(1), of env p p2]
    by (simp add: serve_mux_def eventsHandler_def Let_def)
qed

lemma create_served:
  "req_Path r = ''/events'' \<Longrightarrow> serve_mux redirect (apiRoutes env p p2) r s =
     NewCreateEventHandler (ap_lib env) (persist env p) r s"
proof -
  have "cleanPath ''/events'' = ''/events''" by code_simp
  then show "req_Path r = ''/events'' \<Longrightarrow> ?thesis"
    by (simp add: serve_mux_def apiRoutes_def pattern_matches_def)
qed

lemma created_row:
  assumes "server u p" "req_Path r = ''/events''" "apiHandler env p p2 r (d, b) = (rsp, d1, b1)" "rsp_Status rsp = 201"
  obtains req row where "DecodeJSONRequest (ap_lib env) r decodeCreateEventRequest = Inr req"
    "ev_id row = pg_event_id p" "ev_event_type row = ce_EventType req" "ev_source row = ce_Source req"
    "ev_payload row = pg_jsonb p (ce_Payload req)" "ev_created_at row = pg_now p"
    "rsp_Body rsp = encode_json (Some (CreateEventResponse (ev_id row) True))"
    "find_event d1 (pg_event_id p) = Some row"
    "\<exists>input key res. PersistEventWithOutbox (ap_lib env) p input key d = (res, d1)"
proof -
  obtain rsp0 where run: "NewCreateEventHandler (ap_lib env) (persist env p) r (d, b) = (rsp0, d1, b1)"
    "rsp_Status rsp0 = 201" "rsp_Body rsp0 = rsp_Body rsp"
    using assms(2-4) by (auto simp: apiHandler_def WithCORS_def Let_def create_served split: if_splits prod.splits)
  from run(2) have "rsp_Status rsp0 = 200 \<or> rsp_Status rsp0 = 201" by simp
  then obtain req res where req: "DecodeJSONRequest (ap_lib env) r decodeCreateEventRequest = Inr req"
    and pst: "persist env p \<lparr>in_EventType = ce_EventType req, in_Source = ce_Source req,
        in_Payload = ce_Payload req\<rparr> (header_get (req_Header r) ''Idempotency-Key'') (d, b) = (Inr res, d1, b1)"
    and rsp: "rsp0 = json_response (if res_Created res then 201 else 200)
       (Some (CreateEventResponse (res_EventID res) (res_Created res)))"
    by (rule handler_success [OF run(1)])
  from pst have per: "PersistEventWithOutbox (ap_lib env) p \<lparr>in_EventType = ce_EventType req, in_Source = ce_Source req,
        in_Payload = ce_Payload req\<rparr> (header_get (req_Header r) ''Idempotency-Key'') d = (Inr res, d1)"
    by (auto simp: persist_def split: prod.splits)
  have c: "res_Created res" using rsp run(2) by (simp add: json_response_def split: if_splits)
  from per assms(1) show thesis
  proof (cases rule: Persist_cases)
    case (created h)
    let ?row = "new_event_row p \<lparr>in_EventType = ce_EventType req, in_Source = ce_Source req,
        in_Payload = ce_Payload req\<rparr> (idem_key (header_get (req_Header r) ''Idempotency-Key'')) h"
    have f: "find_event d1 (pg_event_id p) = Some ?row" 
      using created(3,5) find_event_None [of d "pg_event_id p"]
      by (simp add: find_event_def new_event_row_def find_append)
    have "rsp_Body rsp = encode_json (Some (CreateEventResponse (ev_id ?row) True))"
      using c rsp run(3) created(6) by (auto simp: json_response_def new_event_row_def)
    moreover have "ev_id ?row = pg_event_id p" "ev_event_type ?row = ce_EventType req"
      "ev_source ?row = ce_Source req" "ev_payload ?row = pg_jsonb p (ce_Payload req)" "ev_created_at ?row = pg_now p"
      by (simp_all add: new_event_row_def)
    ultimately show ?thesis using that [OF req] f per by blast
  qed (use c in auto)
qed

lemma event_read:
  assumes "id_text i" "req_Method r = ''GET''" "req_Path r = ''/events/'' @ i"
    and "pg_uuid p i = Some i" "no_faults p" "find_event d i = Some row"
  shows "case apiHandler env p p2 r (d, b) of (rsp, s) \<Rightarrow>
    s = (d, b) \<and> rsp_Status rsp = 200 \<and> rsp_Body rsp = encode_json (Event_json row)"
proof -
  have "selectEvent p i d = Inr row"
    using assms(4-6) by (simp add: selectEvent_def guard_def no_faults_def cast_uuid_def)
  moreover have "TrimPrefix (''/events/'' @ i) ''/events/'' = i" by (simp add: TrimPrefix_def prefix_def)
  ultimately have "getEventHandler p r (d, b) = (json_response 200 (Event_json row), d, b)"
    using assms(2,3) id_text_chars(5) [OF assms(1)] by (simp add: getEventHandler_def on_tables_def)
  then show ?thesis
    by (simp add: get_event_served [OF assms(1-3)] apiHandler_def WithCORS_def assms(2) json_response_def Let_def)
qed

section \<open>Methods\<close>

text \<open>The method of every resource of the API, for an event identifier \<open>i\<close>.\<close>

definition api_methods :: "bytes \<Rightarrow> (bytes \<times> bytes) list" where
  "api_methods i =
     [(''/health/live'', ''GET''), (''/health/ready'', ''GET''), (''/health'', ''GET''), (''/version'', ''GET''),
      (''/metrics/summary'', ''GET''), (''/events'', ''POST''), (''/replay'', ''POST''),
      (''/consumer-groups/set-cursor'', ''POST''), (''/events/'' @ i, ''GET''), (''/events/'' @ i @ ''/status'', ''GET''),
      (''/events/'' @ i @ ''/explain'', ''POST''), (''/dlq'', ''GET''), (''/dlq/'' @ i, ''GET''),
      (''/dlq/'' @ i @ ''/redrive'', ''POST''), (''/dlq/'' @ i @ ''/triage'', ''POST'')]"

text \<open>A handler that answers 405, without any effect, to other methods, and to these only.\<close>

definition only_method :: "bytes \<Rightarrow> Request \<Rightarrow> 'w handler \<Rightarrow> bool" where
  "only_method m r h \<longleftrightarrow> (\<forall>s. case h r s of (rsp, s') \<Rightarrow>
     (rsp_Status rsp = 405 \<longleftrightarrow> req_Method r \<noteq> m) \<and> (req_Method r \<noteq> m \<longrightarrow> s' = s))"

lemmas method_simps = only_method_def json_response_def http_Error_def method_not_allowed_def status_only_def
  writeJSON_def requireGet_def Let_def

lemma only_method_small:
  "only_method ''GET'' r NewLivenessHandler" "only_method ''GET'' r (NewReadinessHandler c1 c2)"
  "only_method ''GET'' r (NewVersionHandler sv v c bt)" "only_method ''GET'' r (NewMetricsSummaryHandler mr)"
  "only_method ''GET'' r (NewEventStatusHandler st)" "only_method ''POST'' r (setCursorHandler env)"
  "only_method ''GET'' r (getEventHandler p)"
  by (auto simp: method_simps NewLivenessHandler_def NewReadinessHandler_def NewVersionHandler_def
      NewMetricsSummaryHandler_def NewEventStatusHandler_def setCursorHandler_def getEventHandler_def
      split: option.splits prod.splits sum.splits)

lemma only_method_large:
  "only_method ''POST'' r (NewCreateEventHandler lib pst)" "only_method ''POST'' r (NewEventExplainHandler lib rd cl)"
  "only_method ''POST'' r (newReplayHandler lib qe pub)"
  by (auto simp: method_simps NewCreateEventHandler_def NewEventExplainHandler_def newReplayHandler_def replayEvents_def
      split: option.splits prod.splits sum.splits)

lemma only_method_dlq:
  "only_method ''GET'' r (handleDLQList store)" "only_method ''GET'' r (handleDLQDetail store i)"
  "only_method ''POST'' r (handleDLQRedrive store pub i)" "only_method ''POST'' r (handleDLQTriage lib tj store cl i)"
  by (auto simp: method_simps handleDLQList_def handleDLQDetail_def handleDLQRedrive_def handleDLQTriage_def
      split: option.splits prod.splits sum.splits)

lemma clean_id_path:
  assumes "id_text i" "CHR ''/'' \<notin> set a" "CHR ''/'' \<notin> set b" "a \<notin> {[], ''.'', ''..''}" "b \<notin> {[], ''.'', ''..''}"
  shows "cleanPath (CHR ''/'' # a @ CHR ''/'' # i) = CHR ''/'' # a @ CHR ''/'' # i"
    "cleanPath (CHR ''/'' # a @ CHR ''/'' # i @ CHR ''/'' # b) = CHR ''/'' # a @ CHR ''/'' # i @ CHR ''/'' # b"
proof -
  have i: "CHR ''/'' \<notin> set i" "i \<notin> {[], ''.'', ''..''}" "last i \<noteq> CHR ''/''"
    using id_text_chars [OF assms(1)] id_text_last [OF assms(1)] by auto
  have b: "last b \<noteq> CHR ''/''" using assms(3,5) by (metis insertI1 last_in_set)
  show "cleanPath (CHR ''/'' # a @ CHR ''/'' # i) = CHR ''/'' # a @ CHR ''/'' # i"
    "cleanPath (CHR ''/'' # a @ CHR ''/'' # i @ CHR ''/'' # b) = CHR ''/'' # a @ CHR ''/'' # i @ CHR ''/'' # b"
    using assms i b
    by (simp_all add: cleanPath_def clean_segments_def split_on_append split_on_none Let_def)
qed

lemma TrimRightChar_id: "t \<noteq> [] \<Longrightarrow> last t \<noteq> c \<Longrightarrow> TrimRightChar (s @ t) c = s @ t"
  by (cases t rule: rev_cases) (simp_all add: TrimRightChar_def)

lemma dlq_method:
  assumes "id_text i" "(req_Path r, m) \<in> {(''/dlq'', ''GET''), (''/dlq/'' @ i, ''GET''),
    (''/dlq/'' @ i @ ''/redrive'', ''POST''), (''/dlq/'' @ i @ ''/triage'', ''POST'')}"
  shows "only_method m r (NewDLQHandler lib tj store pub cl)"
proof -
  note i = id_text_chars [OF assms(1)] id_text_last(1) [OF assms(1)]
  have hd: "dropWhile (\<lambda>x. x = CHR ''/'') (i @ t) = i @ t" for t using i(1,5) by (cases i) auto
  have trim: "TrimChar (CHR ''/'' # i @ t) (CHR ''/'') = i @ t" if "t = [] \<or> last t \<noteq> CHR ''/''" for t
    using that i(5,6) TrimRightChar_id [of "i @ t" "CHR ''/''" "[]"] hd [of "[]"] by (cases "t = []") (auto simp: TrimChar_def hd)
  have split: "split_on (CHR ''/'') (i @ CHR ''/'' # t) = [i, t]" if "CHR ''/'' \<notin> set t" for t
    using that i(1) by (simp add: split_on_append split_on_none)
  have prefix: "TrimPrefix (''/dlq'' @ t) ''/dlq'' = t" for t by (simp add: TrimPrefix_def prefix_def)
  consider (list) "req_Path r = ''/dlq'' @ []" "m = ''GET''" | (detail) "req_Path r = ''/dlq'' @ CHR ''/'' # i @ []" "m = ''GET''"
    | (redrive) "req_Path r = ''/dlq'' @ CHR ''/'' # i @ ''/redrive''" "m = ''POST''"
    | (triage) "req_Path r = ''/dlq'' @ CHR ''/'' # i @ ''/triage''" "m = ''POST''"
    using assms(2) by auto
  then show ?thesis
  proof cases
    case list
    have "NewDLQHandler lib tj store pub cl r s = handleDLQList store r s" for s
      unfolding NewDLQHandler_def list(1) prefix by (simp add: TrimChar_def TrimRightChar_def)
    then show ?thesis using only_method_dlq(1) list(2) by (simp add: only_method_def)
  next
    case detail
    have "NewDLQHandler lib tj store pub cl r s = handleDLQDetail store i r s" for s
      unfolding NewDLQHandler_def detail(1) prefix using trim [of "[]"] i by (simp add: split_on_none)
    then show ?thesis using only_method_dlq(2) detail(2) by (simp add: only_method_def)
  next
    case redrive
    have "NewDLQHandler lib tj store pub cl r s = handleDLQRedrive store pub i r s" for s
      unfolding NewDLQHandler_def redrive(1) prefix using trim [of "''/redrive''"] split [of "''redrive''"] i by simp
    then show ?thesis using only_method_dlq(3) redrive(2) by (simp add: only_method_def)
  next
    case triage
    have "NewDLQHandler lib tj store pub cl r s = handleDLQTriage lib tj store cl i r s" for s
      unfolding NewDLQHandler_def triage(1) prefix using trim [of "''/triage''"] split [of "''triage''"] i by simp
    then show ?thesis using only_method_dlq(4) triage(2) by (simp add: only_method_def)
  qed
qed

lemma events_method:
  assumes "id_text i" "(req_Path r, m) \<in> {(''/events/'' @ i, ''GET''), (''/events/'' @ i @ ''/status'', ''GET''),
    (''/events/'' @ i @ ''/explain'', ''POST'')}"
    "only_method ''POST'' r ex" "only_method ''GET'' r st" "only_method ''GET'' r gt"
  shows "only_method m r (eventsHandler ex st gt)"
proof -
  note l = id_text_last [OF assms(1)] id_text_chars(5) [OF assms(1)]
  have no: "\<not> HasSuffix (''/events/'' @ i) ''/explain''" "\<not> HasSuffix (''/events/'' @ i) ''/status''"
    using l by (cases i rule: rev_cases; auto simp: HasSuffix_def suffix_def)+
  have suf: "HasSuffix (u @ t) t" "\<not> HasSuffix (u @ ''/status'') ''/explain''" for u t
    by (auto simp: HasSuffix_def suffix_def)
  have t: "TrimRightChar (''/events/'' @ i) (CHR ''/'') = ''/events/'' @ i"
    "TrimRightChar ((''/events/'' @ i) @ ''/status'') (CHR ''/'') = (''/events/'' @ i) @ ''/status''"
    "TrimRightChar ((''/events/'' @ i) @ ''/explain'') (CHR ''/'') = (''/events/'' @ i) @ ''/explain''"
    using l by (intro TrimRightChar_id; simp)+
  consider (get) "req_Path r = ''/events/'' @ i" "m = ''GET''"
    | (status) "req_Path r = (''/events/'' @ i) @ ''/status''" "m = ''GET''"
    | (explain) "req_Path r = (''/events/'' @ i) @ ''/explain''" "m = ''POST''"
    using assms(2) by auto
  then show ?thesis
  proof cases
    case get
    have "eventsHandler ex st gt r s = gt r s" for s unfolding eventsHandler_def get(1) t Let_def using no by simp
    then show ?thesis using assms(5) get(2) by (simp add: only_method_def)
  next
    case status
    have "eventsHandler ex st gt r s = st r s" for s
      unfolding eventsHandler_def status(1) t Let_def by (simp only: suf if_False if_True not_False_eq_True)
    then show ?thesis using assms(4) status(2) by (simp add: only_method_def)
  next
    case explain
    have "eventsHandler ex st gt r s = ex r s" for s
      unfolding eventsHandler_def explain(1) t Let_def by (simp only: suf if_True)
    then show ?thesis using assms(3) explain(2) by (simp add: only_method_def)
  qed
qed

lemma fixed_matches:
  "longest_match ''/health/live'' (apiRoutes env p p2) = Some (''/health/live'', NewLivenessHandler)"
  "longest_match ''/health/ready'' (apiRoutes env p p2) = Some (''/health/ready'', readinessHandler env)"
  "longest_match ''/health'' (apiRoutes env p p2) = Some (''/health'', readinessHandler env)"
  "longest_match ''/version'' (apiRoutes env p p2) =
     Some (''/version'', NewVersionHandler ''eventrail-api'' version build_commit builtAt)"
  "longest_match ''/metrics/summary'' (apiRoutes env p p2) =
     Some (''/metrics/summary'', NewMetricsSummaryHandler (on_tables (MetricsSummary_of p (Some True))))"
  "longest_match ''/events'' (apiRoutes env p p2) = Some (''/events'', NewCreateEventHandler (ap_lib env) (persist env p))"
  "longest_match ''/replay'' (apiRoutes env p p2) = Some (''/replay'', replayHandler env p)"
  "longest_match ''/consumer-groups/set-cursor'' (apiRoutes env p p2) =
     Some (''/consumer-groups/set-cursor'', setCursorHandler env)"
  "longest_match ''/dlq'' (apiRoutes env p p2) = Some (''/dlq'', dlqHandler env p)"
  by (simp_all add: apiRoutes_def pattern_matches_def)

lemma below_matches:
  "t \<noteq> [] \<Longrightarrow> longest_match (''/events/'' @ t) (apiRoutes env p p2) = Some (''/events/'',
     eventsHandler (eventExplainHandler env p p2)
       (NewEventStatusHandler (\<lambda>eventID. on_tables (EventStatus_of p (Some True) eventID))) (getEventHandler p))"
  "t \<noteq> [] \<Longrightarrow> longest_match (''/dlq/'' @ t) (apiRoutes env p p2) = Some (''/dlq/'', dlqHandler env p)"
  by (simp_all add: apiRoutes_def pattern_matches_def)

lemma fixed_methods:
  "only_method ''GET'' r (readinessHandler env)" "only_method ''POST'' r (replayHandler env p)"
  by (simp_all only: readinessHandler_def replayHandler_def only_method_small only_method_large)

lemma fixed_routes:
  assumes "(req_Path r, m) \<in> set (take 8 (api_methods i))"
  shows "\<exists>h pat. cleanPath (req_Path r) = req_Path r \<and> longest_match (req_Path r) (apiRoutes env p p2) = Some (pat, h) \<and>
    only_method m r h"
proof -
  have c: "list_all (\<lambda>x. cleanPath x = x) (map fst (take 8 (api_methods [])))" by code_simp
  have p: "map fst (take 8 (api_methods i)) = map fst (take 8 (api_methods []))" by (simp add: api_methods_def)
  have "req_Path r \<in> set (map fst (take 8 (api_methods i)))"
    using assms by (metis (no_types, lifting) fst_conv image_eqI list.set_map)
  then have "cleanPath (req_Path r) = req_Path r" using c unfolding p list_all_iff by blast
  moreover have "\<exists>pat h. longest_match (req_Path r) (apiRoutes env p p2) = Some (pat, h) \<and> only_method m r h"
    using assms unfolding api_methods_def
    by (simp add: numeral_eq_Suc)
      (elim disjE conjE; simp only: fixed_matches; blast intro: only_method_small only_method_large fixed_methods)
  ultimately show ?thesis by blast
qed

lemma id_routes:
  assumes "id_text i" "(req_Path r, m) \<in> set (drop 8 (api_methods i))"
  shows "\<exists>h pat. cleanPath (req_Path r) = req_Path r \<and> longest_match (req_Path r) (apiRoutes env p p2) = Some (pat, h) \<and>
    only_method m r h"
proof -
  note clean = clean_id_path [OF assms(1), where a = "''events''" and b = "''status''"]
    clean_id_path(2) [OF assms(1), where a = "''events''" and b = "''explain''"]
    clean_id_path [OF assms(1), where a = "''dlq''" and b = "''redrive''"]
    clean_id_path(2) [OF assms(1), where a = "''dlq''" and b = "''triage''"]
  have "cleanPath ''/dlq'' = ''/dlq''" by code_simp
  then have c: "cleanPath (req_Path r) = req_Path r" using assms(2) clean by (auto simp: api_methods_def)
  have i: "i \<noteq> []" using id_text_chars(5) [OF assms(1)] .
  consider (events) "(req_Path r, m) \<in> {(''/events/'' @ i, ''GET''), (''/events/'' @ i @ ''/status'', ''GET''),
      (''/events/'' @ i @ ''/explain'', ''POST'')}"
    | (dlq) "(req_Path r, m) \<in> {(''/dlq'', ''GET''), (''/dlq/'' @ i, ''GET''), (''/dlq/'' @ i @ ''/redrive'', ''POST''),
      (''/dlq/'' @ i @ ''/triage'', ''POST'')}"
    using assms(2) by (auto simp: api_methods_def)
  then show ?thesis
  proof cases
    case events
    have "only_method m r (eventsHandler (eventExplainHandler env p p2)
         (NewEventStatusHandler (\<lambda>eventID. on_tables (EventStatus_of p (Some True) eventID))) (getEventHandler p))"
      unfolding eventExplainHandler_def
      by (rule events_method [OF assms(1) events only_method_large(2) only_method_small(5,7)])
    moreover have "longest_match (req_Path r) (apiRoutes env p p2) = Some (''/events/'',
        eventsHandler (eventExplainHandler env p p2)
         (NewEventStatusHandler (\<lambda>eventID. on_tables (EventStatus_of p (Some True) eventID))) (getEventHandler p))"
      using events i by (elim insertE emptyE) (simp_all only: prod.inject below_matches append_is_Nil_conv simp_thms)
    ultimately show ?thesis using c by blast
  next
    case dlq
    have "only_method m r (dlqHandler env p)" unfolding dlqHandler_def by (rule dlq_method [OF assms(1) dlq])
    moreover have "\<exists>pat. longest_match (req_Path r) (apiRoutes env p p2) = Some (pat, dlqHandler env p)"
      using dlq i by (elim insertE emptyE) (simp_all only: prod.inject fixed_matches below_matches append_is_Nil_conv simp_thms, blast+)
    ultimately show ?thesis using c by blast
  qed
qed

section \<open>An example\<close>

definition example_api :: "'b api_env" where
  "example_api = \<lparr>ap_lib = plain_lib, ap_xadd = (\<lambda>_ _ b. (Inr ''1-0'', b)),
     ap_xgroup_setid = (\<lambda>_ _ _ b. (None, b)), ap_pg_ping = (\<lambda>b. (None, b)),
     ap_redis_ping = (\<lambda>b. (None, b)), ap_http = (\<lambda>_ b. (Inl io_EOF, b)), ap_url_error = (\<lambda>_. None),
     ap_order = (\<lambda>fs. fs), ap_redirect = (\<lambda>path r. status_only 301), ap_AIServiceURL = ''http://ai''\<rparr>"

lemma create_tables:
  "NewCreateEventHandler lib (persist env p) r (d, b) =
     (case NewCreateEventHandler lib (PersistEventWithOutbox (ap_lib env) p) r d of (rsp, d1) \<Rightarrow> (rsp, d1, b))"
  by (simp add: NewCreateEventHandler_def persist_def split: sum.split prod.split)

lemma example_api_post:
  "apiHandler example_api example_server p2 example_post (empty_db, ()) =
     (with_headers [] (json_response 201 (Some (CreateEventResponse ''e1'' True))), example_db, ())"
proof -
  have "req_Path example_post = ''/events''" "ap_lib (example_api :: unit api_env) = plain_lib" "TrimSpace [] = []"
    "req_Method example_post = ''POST''" "header_get (req_Header example_post) ''Origin'' = []"
    by (simp_all add: example_post_def example_api_def)
  then show ?thesis
    by (simp add: apiHandler_def WithCORS_def create_served create_tables example_post_first cors_allowed_mem Let_def)
qed

section \<open>Properties\<close>

text \<open>
  C4: Every request is a step. Whatever the request and the faults of the server, what it does to the
  tables and to the world outside is one step of the event machine; the log of what was sent is only
  an observation. With the invariants of the machine, the tables therefore stay consistent under
  every request.
\<close>

theorem request_is_step:
  assumes "server u p" "apiHandler env p p2 r (d, b) = (rsp, d', b')"
  shows "\<exists>log'. sys_step (server u) (d, b, log) (d', b', log')"
  using request_step [OF assms] .

theorem request_is_step_witness: "\<exists>log'. sys_step (server Some) (empty_db, (), []) (example_db, (), log')"
  by (rule request_is_step [OF example_servers(1) example_api_post])

text \<open>
  C21: Only two kinds of requests change the tables: \<open>POST /events\<close>, which calls the ingestion store once and leaves
  the broker alone, and \<open>POST /dlq/{id}/redrive\<close>, which calls the redrive of this identifier once
  (slashes around the identifier and at the end are cut off). No request with another method or path
  changes them, the replay and the cursor of a consumer group included.
\<close>

theorem tables_change_only_by:
  assumes "apiHandler env p p2 r (d, b) = (rsp, d', b')" "d' \<noteq> d"
  shows "req_Method r = ''POST'' \<and>
    (req_Path r = ''/events'' \<and> b' = b \<and>
       (\<exists>input key res. PersistEventWithOutbox (ap_lib env) p input key d = (res, d')) \<or>
     (\<exists>i j e res. 0 < i \<and>
       req_Path r = ''/dlq'' @ replicate i (CHR ''/'') @ e @ ''/redrive'' @ replicate j (CHR ''/'') \<and>
       RedriveDLQ p (Some True) e (Some (publishValues env)) d b = (res, d', b')))"
  using api_effect [OF assms] .

theorem tables_change_only_by_witness:
  "req_Method example_post = ''POST'' \<and>
    (req_Path example_post = ''/events'' \<and> () = () \<and>
       (\<exists>input key res. PersistEventWithOutbox (ap_lib (example_api :: unit api_env)) example_server input key empty_db =
          (res, example_db)) \<or>
     (\<exists>i j e res. 0 < i \<and>
       req_Path example_post = ''/dlq'' @ replicate i (CHR ''/'') @ e @ ''/redrive'' @ replicate j (CHR ''/'') \<and>
       RedriveDLQ example_server (Some True) e (Some (publishValues example_api)) empty_db () = (res, example_db, ())))"
proof -
  have "events example_db \<noteq> events empty_db" by code_simp
  then have "example_db \<noteq> empty_db" by auto
  from tables_change_only_by [OF example_api_post this] show ?thesis .
qed

text \<open>
  C12: A created event can be read back. If \<open>POST /events\<close> is answered with 201, then at any later time \<open>GET
  /events/{id}\<close> with the identifier of the answer is answered with 200 and the event type, the
  source and the payload of the request (as PostgreSQL returns the \<open>jsonb\<close> value), and changes nothing.
\<close>

theorem created_event_readable:
 assumes "lifecycle_ok u d" "server u p" "id_text (pg_event_id p)" "req_Path r = ''/events''"
    and "apiHandler env p p2 r (d, b) = (rsp, d1, b1)" "rsp_Status rsp = 201"
    and "sys_reach (server u) (d1, b1, log) (d2, b2, log2)" "server u p3" "no_faults p3"
    and "req_Method r3 = ''GET''" "req_Path r3 = ''/events/'' @ pg_event_id p"
 shows "\<exists>req. DecodeJSONRequest (ap_lib env) r decodeCreateEventRequest = Inr req \<and>
   rsp_Body rsp = encode_json (Some (JObj [(''id'', JStr (pg_event_id p)), (''created'', JBool True)])) \<and>
   (case apiHandler env p3 p4 r3 (d2, b2) of (rsp3, s3) \<Rightarrow>
      s3 = (d2, b2) \<and> rsp_Status rsp3 = 200 \<and>
      rsp_Body rsp3 = encode_json (obj_json
        [(''id'', Some (JStr (pg_event_id p))), (''event_type'', Some (JStr (ce_EventType req))),
         (''source'', Some (JStr (ce_Source req))), (''payload'', raw_json (pg_jsonb p (ce_Payload req))),
         (''created_at'', time_json (of_pg (pg_now p)))]))"
  using assms(2,4,5,6)
proof (rule created_row)
  fix req row
  assume row: "DecodeJSONRequest (ap_lib env) r decodeCreateEventRequest = Inr req"
    "ev_id row = pg_event_id p" "ev_event_type row = ce_EventType req" "ev_source row = ce_Source req"
    "ev_payload row = pg_jsonb p (ce_Payload req)" "ev_created_at row = pg_now p"
    "rsp_Body rsp = encode_json (Some (CreateEventResponse (ev_id row) True))"
    and f: "find_event d1 (pg_event_id p) = Some row"
    and per: "\<exists>input key res. PersistEventWithOutbox (ap_lib env) p input key d = (res, d1)"
  have "lifecycle_ok u d1" using Persist_lifecycle [OF assms(1,2)] per by (metis snd_conv)
  then have "prefix (events d1) (events d2)"
    using sys_reach_extends [OF assms(7), of u] by (simp add: extends_def)
  with f have "find_event d2 (pg_event_id p) = Some row" by (rule find_event_prefix)
  moreover have "pg_uuid p3 (pg_event_id p) = Some (pg_event_id p)" using assms(2,8) by (auto simp: server_def)
  ultimately have "case apiHandler env p3 p4 r3 (d2, b2) of (rsp3, s3) \<Rightarrow>
      s3 = (d2, b2) \<and> rsp_Status rsp3 = 200 \<and> rsp_Body rsp3 = encode_json (Event_json row)"
    by (intro event_read [OF assms(3,10,11) _ assms(9)])
  then show ?thesis using row by (intro exI [of _ req]) (simp add: Event_json_def CreateEventResponse_def)
qed

definition example_get :: Request where
  "example_get = \<lparr>req_Method = ''GET'', req_Path = ''/events/e1'', req_Query = [], req_Header = [],
     req_Body = [], req_BodyError = None\<rparr>"

theorem created_event_readable_witness:
  "rsp_Body (fst (apiHandler example_api example_server example_server example_get (published_example, ()))) =
     encode_json (Some (JObj [(''id'', JStr ''e1''), (''event_type'', JStr ''t''), (''source'', JStr ''s''),
       (''payload'', JNum ''1''), (''created_at'', JStr ''1970-01-01T00:00:00Z'')]))"
proof -
  have i: "pg_event_id example_server = ''e1''" "pg_now example_server = 0" "pg_jsonb example_server = (\<lambda>x. x)"
    by (simp_all add: example_server_def quiet_pg_def)
  have t: "id_text (pg_event_id example_server)" unfolding i by code_simp
  have p: "req_Path example_post = ''/events''" by (simp add: example_post_def)
  have s: "rsp_Status (with_headers [] (json_response 201 x)) = 201" for x by (simp add: json_response_def)
  have g: "req_Method example_get = ''GET''" "req_Path example_get = ''/events/'' @ pg_event_id example_server"
    by (simp_all add: example_get_def i)
  have lib: "ap_lib (example_api :: unit api_env) = plain_lib" by (simp add: example_api_def)
  obtain rsp s3 where run: "apiHandler example_api example_server example_server example_get (published_example, ()) =
      (rsp, s3)" by (metis surj_pair)
  have "raw_json ''1'' = Some (JNum ''1'')" "time_json (of_pg 0) = Some (JStr ''1970-01-01T00:00:00Z'')" by code_simp+
  with created_event_readable [OF lifecycle_empty example_servers(1) t p example_api_post s example_run(2)
      example_servers(1,2) g, of example_server]
  show ?thesis unfolding run by (simp add: lib example_post_decoded i obj_json_def)
qed

text \<open>
  C39: Every resource has one method. For the resources of the API and an event identifier, a request other than
  \<open>OPTIONS\<close>, which is answered before the routes, is answered with 405 if and only if its method is not the
  one of the resource, and then it changes neither the tables nor anything outside.
\<close>

theorem one_method_per_resource:
  assumes "id_text i" "(req_Path r, m) \<in> set (api_methods i)" "req_Method r \<noteq> ''OPTIONS''"
    and "apiHandler env p p2 r s = (rsp, s')"
  shows "(rsp_Status rsp = 405 \<longleftrightarrow> req_Method r \<noteq> m) \<and> (req_Method r \<noteq> m \<longrightarrow> s' = s)"
proof -
  have "(req_Path r, m) \<in> set (take 8 (api_methods i)) \<union> set (drop 8 (api_methods i))"
    using assms(2) by (metis append_take_drop_id set_append)
  then obtain h pat where h: "cleanPath (req_Path r) = req_Path r" "only_method m r h"
    "longest_match (req_Path r) (apiRoutes env p p2) = Some (pat, h)"
    using fixed_routes [of r m i env p p2] id_routes [OF assms(1), of r m env p p2] by blast
  obtain rsp0 where rsp0: "h r s = (rsp0, s')" "rsp_Status rsp = rsp_Status rsp0"
    using assms(3,4) h(1,3) by (auto simp: apiHandler_def WithCORS_def serve_mux_def Let_def split: prod.splits)
  have "case h r s of (rsp, s') \<Rightarrow> (rsp_Status rsp = 405 \<longleftrightarrow> req_Method r \<noteq> m) \<and> (req_Method r \<noteq> m \<longrightarrow> s' = s)"
    using h(2) unfolding only_method_def by (rule spec)
  then show ?thesis using rsp0 by simp
qed

theorem one_method_per_resource_witness:
  "rsp_Status (fst (apiHandler example_api example_server example_server (example_get\<lparr>req_Method := ''PUT''\<rparr>)
     (published_example, ()))) = 405"
proof -
  have "id_text ''e1''" by code_simp
  moreover have "(req_Path (example_get\<lparr>req_Method := ''PUT''\<rparr>), ''GET'') \<in> set (api_methods ''e1'')"
    by (simp add: example_get_def api_methods_def)
  ultimately show ?thesis
    using one_method_per_resource [OF _ _ _ surjective_pairing, of "''e1''" "example_get\<lparr>req_Method := ''PUT''\<rparr>" "''GET''"
        example_api example_server example_server "(published_example, ())"] by simp
qed

text \<open>
  C24: A successful start. When \<open>main\<close> comes to its loops, the configuration was loaded and the pool
  opened; every migration has been applied, each once, to the schema there was; the poll interval of the
  outbox is positive; the consumer group was created on the stream of the events or was there
  already; and no row was touched. (The migrations act on the schema, a part of the state of its own beside the rows.)
\<close>

theorem startup_complete:
  assumes "main_setup environ newPool files sv srv env (m, w) = (Inr a, m', w')" "migrated files s0 m"
  shows "\<exists>cfg. Load environ = Inr cfg \<and> newPool (PostgresDSN cfg) = None \<and>
    migrated files s0 m' \<and> set (migrationNames files) \<subseteq> set (recorded m') \<and>
    wd_db w' = wd_db w \<and> 0 < OutboxPollInterval cfg \<and> rn_pollInterval (app_runner a) = OutboxPollInterval cfg \<and>
    wc_Stream (wk_config (app_worker a)) = ''eventrail.events'' \<and>
    (\<exists>e. rd_xgroup_create_mkstream (en_redis env) ''eventrail.events'' ''eventrail.cg'' ''0'' (wd_net w) = (e, wd_net w') \<and>
       (e = None \<or> (\<exists>x. e = Some x \<and> contains (error_text x) ''BUSYGROUP'')))"
proof -
  obtain cfg m1 w1 pub where 
    l: "Load environ = Inr cfg" "newPool (PostgresDSN cfg) = None" "Apply files sv m = (None, m')"
    and e: "EnsureConsumerGroup (world_env env) (New (workerConfig cfg (storeRecorder srv (Some True)))) w = (None, w')"
    and p: "NewPublisher (Some (rd_xadd (en_redis env))) EventStream = Inr pub"
    and r: "NewRunner (Some (publishNext srv pub)) (OutboxPollInterval cfg) (Some (\<lambda>e w. w)) = Inr (app_runner a)"
    and a: "app_worker a = New (workerConfig cfg (storeRecorder srv (Some True)))"
    using assms(1) by (auto simp: main_setup_def Let_def split: sum.splits option.splits prod.splits)
  have "set (migrationNames files) \<subseteq> set (recorded m') \<and> migrated files s0 m'"
    using Apply_migrated [OF l(3) assms(2)] by auto
  moreover have "0 < OutboxPollInterval cfg \<and> rn_pollInterval (app_runner a) = OutboxPollInterval cfg"
    using r by (auto simp: NewRunner_def split: if_splits dest!: sym [of _ "app_runner a"])
  moreover have "wd_db w' = wd_db w \<and> (\<exists>e. rd_xgroup_create_mkstream (en_redis env) ''eventrail.events'' ''eventrail.cg'' ''0'' (wd_net w) =
        (e, wd_net w') \<and> (e = None \<or> (\<exists>x. e = Some x \<and> contains (error_text x) ''BUSYGROUP'')))"
    using e by (auto simp: EnsureConsumerGroup_def world_env_def world_redis_def on_net_def New_def workerConfig_def
        EventStream_def ConsumerGroup_def split: prod.splits option.splits if_splits)
  ultimately show ?thesis using l a by (auto simp: New_def workerConfig_def EventStream_def)
qed

theorem startup_complete_witness:
  "case main_setup [''POSTGRES_DSN'' \<mapsto> ''postgres://db'', ''REDIS_ADDR'' \<mapsto> ''redis:6379''] (\<lambda>_. None)
       example_files quiet_migrations (\<lambda>_. example_server) example_env
       (\<lparr>md_applied = None, md_schema = []\<rparr>, example_world) of
     (res, m, w) \<Rightarrow> set (migrationNames example_files) \<subseteq> set (recorded m) \<and> wd_db w = example_db"
  (is "case ?run of (res, m, w) \<Rightarrow> ?P m w")
proof -
  have "\<not> isl (fst ?run)" by code_simp
  then obtain a m w where run: "?run = (Inr a, m, w)" by (cases ?run; cases "fst ?run") auto
  have "migrated example_files [] \<lparr>md_applied = None, md_schema = []\<rparr>" by (simp add: migrated_def recorded_def)
  from startup_complete [OF run this] show ?thesis using run by (auto simp: example_world_def)
qed

end
