(* ===== verification/Stream_View.thy ===== *)
theory Stream_View
  imports Api_Requests
begin

text \<open>
  What the stream has received. The locale \<open>stream_view\<close> is the interface between the program and the
  network as far as the stream \<open>eventrail.events\<close> goes: a view of the network that no call
  shrinks and to which an accepted \<open>XADD\<close> adds the event it carries. It is
  interpreted on a network with a record of the accepted entries, whatever the network itself does.
\<close>

section \<open>Publishers are called at most once\<close>

lemma redrive_calls:
  assumes "RedriveDLQ p s e (Some f) d w = (res, d', w')"
  shows "w' = w \<or> (\<exists>vs. w' = snd (f vs w))"
  using assms
proof (cases rule: RedriveDLQ_outcome)
  case (redriven q ev sid g)
  then show ?thesis by (metis option.inject snd_conv)
qed auto

lemma publishClaimed_calls: "snd (snd (publishClaimed p f b m ev d w)) = snd (f ev w)"
  by (simp add: publishClaimed_def Let_def split: option.splits sum.splits prod.splits)

lemma publish_calls:
  assumes "PublishNextOutboxEvent p pool (Some f) b m d w = (r, d', w')"
  shows "w' = w \<or> (\<exists>ev. w' = snd (f ev w))"
proof -
  have "w' = w \<or> (\<exists>ev. publishClaimed p f b m ev d w = (r, d', w'))"
    using assms by (auto simp: PublishNextOutboxEvent_def split: option.splits sum.splits if_splits)
  then show ?thesis using publishClaimed_calls [of p f b m _ d w] by (metis snd_conv)
qed

section \<open>The interface\<close>

definition event_field :: "fields \<Rightarrow> bytes" where
  "event_field vs = (case field_string vs ''event_id'' of Some t \<Rightarrow> t | None \<Rightarrow> [])"

lemma event_field_stream: "event_field (streamValues ev) = oe_EventID ev"
  by (simp add: event_field_def field_string_def streamValues_def str_fields_def)

fun sent_id :: "sent \<Rightarrow> bytes" where
  "sent_id (SentOutbox i) = i"
| "sent_id (SentRedrive i) = i"

text \<open>The events of a log of the event machine are on the stream.\<close>

definition on_stream :: "('r \<Rightarrow> bytes set) \<Rightarrow> sent list \<Rightarrow> 'r \<Rightarrow> bool" where
  "on_stream seen log n \<longleftrightarrow> sent_id ` set log \<subseteq> seen n"

lemma on_stream_snoc: "on_stream seen (log @ [x]) n \<longleftrightarrow> on_stream seen log n \<and> sent_id x \<in> seen n"
  by (auto simp: on_stream_def)

locale stream_view =
  fixes seen :: "'r \<Rightarrow> bytes set" and env :: "'r worker_env" and api :: "'r api_env"
  assumes env_grows: "seen n \<subseteq> seen (snd (en_now env n))" "seen n \<subseteq> seen (snd (en_do env rq n))"
      "seen n \<subseteq> seen (snd (en_tick env n))" "seen n \<subseteq> seen (snd (ctx_wait (en_ctx env) t n))"
      "seen n \<subseteq> seen (snd (rd_xadd (en_redis env) s vs n))"
      "seen n \<subseteq> seen (snd (rd_xack (en_redis env) s g i n))"
      "seen n \<subseteq> seen (snd (rd_zadd (en_redis env) k sc m n))"
      "seen n \<subseteq> seen (snd (rd_zrangebyscore (en_redis env) k lo hi off c n))"
      "seen n \<subseteq> seen (snd (rd_zrem (en_redis env) k m n))"
      "seen n \<subseteq> seen (snd (rd_xautoclaim (en_redis env) s g cn t st c n))"
      "seen n \<subseteq> seen (snd (rd_xreadgroup (en_redis env) g cn ss c t n))"
      "seen n \<subseteq> seen (snd (rd_xgroup_create_mkstream (en_redis env) s g st n))"
    and api_grows: "seen n \<subseteq> seen (snd (ap_xadd api s vs n))" "seen n \<subseteq> seen (snd (ap_xgroup_setid api s g st n))"
      "seen n \<subseteq> seen (snd (ap_pg_ping api n))" "seen n \<subseteq> seen (snd (ap_redis_ping api n))"
      "seen n \<subseteq> seen (snd (ap_http api hq n))"
    and env_accepts: "rd_xadd (en_redis env) EventStream vs n = (Inr i, n') \<Longrightarrow> event_field vs \<in> seen n'"
    and api_accepts: "ap_xadd api EventStream vs n = (Inr i, n') \<Longrightarrow> event_field vs \<in> seen n'"
begin

text \<open>No handler takes an event off the stream.\<close>

lemma rest_grows:
  assumes "\<And>n. seen n \<subseteq> seen (snd (f n))" "on_rest f s = (a, s')" "x \<in> seen (snd s)"
  shows "x \<in> seen (snd s')"
  using assms(2,3) assms(1) [of "snd s"] by (auto simp: on_rest_def split: prod.splits)

lemmas calls_grow =
  rest_grows [OF api_grows(1)] rest_grows [OF api_grows(2)] rest_grows [OF api_grows(3)]
  rest_grows [OF api_grows(4)] rest_grows [OF api_grows(5)]

lemma client_grows: "ac_client (aiTriageClient api) hq s = (a, s') \<Longrightarrow> x \<in> seen (snd s) \<Longrightarrow> x \<in> seen (snd s')"
  using calls_grow(5) by (auto simp: aiTriageClient_def NewAITriageClient_def Let_def)

lemma ai_grows:
  "Triage lib ue (aiTriageClient api) q s = (a, s') \<Longrightarrow> x \<in> seen (snd s) \<Longrightarrow> x \<in> seen (snd s')"
  "Explain lib ue order (aiTriageClient api) q' s = (a', s') \<Longrightarrow> x \<in> seen (snd s) \<Longrightarrow> x \<in> seen (snd s')"
  by (auto simp: Triage_def Explain_def Let_def split: option.splits prod.splits sum.splits if_splits
      dest: client_grows)

lemma publishValues_grows: "x \<in> seen n \<Longrightarrow> x \<in> seen (snd (publishValues api vs n))"
  using api_grows(1) by (auto simp: publishValues_def)

lemma redrive_grows:
  assumes "RedriveDLQ p s e (Some (publishValues api)) d n = (res, s')" "x \<in> seen n"
  shows "x \<in> seen (snd s')"
  using redrive_calls [of p s e "publishValues api" d n res "fst s'" "snd s'"] assms publishValues_grows by auto

lemma dlq_grows:
  assumes "dlqHandler api p r s = (rsp, s')" "x \<in> seen (snd s)"
  shows "x \<in> seen (snd s')"
  using assms
  by (auto simp: dlqHandler_def NewDLQHandler_def handleDLQList_def handleDLQDetail_def handleDLQRedrive_def
      handleDLQTriage_def operationsDLQStore_def Let_def
      split: if_splits list.splits option.splits prod.splits sum.splits dest: ai_grows(1) redrive_grows)

lemma replayLoop_grows:
  "replayLoop (\<lambda>vs. on_rest (publishValues api vs)) limit rows k cur s = (a, s') \<Longrightarrow> x \<in> seen (snd s) \<Longrightarrow>
   x \<in> seen (snd s')"
proof (induction rows arbitrary: k cur s)
  case (Cons row rows)
  then show ?case
    by (auto simp: publishValues_def split: if_splits prod.splits sum.splits dest: calls_grow(1))
qed simp

lemma replay_grows:
  "replayHandler api p r s = (rsp, s') \<Longrightarrow> x \<in> seen (snd s) \<Longrightarrow> x \<in> seen (snd s')"
  by (auto simp: replayHandler_def newReplayHandler_def replayEvents_def on_tables_eq
      split: if_splits prod.splits sum.splits option.splits dest: replayLoop_grows)

lemma readiness_grows: "readinessHandler api r s = (rsp, s') \<Longrightarrow> x \<in> seen (snd s) \<Longrightarrow> x \<in> seen (snd s')"
  by (auto simp: readinessHandler_def NewReadinessHandler_def dependencyStatus_def Let_def
      split: option.splits prod.splits dest!: calls_grow(3,4))

lemma set_cursor_grows: "setCursorHandler api r s = (rsp, s') \<Longrightarrow> x \<in> seen (snd s) \<Longrightarrow> x \<in> seen (snd s')"
  by (auto simp: setCursorHandler_def Let_def split: if_splits prod.splits sum.splits option.splits
      dest: calls_grow(2))

lemma explain_grows: "eventExplainHandler api p p2 r s = (rsp, s') \<Longrightarrow> x \<in> seen (snd s) \<Longrightarrow> x \<in> seen (snd s')"
  by (auto simp: eventExplainHandler_def NewEventExplainHandler_def explainRequestFromStore_def explainReader_def
      Let_def on_tables_eq split: if_splits prod.splits sum.splits dest: ai_grows(2))

lemma events_grow:
  "eventsHandler (eventExplainHandler api p p2)
     (NewEventStatusHandler (\<lambda>eventID. on_tables (EventStatus_of p (Some True) eventID)))
     (getEventHandler p) r s = (rsp, s') \<Longrightarrow> x \<in> seen (snd s) \<Longrightarrow> x \<in> seen (snd s')"
  by (auto simp: eventsHandler_def NewEventStatusHandler_def getEventHandler_def on_tables_eq Let_def
      split: if_splits option.splits prod.splits sum.splits dest: explain_grows)

lemma create_grows:
  "NewCreateEventHandler lib (persist api p) r s = (rsp, s') \<Longrightarrow> x \<in> seen (snd s) \<Longrightarrow> x \<in> seen (snd s')"
  by (auto simp: NewCreateEventHandler_def persist_def split: if_splits prod.splits sum.splits)

lemma request_grows:
  assumes "apiHandler api p p2 r s = (rsp, s')" "x \<in> seen (snd s)"
  shows "x \<in> seen (snd s')"
  using assms(1)
proof (cases rule: apiHandler_cases)
  case none
  then show ?thesis using assms(2) by simp
next
  case (route pat h rsp0)
  from route(1) show ?thesis
    by (cases rule: apiRoutes_cases) (use route(3) assms(2) in \<open>auto simp: NewLivenessHandler_def
        NewVersionHandler_def NewMetricsSummaryHandler_def on_tables_eq split: option.splits prod.splits sum.splits
        dest: readiness_grows dlq_grows create_grows events_grow replay_grows set_cursor_grows\<close>)
qed

text \<open>The publications of the event machine's log are on the stream after every call.\<close>

lemma redrive_on_stream:
  assumes "RedriveDLQ p s e (Some (observedRedrive (publishValues api))) d (n, log) = (res, d', n', log')"
    "on_stream seen log n"
  shows "on_stream seen log' n'"
proof -
  have one: "on_stream seen log2 n2"
    if "observedRedrive (publishValues api) vs (n, log) = (a, n2, log2)" for vs a n2 log2
    using that assms(2) publishValues_grows [of _ n vs] api_accepts [of vs n]
    by (fastforce simp: observedRedrive_def on_stream_def publishValues_def event_field_def
        split: prod.splits sum.splits)
  show ?thesis using redrive_calls [OF assms(1)] assms(2) one by (metis prod.inject prod.collapse)
qed

lemma request_on_stream:
  assumes "server u p" "apiHandler api p p2 r (d, n) = (rsp, d', n')" "on_stream seen log n"
  shows "\<exists>log'. sys_step (server u) (d, n, log) (d', n', log') \<and> on_stream seen log' n'"
proof -
  have grows: "on_stream seen log n'"
    using assms(3) request_grows [OF assms(2)] by (auto simp: on_stream_def)
  show ?thesis
  proof (cases "d' = d")
    case True
    then show ?thesis using sys_step.broker [of "server u" d n log n'] grows by auto
  next
    case False
    from api_effect [OF assms(2) this] show ?thesis
    proof (elim conjE disjE exE)
      fix input key res assume "n' = n" "PersistEventWithOutbox (ap_lib api) p input key d = (res, d')"
      then show ?thesis using sys_step.ingest [of "server u" p] assms(1) grows by blast
    next
      fix e res assume "RedriveDLQ p (Some True) e (Some (publishValues api)) d n = (res, d', n')"
      from redrive_observed [OF this] obtain log' where
        o: "RedriveDLQ p (Some True) e (Some (observedRedrive (publishValues api))) d (n, log) = (res, d', n', log')"
        by blast
      have "sys_step (server u) (d, n, log) (d', n', log')"
        using sys_step.redrive [of "server u" p "Some True" e "Some (publishValues api)"] assms(1) o by fastforce
      then show ?thesis using redrive_on_stream [OF o assms(3)] by blast
    qed
  qed
qed

lemma publish_on_stream:
  assumes "server u p" "on_stream seen log n" "pb_client pub = Some (rd_xadd (en_redis env))" "pb_stream pub = EventStream"
    "PublishNextOutboxEvent p True (Some (Publish (Some pub))) b m d n = (r, d', n')"
  shows "\<exists>log'. sys_step (server u) (d, n, log) (d', n', log') \<and> on_stream seen log' n'"
proof -
  have one: "on_stream seen log2 n2" if "observed (Publish (Some pub)) ev (n, log) = (a, n2, log2)" for ev a n2 log2
  proof (cases "rd_xadd (en_redis env) EventStream (streamValues ev) n")
    case (Pair x n1)
    have "on_stream seen log n1"
      using assms(2) env_grows(5) [of n EventStream "streamValues ev"] Pair by (auto simp: on_stream_def)
    moreover have "oe_EventID ev \<in> seen n1" if "x = Inr i" for i
      using env_accepts [of "streamValues ev" n i n1] Pair that by (simp add: event_field_stream)
    ultimately show ?thesis using that assms(2-4) Pair
      by (cases x) (auto simp: observed_def Publish_def on_stream_snoc Let_def split: if_splits)
  qed
  obtain log' where o: "PublishNextOutboxEvent p True (Some (observed (Publish (Some pub)))) b m d (n, log) =
      (r, d', n', log')" using publish_observed [OF assms(5)] by blast
  have "sys_step (server u) (d, n, log) (d', n', log')"
    using sys_step.publish [of "server u" p True "Some (Publish (Some pub))"] assms(1) o by fastforce
  moreover have "on_stream seen log' n'" using publish_calls [OF o] assms(2) one by (metis prod.inject prod.collapse)
  ultimately show ?thesis by blast
qed

end

section \<open>A network with a record of the stream\<close>

text \<open>The network together with the events whose entries were accepted on the stream, in order.\<close>

definition pass :: "('r \<Rightarrow> 'a \<times> 'r) \<Rightarrow> 'r \<times> bytes list \<Rightarrow> 'a \<times> 'r \<times> bytes list" where
  "pass f s = (case s of (n, ids) \<Rightarrow> case f n of (a, n1) \<Rightarrow> (a, n1, ids))"

definition recorded_xadd :: "'r xadd \<Rightarrow> ('r \<times> bytes list) xadd" where
  "recorded_xadd xadd stream vs s =
     (case s of (n, ids) \<Rightarrow>
      case xadd stream vs n of
        (Inr i, n1) \<Rightarrow> (Inr i, n1, if stream = EventStream then ids @ [event_field vs] else ids)
      | (Inl e, n1) \<Rightarrow> (Inl e, n1, ids))"

definition recorded_redis :: "'r redis \<Rightarrow> ('r \<times> bytes list) redis" where
  "recorded_redis r = \<lparr>rd_xadd = recorded_xadd (rd_xadd r), rd_xack = (\<lambda>s g i. pass (rd_xack r s g i)),
     rd_zadd = (\<lambda>k sc m. pass (rd_zadd r k sc m)),
     rd_zrangebyscore = (\<lambda>k lo hi off n. pass (rd_zrangebyscore r k lo hi off n)),
     rd_zrem = (\<lambda>k m. pass (rd_zrem r k m)),
     rd_xautoclaim = (\<lambda>s g c t st n. pass (rd_xautoclaim r s g c t st n)),
     rd_xreadgroup = (\<lambda>g c ss n t. pass (rd_xreadgroup r g c ss n t)),
     rd_xgroup_create_mkstream = (\<lambda>s g st. pass (rd_xgroup_create_mkstream r s g st))\<rparr>"

definition recorded_env :: "'r worker_env \<Rightarrow> ('r \<times> bytes list) worker_env" where
  "recorded_env e = \<lparr>en_now = pass (en_now e), en_redis = recorded_redis (en_redis e),
     en_do = (\<lambda>rq. pass (en_do e rq)), en_url_error = en_url_error e,
     en_ctx = \<lparr>ctx_err = (\<lambda>s. ctx_err (en_ctx e) (fst s)), ctx_wait = (\<lambda>t. pass (ctx_wait (en_ctx e) t))\<rparr>,
     en_tick = pass (en_tick e), en_lib = en_lib e\<rparr>"

definition recorded_api :: "'r api_env \<Rightarrow> ('r \<times> bytes list) api_env" where
  "recorded_api e = \<lparr>ap_lib = ap_lib e, ap_xadd = recorded_xadd (ap_xadd e),
     ap_xgroup_setid = (\<lambda>s g i. pass (ap_xgroup_setid e s g i)), ap_pg_ping = pass (ap_pg_ping e),
     ap_redis_ping = pass (ap_redis_ping e), ap_http = (\<lambda>q. pass (ap_http e q)),
     ap_url_error = ap_url_error e, ap_order = ap_order e, ap_redirect = ap_redirect e,
     ap_AIServiceURL = ap_AIServiceURL e\<rparr>"

lemma pass_ids: "snd (snd (pass f s)) = snd s"
  by (simp add: pass_def split: prod.splits)

lemma recorded_xadd_ids:
  "set (snd s) \<subseteq> set (snd (snd (recorded_xadd xadd stream vs s)))"
  "recorded_xadd xadd EventStream vs s = (Inr i, s') \<Longrightarrow> event_field vs \<in> set (snd s')"
  by (auto simp: recorded_xadd_def split: prod.splits sum.splits)

interpretation recorded: stream_view "\<lambda>s. set (snd s)" "recorded_env env" "recorded_api api" for env api
  by unfold_locales (simp_all add: recorded_env_def recorded_redis_def recorded_api_def pass_ids
      recorded_xadd_ids)

text \<open>Without a record, every network has a view that says nothing.\<close>

interpretation unrecorded: stream_view "\<lambda>n. UNIV" env api for env api
  by unfold_locales simp_all

end
