(* ===== verification/Program.thy ===== *)
theory Program
  imports Stream_View
begin

text \<open>
  The whole program. After its start, \<open>main\<close> of \<open>cmd/api/main.go\<close> runs the outbox loop, the delivery
  worker (whose \<open>Run\<close> is the stream loop and the retry pump) and the HTTP server as goroutines,
  waits for a signal or an error of the server, and stops them. \<open>main_step\<close> interleaves
  requests, rounds of the loops and the steps of \<open>main\<close> itself in any order. A round is one step here; within it
  every transaction is a step of the event machine of its own, and \<open>app_reaches\<close> maps runs of the
  program to runs of that machine whose publications are on the stream.
\<close>

section \<open>Steps\<close>

text \<open>A request in the world of the worker: its store calls are the next two transactions.\<close>

definition serveRequest :: "(nat \<Rightarrow> pg) \<Rightarrow> 'r api_env \<Rightarrow> 'r world handler" where
  "serveRequest srv api r w =
     (case apiHandler api (srv (wd_tx w)) (srv (Suc (wd_tx w))) r (wd_db w, wd_net w) of
        (rsp, d, n) \<Rightarrow> (rsp, w\<lparr>wd_db := d, wd_net := n, wd_tx := Suc (Suc (wd_tx w))\<rparr>))"

text \<open>
  What a round sees of the application's context: the answers of \<open>ctx.Err\<close>, of \<open>waitForContext\<close> and of
  the select of the retry pump. They are quiet as long as the context is not cancelled. A round during which the context is
  cancelled counts as a step after the cancellation, so its answers are then arbitrary.
\<close>

record 'r sight =
  si_err :: "'r \<Rightarrow> bool"
  si_wait :: "duration \<Rightarrow> 'r \<Rightarrow> bool"
  si_tick :: "'r \<Rightarrow> bool"

definition quiet :: "'r sight \<Rightarrow> bool" where
  "quiet c \<longleftrightarrow> (\<forall>n. \<not> si_err c n) \<and> (\<forall>d n. si_wait c d n) \<and> (\<forall>n. si_tick c n)"

definition sees :: "'r sight \<Rightarrow> 'r worker_env \<Rightarrow> 'r worker_env" where
  "sees c env = env\<lparr>en_ctx := \<lparr>ctx_err = si_err c,
       ctx_wait = (\<lambda>d n. (si_wait c d n, snd (ctx_wait (en_ctx env) d n)))\<rparr>,
     en_tick := (\<lambda>n. (si_tick c n, snd (en_tick env n)))\<rparr>"

text \<open>
  The goroutine of \<open>main\<close>: in its select, in \<open>server.Shutdown\<close>, in \<open>workers.Wait\<close> (and whether the
  shutdown had succeeded), or returned; or the process has panicked.
\<close>

datatype phase = Serving | ShuttingDown | Waiting bool | Returned bool | Panicked

record 'r main_state =
  ms_phase :: phase
  ms_listening :: bool
  ms_serverErr :: "error option"
  ms_inflight :: "Request list"
  ms_cancelled :: bool
  ms_outbox :: bool
  ms_stream :: bool
  ms_pump :: bool
  ms_world :: "'r world"

definition main_started :: "'r world \<Rightarrow> 'r main_state" where
  "main_started w = \<lparr>ms_phase = Serving, ms_listening = True, ms_serverErr = None, ms_inflight = [],
     ms_cancelled = False, ms_outbox = True, ms_stream = True, ms_pump = True, ms_world = w\<rparr>"

definition running :: "'r main_state \<Rightarrow> bool" where
  "running s \<longleftrightarrow> (case ms_phase s of Returned b \<Rightarrow> False | Panicked \<Rightarrow> False | _ \<Rightarrow> True)"

inductive main_step ::
    "(nat \<Rightarrow> pg) \<Rightarrow> 'r worker_env \<Rightarrow> 'r api_env \<Rightarrow> 'r app \<Rightarrow> 'r main_state \<Rightarrow> 'r main_state \<Rightarrow> bool"
  for srv env api a where
  accept: "ms_phase s = Serving \<Longrightarrow> ms_listening s \<Longrightarrow>
     main_step srv env api a s (s\<lparr>ms_inflight := ms_inflight s @ [r]\<rparr>)"
| respond: "running s \<Longrightarrow> ms_inflight s = rs1 @ r # rs2 \<Longrightarrow> serveRequest srv api r (ms_world s) = (rsp, w') \<Longrightarrow>
     main_step srv env api a s (s\<lparr>ms_inflight := rs1 @ rs2, ms_world := w'\<rparr>)"
| outbox: "running s \<Longrightarrow> ms_outbox s \<Longrightarrow> ms_cancelled s \<or> quiet c \<Longrightarrow>
     runRound (en_ctx (world_env (sees c env))) (app_runner a) (ms_world s) = (go_on, w') \<Longrightarrow>
     main_step srv env api a s (s\<lparr>ms_outbox := go_on, ms_world := w'\<rparr>)"
| stream: "running s \<Longrightarrow> ms_stream s \<Longrightarrow> ms_cancelled s \<or> quiet c \<Longrightarrow>
     workerRound (world_env (sees c env)) (app_worker a) (ms_world s) = Some (go_on, w') \<Longrightarrow>
     main_step srv env api a s (s\<lparr>ms_stream := go_on, ms_world := w'\<rparr>)"
| panics: "running s \<Longrightarrow> ms_stream s \<Longrightarrow> ms_cancelled s \<or> quiet c \<Longrightarrow>
     workerRound (world_env (sees c env)) (app_worker a) (ms_world s) = None \<Longrightarrow>
     main_step srv env api a s (s\<lparr>ms_phase := Panicked\<rparr>)"
| pump: "running s \<Longrightarrow> ms_pump s \<Longrightarrow> ms_cancelled s \<or> quiet c \<Longrightarrow>
     retryRound (world_env (sees c env)) (app_worker a) (ms_world s) = (go_on, w') \<Longrightarrow>
     main_step srv env api a s (s\<lparr>ms_pump := go_on, ms_world := w'\<rparr>)"
| listen_failed: "ms_phase s = Serving \<Longrightarrow> ms_listening s \<Longrightarrow>
     main_step srv env api a s (s\<lparr>ms_listening := False, ms_serverErr := Some e\<rparr>)"
| signalled: "ms_phase s = Serving \<Longrightarrow>
     main_step srv env api a s (s\<lparr>ms_phase := ShuttingDown, ms_listening := False\<rparr>)"
| shut_down: "ms_phase s = ShuttingDown \<Longrightarrow> ms_inflight s = [] \<Longrightarrow>
     main_step srv env api a s (s\<lparr>ms_phase := Waiting True, ms_cancelled := True\<rparr>)"
| shutdown_failed: "ms_phase s = ShuttingDown \<Longrightarrow>
     main_step srv env api a s (s\<lparr>ms_phase := Waiting False, ms_cancelled := True\<rparr>)"
| server_stopped: "ms_phase s = Serving \<Longrightarrow> ms_serverErr s = Some e \<Longrightarrow>
     main_step srv env api a s (s\<lparr>ms_phase := Waiting False, ms_cancelled := True\<rparr>)"
| returns: "ms_phase s = Waiting clean \<Longrightarrow> \<not> ms_outbox s \<Longrightarrow> \<not> ms_stream s \<Longrightarrow> \<not> ms_pump s \<Longrightarrow>
     main_step srv env api a s (s\<lparr>ms_phase := Returned clean\<rparr>)"

definition main_reach ::
    "(nat \<Rightarrow> pg) \<Rightarrow> 'r worker_env \<Rightarrow> 'r api_env \<Rightarrow> 'r app \<Rightarrow> 'r main_state \<Rightarrow> 'r main_state \<Rightarrow> bool" where
  "main_reach srv env api a = (main_step srv env api a)\<^sup>*\<^sup>*"

section \<open>The simulation\<close>

text \<open>The event machine, started in \<open>c0\<close>, can reach the tables and the network of the world, with a log whose
  events are on the stream.\<close>

definition app_reaches ::
    "('r \<Rightarrow> bytes set) \<Rightarrow> (bytes \<Rightarrow> bytes option) \<Rightarrow> db \<times> 'r observed \<Rightarrow> 'r world \<Rightarrow> bool" where
  "app_reaches seen u c0 w \<longleftrightarrow>
     (\<exists>log. sys_reach (server u) c0 (wd_db w, wd_net w, log) \<and> on_stream seen log (wd_net w))"

lemma sys_reach_snoc: "sys_reach srv c c1 \<Longrightarrow> sys_step srv c1 c2 \<Longrightarrow> sys_reach srv c c2"
  unfolding sys_reach_def by (rule rtranclp.rtrancl_into_rtrancl)

lemma reaches_step:
  assumes "app_reaches seen u c0 w"
    and "\<And>log. on_stream seen log (wd_net w) \<Longrightarrow>
      \<exists>log'. sys_step (server u) (wd_db w, wd_net w, log) (wd_db w', wd_net w', log') \<and>
        on_stream seen log' (wd_net w')"
  shows "app_reaches seen u c0 w'"
proof -
  obtain log where r: "sys_reach (server u) c0 (wd_db w, wd_net w, log)" "on_stream seen log (wd_net w)"
    using assms(1) by (auto simp: app_reaches_def)
  obtain log' where "sys_step (server u) (wd_db w, wd_net w, log) (wd_db w', wd_net w', log')"
    "on_stream seen log' (wd_net w')" using assms(2) [OF r(2)] by blast
  with sys_reach_snoc [OF r(1)] show ?thesis unfolding app_reaches_def by blast
qed

lemma reaches_net:
  assumes "app_reaches seen u c0 w" "wd_db w' = wd_db w" "seen (wd_net w) \<subseteq> seen (wd_net w')"
  shows "app_reaches seen u c0 w'"
proof (rule reaches_step [OF assms(1)])
  fix log assume "on_stream seen log (wd_net w)"
  then have "on_stream seen log (wd_net w')" using assms(3) by (auto simp: on_stream_def)
  then show "\<exists>log'. sys_step (server u) (wd_db w, wd_net w, log) (wd_db w', wd_net w', log') \<and>
      on_stream seen log' (wd_net w')" unfolding assms(2) by (blast intro: sys_step.broker)
qed

lemma reaches_on_net:
  assumes "\<And>n. seen n \<subseteq> seen (snd (f n))" "app_reaches seen u c0 w"
  shows "app_reaches seen u c0 (snd (on_net f w))"
  by (rule reaches_net [OF assms(2)]) (use assms(1) [of "wd_net w"] in \<open>auto simp: on_net_def split: prod.splits\<close>)

lemma reaches_on_net_eq:
  "on_net f w = (x, w') \<Longrightarrow> (\<And>n. seen n \<subseteq> seen (snd (f n))) \<Longrightarrow> app_reaches seen u c0 w \<Longrightarrow>
   app_reaches seen u c0 w'"
  using reaches_on_net [of seen f u c0 w] by simp

lemma reaches_ack: "app_reaches seen u c0 (snd r) \<Longrightarrow> app_reaches seen u c0 (snd (note_ack i r))"
  by (cases r) (simp add: app_reaches_def note_ack_def)

lemma reaches_record:
  assumes "server u (srv (wd_tx w))" "app_reaches seen u c0 w"
  shows "app_reaches seen u c0 (snd (rc_RecordProcessing (storeRecorder srv s) pr w))"
    "app_reaches seen u c0 (snd (rc_RecordDelivered (storeRecorder srv s) ar w))"
    "app_reaches seen u c0 (snd (rc_RecordRetrying (storeRecorder srv s) rt w))"
    "app_reaches seen u c0 (snd (rc_RecordDeadLettered (storeRecorder srv s) dl w))"
proof -
  let ?p = "srv (wd_tx w)"
  have n: "wd_net (snd (on_db srv f w)) = wd_net w" for f by (simp add: on_db_def split: prod.splits)
  have step: "sys_step (server u) (d, x) (snd (RecordProcessing ?p s pr d), x)"
    "sys_step (server u) (d, x) (snd (RecordDelivered ?p s ar d), x)"
    "sys_step (server u) (d, x) (snd (RecordRetrying ?p s rt d), x)"
    "sys_step (server u) (d, x) (snd (RecordDeadLettered ?p s dl d), x)" for d and x :: "'a observed"
    by (rule sys_step.intros(3) [of "server u" ?p, OF assms(1) surjective_pairing]
        sys_step.intros(4) [of "server u" ?p, OF assms(1) surjective_pairing]
        sys_step.intros(5) [of "server u" ?p, OF assms(1) surjective_pairing]
        sys_step.intros(6) [of "server u" ?p, OF assms(1) surjective_pairing])+
  show "app_reaches seen u c0 (snd (rc_RecordProcessing (storeRecorder srv s) pr w))"
    "app_reaches seen u c0 (snd (rc_RecordDelivered (storeRecorder srv s) ar w))"
    "app_reaches seen u c0 (snd (rc_RecordRetrying (storeRecorder srv s) rt w))"
    "app_reaches seen u c0 (snd (rc_RecordDeadLettered (storeRecorder srv s) dl w))"
    by (rule reaches_step [OF assms(2)], simp add: storeRecorder_def on_db_db n, blast intro: step)+
qed

context stream_view
begin

lemma reaches_request:
  assumes "server u (srv (wd_tx w))" "app_reaches seen u c0 w" "serveRequest srv api r w = (rsp, w')"
  shows "app_reaches seen u c0 w'"
proof (rule reaches_step [OF assms(2)])
  obtain rsp0 d n where run: "apiHandler api (srv (wd_tx w)) (srv (Suc (wd_tx w))) r (wd_db w, wd_net w) =
      (rsp0, d, n)" by (metis surj_pair)
  then have "wd_db w' = d" "wd_net w' = n" using assms(3) by (auto simp: serveRequest_def)
  then show "\<exists>log'. sys_step (server u) (wd_db w, wd_net w, log) (wd_db w', wd_net w', log') \<and>
      on_stream seen log' (wd_net w')" if "on_stream seen log (wd_net w)" for log
    using request_on_stream [OF assms(1) run that] by simp
qed

lemma reaches_publish:
  assumes "server u (srv (wd_tx w))" "app_reaches seen u c0 w" "publishNext srv pub w = (res, w')"
    and "pb_client pub = Some (rd_xadd (en_redis env))" "pb_stream pub = EventStream"
  shows "app_reaches seen u c0 w'"
proof (rule reaches_step [OF assms(2)])
  obtain r d n where run: "PublishNextOutboxEvent (srv (wd_tx w)) True (Some (Publish (Some pub)))
      DefaultOutboxBaseBackoff DefaultOutboxMaxBackoff (wd_db w) (wd_net w) = (r, d, n)" by (metis surj_pair)
  then have "wd_db w' = d" "wd_net w' = n" using assms(3) by (auto simp: publishNext_def)
  then show "\<exists>log'. sys_step (server u) (wd_db w, wd_net w, log) (wd_db w', wd_net w', log') \<and>
      on_stream seen log' (wd_net w')" if "on_stream seen log (wd_net w)" for log
    using publish_on_stream [OF assms(1) that assms(4,5) run] by simp
qed

lemma reaches_outbox:
  assumes "\<And>n. server u (srv n)" "app_reaches seen u c0 w" "rn_publishNext rn = publishNext srv pub"
    "rn_onError rn = Some (\<lambda>e w. w)" "runRound (en_ctx (world_env env)) rn w = (b, w')"
    and "pb_client pub = Some (rd_xadd (en_redis env))" "pb_stream pub = EventStream"
  shows "app_reaches seen u c0 w'"
proof -
  obtain res err w1 where run: "publishNext srv pub w = ((res, err), w1)" by (metis surj_pair)
  have ok: "app_reaches seen u c0 w1" by (rule reaches_publish [OF assms(1,2) run assms(6,7)])
  have wait: "app_reaches seen u c0 w2" if "ctx_wait (en_ctx (world_env env)) t w1 = (b2, w2)" for t b2 w2
    using that by (auto simp: world_env_def intro: reaches_on_net_eq [OF _ env_grows(4) ok])
  show ?thesis using assms(2-5) run ok wait
    by (auto simp: runRound_def reportError_def split: if_splits option.splits)
qed

end

sublocale stream_view \<subseteq> simulating: acking_worker
  "\<lambda>w. (\<forall>n. server u (srv n)) \<longrightarrow> app_reaches seen u c0 w" "storeRecorder srv s" "\<lambda>w i. True"
  "world_env env" "\<lambda>w. {}" for u srv c0 s
  by unfold_locales (simp_all add: world_env_def world_redis_def reaches_record reaches_on_net reaches_ack env_grows)

context stream_view
begin

lemma reaches_stream:
  assumes "\<And>n. server u (srv n)" "app_reaches seen u c0 w" "wk_recorder wk = storeRecorder srv s"
    "workerRound (world_env env) wk w = Some (b, w')"
  shows "app_reaches seen u c0 w'"
proof -
  have "all_settled (\<lambda>w. (\<forall>n. server u (srv n)) \<longrightarrow> app_reaches seen u c0 w) (\<lambda>w i. True) (\<lambda>w. {}) w"
    using assms(2) by (simp add: all_settled_def)
  from simulating.round_ok [OF this assms(3,4)] show ?thesis using assms(1) by (simp add: all_settled_def)
qed

lemma reaches_pump:
  assumes "\<And>n :: nat. server u (srv n)" "app_reaches seen u c0 w" "retryRound (world_env env) wk w = (b, w')"
  shows "app_reaches seen u c0 w'"
proof -
  have "all_settled (\<lambda>w. (\<forall>n. server u (srv n)) \<longrightarrow> app_reaches seen u c0 w) (\<lambda>w i. True) (\<lambda>w. {}) w"
    using assms(2) by (simp add: all_settled_def)
  from simulating.retry_round_ok [OF this assms(3)] show ?thesis using assms(1) by (simp add: all_settled_def)
qed

lemma sees_view: "stream_view seen (sees c env) api"
  by unfold_locales (simp_all add: sees_def env_grows api_grows env_accepts api_accepts)

lemma main_step_simulated:
  assumes "main_step srv env api a s s'" "\<And>n. server u (srv n)" "app_reaches seen u c0 (ms_world s)"
    and "wk_recorder (app_worker a) = storeRecorder srv st"
    and "rn_publishNext (app_runner a) = publishNext srv pub" "rn_onError (app_runner a) = Some (\<lambda>e w. w)"
    and "pb_client pub = Some (rd_xadd (en_redis env))" "pb_stream pub = EventStream"
  shows "app_reaches seen u c0 (ms_world s')"
  using assms(1)
proof cases
  case (respond rs1 r rs2 rsp w')
  then show ?thesis using reaches_request [OF assms(2,3) respond(4)] by simp
next
  case (outbox c go_on w')
  have "pb_client pub = Some (rd_xadd (en_redis (sees c env)))" using assms(7) by (simp add: sees_def)
  from stream_view.reaches_outbox [OF sees_view assms(2,3,5,6) outbox(5) this assms(8)]
  show ?thesis using outbox(1) by simp
next
  case (stream c go_on w')
  from stream_view.reaches_stream [OF sees_view assms(2-4) stream(5)] show ?thesis using stream(1) by simp
next
  case (pump c go_on w')
  from stream_view.reaches_pump [OF sees_view assms(2,3) pump(5)] show ?thesis using pump(1) by simp
qed (use assms(3) in simp_all)

lemma main_reach_simulated:
  assumes "main_reach srv env api a s s'" "\<And>n. server u (srv n)" "app_reaches seen u c0 (ms_world s)"
    and "wk_recorder (app_worker a) = storeRecorder srv st"
    and "rn_publishNext (app_runner a) = publishNext srv pub" "rn_onError (app_runner a) = Some (\<lambda>e w. w)"
    and "pb_client pub = Some (rd_xadd (en_redis env))" "pb_stream pub = EventStream"
  shows "app_reaches seen u c0 (ms_world s')"
  using assms(1) unfolding main_reach_def
  by (induction rule: rtranclp_induct) (use assms(2-8) main_step_simulated in blast)+

end

lemma started_app:
  assumes "main_setup environ newPool files sv srv env (m, w0) = (Inr a, m', w1)"
  obtains wk pub where "EnsureConsumerGroup (world_env env) wk w0 = (None, w1)"
    "wk_recorder (app_worker a) = storeRecorder srv (Some True)"
    "rn_publishNext (app_runner a) = publishNext srv pub" "rn_onError (app_runner a) = Some (\<lambda>e w. w)"
    "pb_client pub = Some (rd_xadd (en_redis env))" "pb_stream pub = EventStream"
proof -
  obtain cfg pub where
    e: "EnsureConsumerGroup (world_env env) (New (workerConfig cfg (storeRecorder srv (Some True)))) w0 = (None, w1)"
    and a: "app_worker a = New (workerConfig cfg (storeRecorder srv (Some True)))"
    and p: "NewPublisher (Some (rd_xadd (en_redis env))) EventStream = Inr pub"
    and r: "NewRunner (Some (publishNext srv pub)) (OutboxPollInterval cfg) (Some (\<lambda>e w. w)) = Inr (app_runner a)"
    using assms by (auto simp: main_setup_def Let_def split: sum.splits option.splits prod.splits)
  have "TrimSpace EventStream = EventStream" by code_simp
  with p have "pb_client pub = Some (rd_xadd (en_redis env))" "pb_stream pub = EventStream"
    by (auto simp: NewPublisher_def Let_def split: if_splits)
  moreover from r have "app_runner a = \<lparr>rn_publishNext = publishNext srv pub,
      rn_pollInterval = OutboxPollInterval cfg, rn_onError = Some (\<lambda>e w. w)\<rparr>"
    by (simp add: NewRunner_def split: if_splits)
  ultimately show thesis using that [OF e] by (simp add: a New_def workerConfig_def)
qed

context stream_view
begin

lemma reaches_start:
  assumes "EnsureConsumerGroup (world_env env) wk w0 = (e, w1)" "app_reaches seen u c0 w0"
  shows "app_reaches seen u c0 w1"
  using assms(1)
  by (auto simp: EnsureConsumerGroup_def world_env_def world_redis_def
      split: prod.splits option.splits if_splits intro: reaches_on_net_eq [OF _ env_grows(12) assms(2)])

lemma program_simulated:
  assumes "main_setup environ newPool files sv srv env (m, w0) = (Inr a, m', w1)"
    and "\<And>n. server u (srv n)" "main_reach srv env api a (main_started w1) s" "on_stream seen log (wd_net w0)"
  shows "app_reaches seen u (wd_db w0, wd_net w0, log) (ms_world s)"
proof -
  obtain wk pub where e: "EnsureConsumerGroup (world_env env) wk w0 = (None, w1)"
    and rest: "wk_recorder (app_worker a) = storeRecorder srv (Some True)"
    "rn_publishNext (app_runner a) = publishNext srv pub" "rn_onError (app_runner a) = Some (\<lambda>e w. w)"
    "pb_client pub = Some (rd_xadd (en_redis env))" "pb_stream pub = EventStream"
    by (rule started_app [OF assms(1)])
  have "app_reaches seen u (wd_db w0, wd_net w0, log) w0" unfolding app_reaches_def
    using assms(4) by (blast intro: sys_reach_refl)
  then have "app_reaches seen u (wd_db w0, wd_net w0, log) (ms_world (main_started w1))"
    using reaches_start [OF e] by (simp add: main_started_def)
  from main_reach_simulated [OF assms(3,2) this rest] show ?thesis .
qed

end

section \<open>The tables and the stream\<close>

text \<open>What the tables call published or redriven is on the record of the stream.\<close>

definition published_on :: "db \<Rightarrow> bytes list \<Rightarrow> bool" where
  "published_on d ids \<longleftrightarrow>
     (\<forall>r \<in> set (outbox d). ob_status r = ''published'' \<longrightarrow> ob_event_id r \<in> set ids) \<and>
     (\<forall>q \<in> set (dlq d). q_status q = DLQStatusRedriven \<longrightarrow> q_event_id q \<in> set ids)"

text \<open>A log of the event machine that accounts for a record.\<close>

definition log_of :: "bytes list \<Rightarrow> sent list" where
  "log_of ids = map SentOutbox ids @ map SentRedrive ids"

lemma published_sent: "published_on d ids \<Longrightarrow> sent_ok d (log_of ids)"
  by (auto simp: published_on_def sent_ok_def log_of_def)

lemma log_on_stream: "on_stream (\<lambda>s. set (snd s)) (log_of ids) (n, ids)"
  by (auto simp: on_stream_def log_of_def)

lemma sent_published:
  "sent_ok d log \<Longrightarrow> on_stream (\<lambda>s. set (snd s)) log s \<Longrightarrow> published_on d (snd s)"
  unfolding published_on_def sent_ok_def on_stream_def by force

lemma program_published:
  assumes "main_setup environ newPool files sv srv (recorded_env env) (m, w0) = (Inr a, m', w1)"
    and "\<And>n. server u (srv n)" "main_reach srv (recorded_env env) (recorded_api api) a (main_started w1) s"
    and "lifecycle_ok u (wd_db w0)" "published_on (wd_db w0) (snd (wd_net w0))"
  shows "published_on (wd_db (ms_world s)) (snd (wd_net (ms_world s)))"
proof -
  let ?log0 = "log_of (snd (wd_net w0))"
  have "on_stream (\<lambda>s. set (snd s)) ?log0 (wd_net w0)"
    using log_on_stream [of "snd (wd_net w0)" "fst (wd_net w0)"] by simp
  from recorded.program_simulated [OF assms(1-3) this] obtain log where
    r: "sys_reach (server u) (wd_db w0, wd_net w0, ?log0)
      (wd_db (ms_world s), wd_net (ms_world s), log)"
    and on: "on_stream (\<lambda>s. set (snd s)) log (wd_net (ms_world s))" by (auto simp: app_reaches_def)
  have "sent_ok (wd_db (ms_world s)) log"
    using sys_reach_sent [OF r, of u] published_sent [OF assms(5)] assms(4) by simp
  then show ?thesis by (rule sent_published [OF _ on])
qed

section \<open>How the program stops\<close>

text \<open>As long as the context is not cancelled, every round of a loop goes on.\<close>

definition calm :: "'w worker_env \<Rightarrow> bool" where
  "calm env \<longleftrightarrow> (\<forall>w. \<not> ctx_err (en_ctx env) w) \<and> (\<forall>d w. fst (ctx_wait (en_ctx env) d w)) \<and> (\<forall>w. fst (en_tick env w))"

lemma calm_sees: "quiet c \<Longrightarrow> calm (world_env (sees c env))"
  by (simp add: calm_def quiet_def sees_def world_env_def on_net_def split: prod.splits)

lemma calm_wait: "calm env \<Longrightarrow> ctx_wait (en_ctx env) d w = (b, w') \<Longrightarrow> b"
  unfolding calm_def by (metis fst_conv)

lemma calm_err: "calm env \<Longrightarrow> \<not> ctx_err (en_ctx env) w"
  by (simp add: calm_def)

lemma calm_outbox:
  assumes "calm env" "runRound (en_ctx env) rn w = (b, w')"
  shows b
  using assms calm_wait [OF assms(1)]
  by (auto simp: runRound_def calm_err split: prod.splits option.splits if_splits)

lemma calm_batch: "calm env \<Longrightarrow> processBatch env wk msgs w = Some (b, w') \<Longrightarrow> b"
  by (induction msgs arbitrary: w) (auto simp: calm_err split: option.splits)

lemma calm_read: "calm env \<Longrightarrow> readNew env wk w = Some (b, w') \<Longrightarrow> b"
  by (auto simp: readNew_def Let_def calm_err split: prod.splits sum.splits if_splits dest: calm_batch calm_wait)

lemma calm_stream: "calm env \<Longrightarrow> workerRound env wk w = Some (b, w') \<Longrightarrow> b"
  by (auto simp: workerRound_def Let_def calm_err split: prod.splits sum.splits option.splits if_splits
      dest: calm_batch calm_read)

lemma calm_republish: "calm env \<Longrightarrow> republishAll env wk ms w = (b, w') \<Longrightarrow> b"
  by (induction ms arbitrary: w) (auto simp: calm_err)

lemma calm_pump:
  assumes "calm env" "retryRound env wk w = (b, w')"
  shows b
proof -
  have "fst (en_tick env w)" using assms(1) by (simp add: calm_def)
  then show ?thesis using assms(2) calm_republish [OF assms(1)]
    by (auto simp: retryRound_def calm_err [OF assms(1)] split: prod.splits bool.splits sum.splits if_splits)
qed

text \<open>What holds in every state of \<open>main\<close>.\<close>

definition main_ok :: "'r main_state \<Rightarrow> bool" where
  "main_ok s \<longleftrightarrow>
     (\<not> ms_cancelled s \<longrightarrow> ms_outbox s \<and> ms_stream s \<and> ms_pump s) \<and>
     (ms_serverErr s \<noteq> None \<longrightarrow> \<not> ms_listening s) \<and>
     (case ms_phase s of
        Serving \<Rightarrow> \<not> ms_cancelled s
      | ShuttingDown \<Rightarrow> \<not> ms_cancelled s \<and> \<not> ms_listening s
      | Waiting clean \<Rightarrow> ms_cancelled s \<and> \<not> ms_listening s \<and> (clean \<longrightarrow> ms_inflight s = [])
      | Returned clean \<Rightarrow> ms_cancelled s \<and> \<not> ms_listening s \<and> (clean \<longrightarrow> ms_inflight s = []) \<and>
          \<not> ms_outbox s \<and> \<not> ms_stream s \<and> \<not> ms_pump s
      | Panicked \<Rightarrow> True)"

lemma main_step_ok:
  assumes "main_step srv env api a s s'" "main_ok s"
  shows "main_ok s'"
  using assms(1)
proof cases
  case (outbox c go_on w')
  then have "ms_cancelled s \<or> go_on" using calm_outbox [OF calm_sees] by blast
  then show ?thesis using outbox assms(2) by (auto simp: main_ok_def running_def split: phase.splits)
next
  case (stream c go_on w')
  then have "ms_cancelled s \<or> go_on" using calm_stream [OF calm_sees] by blast
  then show ?thesis using stream assms(2) by (auto simp: main_ok_def running_def split: phase.splits)
next
  case (pump c go_on w')
  then have "ms_cancelled s \<or> go_on" using calm_pump [OF calm_sees] by blast
  then show ?thesis using pump assms(2) by (auto simp: main_ok_def running_def split: phase.splits)
next
  case (respond rs1 r rs2 rsp w')
  then show ?thesis using assms(2) by (auto simp: main_ok_def running_def split: phase.splits)
qed (use assms(2) in \<open>auto simp: main_ok_def\<close>)

lemma main_reach_ok:
  assumes "main_reach srv env api a (main_started w) s"
  shows "main_ok s"
  using assms unfolding main_reach_def
proof (induction rule: rtranclp_induct)
  case base
  show ?case by (simp add: main_ok_def main_started_def)
qed (rule main_step_ok)

text \<open>After the cancellation, each loop can stop at once, so \<open>main\<close> can return.\<close>

definition cancelled :: "'r sight" where
  "cancelled = \<lparr>si_err = (\<lambda>n. True), si_wait = (\<lambda>d n. False), si_tick = (\<lambda>n. False)\<rparr>"

lemma cancelled_rounds:
  "runRound (en_ctx (world_env (sees cancelled env))) rn w = (False, w)"
  "workerRound (world_env (sees cancelled env)) wk w = Some (False, w)"
  "\<exists>w'. retryRound (world_env (sees cancelled env)) wk w = (False, w')"
  by (simp_all add: runRound_def workerRound_def retryRound_def world_env_def sees_def cancelled_def on_net_def
      split: prod.splits)

lemma main_reach_trans: "main_reach srv env api a s1 s2 \<Longrightarrow> main_reach srv env api a s2 s3 \<Longrightarrow>
  main_reach srv env api a s1 s3"
  unfolding main_reach_def by (rule rtranclp_trans)

lemma main_reach_step: "main_step srv env api a s1 s2 \<Longrightarrow> main_reach srv env api a s2 s3 \<Longrightarrow>
  main_reach srv env api a s1 s3"
  unfolding main_reach_def by (rule converse_rtranclp_into_rtranclp)

lemma main_reach_refl: "main_reach srv env api a s s"
  by (simp add: main_reach_def)

lemma main_reach_opt: "s' = s \<or> main_step srv env api a s s' \<Longrightarrow> main_reach srv env api a s s'"
  unfolding main_reach_def by auto

lemma stop_outbox:
  assumes "running s" "ms_cancelled s"
  shows "main_reach srv env api a s (s\<lparr>ms_outbox := False\<rparr>)"
proof (rule main_reach_opt, cases "ms_outbox s")
  case True
  from main_step.outbox [OF assms(1) True disjI1 [OF assms(2)] cancelled_rounds(1)]
  show "s\<lparr>ms_outbox := False\<rparr> = s \<or> main_step srv env api a s (s\<lparr>ms_outbox := False\<rparr>)" by simp
qed simp

lemma stop_stream:
  assumes "running s" "ms_cancelled s"
  shows "main_reach srv env api a s (s\<lparr>ms_stream := False\<rparr>)"
proof (rule main_reach_opt, cases "ms_stream s")
  case True
  from main_step.stream [OF assms(1) True disjI1 [OF assms(2)] cancelled_rounds(2)]
  show "s\<lparr>ms_stream := False\<rparr> = s \<or> main_step srv env api a s (s\<lparr>ms_stream := False\<rparr>)" by simp
qed simp

lemma stop_pump:
  assumes "running s" "ms_cancelled s"
  shows "\<exists>w'. main_reach srv env api a s (s\<lparr>ms_pump := False, ms_world := w'\<rparr>)"
proof (cases "ms_pump s")
  case True
  obtain w' where "retryRound (world_env (sees cancelled env)) (app_worker a) (ms_world s) = (False, w')"
    using cancelled_rounds(3) by blast
  from main_step.pump [OF assms(1) True disjI1 [OF assms(2)] this] show ?thesis by (blast intro: main_reach_opt)
next
  case False
  then have "s\<lparr>ms_pump := False, ms_world := ms_world s\<rparr> = s" by simp
  then show ?thesis by (metis main_reach_refl)
qed

lemma wait_returns:
  assumes "ms_phase s = Waiting clean" "ms_cancelled s"
  shows "\<exists>s'. main_reach srv env api a s s' \<and> ms_phase s' = Returned clean \<and> ms_inflight s' = ms_inflight s"
proof -
  let ?s1 = "s\<lparr>ms_outbox := False\<rparr>" let ?s2 = "?s1\<lparr>ms_stream := False\<rparr>"
  have r: "running s" "running ?s1" "running ?s2" using assms(1) by (simp_all add: running_def)
  obtain w' where 3: "main_reach srv env api a ?s2 (?s2\<lparr>ms_pump := False, ms_world := w'\<rparr>)"
    using stop_pump [OF r(3), of srv env api a] assms(2) by auto
  let ?s3 = "?s2\<lparr>ms_pump := False, ms_world := w'\<rparr>"
  have "main_reach srv env api a ?s3 (?s3\<lparr>ms_phase := Returned clean\<rparr>)"
    by (intro main_reach_opt disjI2 main_step.returns) (simp_all add: assms(1))
  moreover have "main_reach srv env api a s ?s3"
    using main_reach_trans [OF main_reach_trans [OF stop_outbox [OF r(1) assms(2)] stop_stream [OF r(2)]] 3]
      assms(2) by simp
  ultimately have "main_reach srv env api a s (?s3\<lparr>ms_phase := Returned clean\<rparr>)" by (rule main_reach_trans [rotated])
  then show ?thesis by (intro exI [of _ "?s3\<lparr>ms_phase := Returned clean\<rparr>"]) simp
qed

lemma requests_answered:
  assumes "ms_phase s = ShuttingDown"
  shows "\<exists>w'. main_reach srv env api a s (s\<lparr>ms_inflight := [], ms_world := w'\<rparr>)"
  using assms
proof (induction "ms_inflight s" arbitrary: s)
  case Nil
  then have "s\<lparr>ms_inflight := [], ms_world := ms_world s\<rparr> = s" by simp
  then show ?case by (metis main_reach_refl)
next
  case (Cons r rs)
  obtain rsp w1 where run: "serveRequest srv api r (ms_world s) = (rsp, w1)" by force
  let ?s1 = "s\<lparr>ms_inflight := rs, ms_world := w1\<rparr>"
  have "running s" using Cons.prems by (simp add: running_def)
  from main_step.respond [OF this _ run, of "[]" rs env a] have "main_step srv env api a s ?s1"
    using Cons.hyps(2) by simp
  moreover obtain w' where "main_reach srv env api a ?s1 (?s1\<lparr>ms_inflight := [], ms_world := w'\<rparr>)"
    using Cons.hyps(1) [of ?s1] Cons.prems by (auto simp del: main_state.update_convs)
  ultimately have "main_reach srv env api a s (?s1\<lparr>ms_inflight := [], ms_world := w'\<rparr>)" by (rule main_reach_step)
  then show ?case by auto
qed

lemma shutdown_returns:
  assumes "ms_phase s = ShuttingDown"
  shows "\<exists>s'. main_reach srv env api a s s' \<and> ms_phase s' = Returned True"
proof -
  obtain w' where 1: "main_reach srv env api a s (s\<lparr>ms_inflight := [], ms_world := w'\<rparr>)"
    using requests_answered [OF assms] by blast
  let ?s1 = "s\<lparr>ms_inflight := [], ms_world := w'\<rparr>"
  let ?s2 = "?s1\<lparr>ms_phase := Waiting True, ms_cancelled := True\<rparr>"
  have 2: "main_step srv env api a ?s1 ?s2" by (rule main_step.shut_down) (simp_all add: assms)
  obtain s' where "main_reach srv env api a ?s2 s'" "ms_phase s' = Returned True"
    using wait_returns [of ?s2 True srv env api a] by auto
  with 1 2 show ?thesis by (meson main_reach_step main_reach_trans)
qed

lemma signal_returns:
  assumes "ms_phase s = Serving"
  shows "\<exists>s'. main_reach srv env api a s s' \<and> ms_phase s' = Returned True"
proof -
  let ?s1 = "s\<lparr>ms_phase := ShuttingDown, ms_listening := False\<rparr>"
  obtain s' where "main_reach srv env api a ?s1 s'" "ms_phase s' = Returned True"
    using shutdown_returns [of ?s1 srv env api a] by auto
  with main_step.signalled [OF assms] show ?thesis by (meson main_reach_step)
qed

text \<open>A program that has started.\<close>

definition example_app :: "nat app" where
  "example_app = \<lparr>app_worker = New (example_config\<lparr>wc_Recorder := Some (storeRecorder (\<lambda>_. example_server) (Some True))\<rparr>),
     app_runner = \<lparr>rn_publishNext = publishNext (\<lambda>_. example_server)
         \<lparr>pb_client = Some (rd_xadd (en_redis example_env)), pb_stream = EventStream\<rparr>,
       rn_pollInterval = Second, rn_onError = Some (\<lambda>e w. w)\<rparr>,
     app_AIServiceURL = ''http://ai''\<rparr>"

definition uncancelled :: "'r sight" where
  "uncancelled = \<lparr>si_err = (\<lambda>n. False), si_wait = (\<lambda>d n. True), si_tick = (\<lambda>n. True)\<rparr>"

lemma outbox_round:
  obtains s where "main_reach srv env api a (main_started w) s"
    "ms_world s = snd (runRound (en_ctx (world_env (sees uncancelled env))) (app_runner a) w)"
proof -
  let ?run = "runRound (en_ctx (world_env (sees uncancelled env))) (app_runner a) w"
  have "main_step srv env api a (main_started w) ((main_started w)\<lparr>ms_outbox := fst ?run, ms_world := snd ?run\<rparr>)"
    by (rule main_step.outbox [where c = uncancelled])
      (simp_all add: main_started_def running_def quiet_def uncancelled_def)
  from main_reach_opt [OF disjI2, OF this] show thesis by (rule that) simp
qed

end
