(* ===== verification/Stream_Copies.thy ===== *)
theory Stream_Copies
  imports Stream_View
begin

text \<open>
  How often the stream holds the outbox message of an event. The stream is a record of the entries that
  \<open>XADD\<close> accepted, with a mark on those whose answer reached the program: an answer can be lost, and then
  the entry is on the stream although the publisher sees an error. The steps are the transactions of the event
  machine, with the publisher of \<open>internal/broker/redisstream/publisher.go\<close> on this stream.
\<close>

section \<open>A stream whose answers can be lost\<close>

datatype reply = Replied bytes | ReplyLost error | Refused error

text \<open>An entry counts as answered when the answer names its identifier.\<close>

definition lossy_xadd :: "reply \<Rightarrow> (fields \<times> bool) list xadd" where
  "lossy_xadd reply stream values s =
     (case reply of
        Replied i \<Rightarrow> (Inr i, s @ [(values, i \<noteq> [])])
      | ReplyLost e \<Rightarrow> (Inl e, s @ [(values, False)])
      | Refused e \<Rightarrow> (Inl e, s))"

inductive copy_step ::
    "(pg \<Rightarrow> bool) \<Rightarrow> db \<times> (fields \<times> bool) list \<Rightarrow> db \<times> (fields \<times> bool) list \<Rightarrow> bool" for srv where
  ingest: "srv p \<Longrightarrow> PersistEventWithOutbox lib p req key d = (res, d') \<Longrightarrow> copy_step srv (d, s) (d', s)"
| publish: "srv p \<Longrightarrow> NewPublisher (Some (lossy_xadd reply)) stream = Inr pb \<Longrightarrow>
     PublishNextOutboxEvent p pool (Some (Publish (Some pb))) b m d s = (r, d', s') \<Longrightarrow>
     copy_step srv (d, s) (d', s')"
| processing: "srv p \<Longrightarrow> RecordProcessing p st pr d = (e, d') \<Longrightarrow> copy_step srv (d, s) (d', s)"
| delivered: "srv p \<Longrightarrow> RecordDelivered p st ar d = (e, d') \<Longrightarrow> copy_step srv (d, s) (d', s)"
| retrying: "srv p \<Longrightarrow> RecordRetrying p st rt d = (e, d') \<Longrightarrow> copy_step srv (d, s) (d', s)"
| deadLettered: "srv p \<Longrightarrow> RecordDeadLettered p st dl d = (e, d') \<Longrightarrow> copy_step srv (d, s) (d', s)"
| redrive: "srv p \<Longrightarrow> RedriveDLQ p st e (Some (lossy_xadd reply stream)) d s = (res, d', s') \<Longrightarrow>
     copy_step srv (d, s) (d', s')"

text \<open>The entries of the outbox for an event, and those of them whose answer was lost.\<close>

definition outbox_entry :: "bytes \<Rightarrow> fields \<Rightarrow> bool" where
  "outbox_entry x vs \<longleftrightarrow> field_string vs ''outbox_id'' \<noteq> None \<and> field_string vs ''event_id'' = Some x"

definition copies :: "bytes \<Rightarrow> (fields \<times> bool) list \<Rightarrow> nat" where
  "copies x s = length (filter (\<lambda>(vs, answered). outbox_entry x vs) s)"

definition lost_copies :: "bytes \<Rightarrow> (fields \<times> bool) list \<Rightarrow> nat" where
  "lost_copies x s = length (filter (\<lambda>(vs, answered). outbox_entry x vs \<and> \<not> answered) s)"

section \<open>The event machine follows\<close>

text \<open>The log of the event machine has the answered entries.\<close>

definition log_answers :: "(fields \<times> bool) list \<Rightarrow> sent list \<Rightarrow> bool" where
  "log_answers s log \<longleftrightarrow>
     (\<forall>x. length (filter (\<lambda>l. l = SentOutbox x) log) + lost_copies x s = copies x s)"

lemma outbox_entry_stream: "outbox_entry x (streamValues ev) \<longleftrightarrow> oe_EventID ev = x"
  by (simp add: outbox_entry_def field_string_def streamValues_def str_fields_def)

lemma outbox_entry_redrive: "\<not> outbox_entry x (redriveValues m)"
  by (simp add: outbox_entry_def field_string_def redriveValues_def str_fields_def)

lemma publisher_logged:
  assumes "NewPublisher (Some (lossy_xadd reply)) stream = Inr pb" "log_answers s log"
    "observed (Publish (Some pb)) ev (s, log) = (err, s', log')"
  shows "log_answers s' log'"
proof -
  have "pb_client pb = Some (lossy_xadd reply)"
    using assms(1) by (auto simp: NewPublisher_def Let_def split: if_splits)
  then show ?thesis using assms(2,3)
    by (auto simp: observed_def Publish_def lossy_xadd_def log_answers_def copies_def lost_copies_def
        outbox_entry_stream Let_def split: if_splits reply.splits)
qed

lemma redriver_logged:
  assumes "log_answers s log" "observedRedrive (lossy_xadd reply stream) (redriveValues m) (s, log) = (res, s', log')"
  shows "log_answers s' log'"
  using assms
  by (auto simp: observedRedrive_def lossy_xadd_def log_answers_def copies_def lost_copies_def outbox_entry_redrive
      split: reply.splits)

lemma redrive_calls_values:
  assumes "RedriveDLQ p s e (Some f) d w = (res, d', w')"
  shows "w' = w \<or> (\<exists>m. w' = snd (f (redriveValues m) w))"
  using assms by (auto simp: RedriveDLQ_def split: if_splits option.splits sum.splits prod.splits) (metis snd_conv)+

lemma copy_step_simulated:
  assumes "copy_step srv (d, s) (d', s')" "log_answers s log"
  shows "\<exists>log'. sys_step srv (d, s, log) (d', s', log') \<and> log_answers s' log'"
  using assms(1)
proof cases
  case (publish p reply stream pb pool b m r)
  from publish_observed [OF publish(3)] obtain log' where
    run: "PublishNextOutboxEvent p pool (Some (observed (Publish (Some pb)))) b m d (s, log) = (r, d', s', log')" by blast
  have "sys_step srv (d, s, log) (d', s', log')"
    using sys_step.publish [of srv p pool "Some (Publish (Some pb))"] publish(1) run by simp
  moreover have "log_answers s' log'"
    using publish_calls [OF run] publisher_logged [OF publish(2) assms(2)] assms(2) by (metis prod.collapse prod.inject)
  ultimately show ?thesis by blast
next
  case (redrive p st e reply stream res)
  from redrive_observed [OF redrive(2)] obtain log' where
    run: "RedriveDLQ p st e (Some (observedRedrive (lossy_xadd reply stream))) d (s, log) = (res, d', s', log')" by blast
  have "sys_step srv (d, s, log) (d', s', log')"
    using sys_step.redrive [of srv p st e "Some (lossy_xadd reply stream)"] redrive(1) run by simp
  moreover have "log_answers s' log'"
    using redrive_calls_values [OF run] redriver_logged [OF assms(2)] assms(2) by (metis prod.collapse prod.inject)
  ultimately show ?thesis by blast
qed (use assms(2) in \<open>blast intro: sys_step.intros\<close>)+

lemma copy_reach_simulated:
  assumes "(copy_step srv)\<^sup>*\<^sup>* (d0, s0) c" "log_answers s0 log0"
  shows "\<exists>log. sys_reach srv (d0, s0, log0) (fst c, snd c, log) \<and> log_answers (snd c) log"
  using assms(1)
proof (induction rule: rtranclp_induct)
  case base
  then show ?case using assms(2) by (auto intro: sys_reach_refl)
next
  case (step c1 c2)
  then obtain log where log: "sys_reach srv (d0, s0, log0) (fst c1, snd c1, log)" "log_answers (snd c1) log" by blast
  from copy_step_simulated [of srv "fst c1" "snd c1" "fst c2" "snd c2", OF _ log(2)] step(2)
  obtain log' where "sys_step srv (fst c1, snd c1, log) (fst c2, snd c2, log')" "log_answers (snd c2) log'" by auto
  then show ?case using log(1) unfolding sys_reach_def by (blast intro: rtranclp.rtrancl_into_rtrancl)
qed

section \<open>Copies on the stream\<close>

text \<open>
  C9: Published once, up to lost answers. If no statement of the database fails, then in every reachable state the stream
  has accepted the outbox message of an event once if its row is marked published and not at all
  otherwise, and once more for every accepted entry whose answer the publisher did not get. So without lost answers
  it is published exactly once, and a lost answer is the only way to a second copy from the outbox.
\<close>

theorem published_once_unless_lost:
  assumes "(copy_step (\<lambda>p. server u p \<and> no_faults p))\<^sup>*\<^sup>* (empty_db, []) (d, s)"
  shows "copies x s =
    (if list_ex (\<lambda>r. ob_event_id r = x \<and> ob_status r = ''published'') (outbox d) then 1 else 0) + lost_copies x s"
proof -
  have "log_answers [] []" by (simp add: log_answers_def copies_def lost_copies_def)
  from copy_reach_simulated [OF assms this] obtain log where
    log: "sys_reach (\<lambda>p. server u p \<and> no_faults p) (empty_db, [], []) (d, s, log)" "log_answers s log" by auto
  have "once_ok empty_db []" by (simp add: once_ok_def empty_db_def)
  then have "once_ok d log" using sys_reach_once [OF log(1), of u] by (simp add: lifecycle_empty)
  then show ?thesis using log(2) by (simp add: log_answers_def once_ok_def)
qed

text \<open>An example: the answer to the first publication is lost, and the second one is answered.\<close>

fun lossy_publish :: "reply \<Rightarrow> time \<Rightarrow> db \<times> (fields \<times> bool) list \<Rightarrow>
    (PublishNextOutboxResult \<times> error option) \<times> db \<times> (fields \<times> bool) list" where
  "lossy_publish reply t (d, s) = PublishNextOutboxEvent (quiet_pg ''e1'' ''o1'' t) True
     (Some (Publish (Some \<lparr>pb_client = Some (lossy_xadd reply), pb_stream = ''s''\<rparr>))) 1 2 d s"

definition example_entry :: fields where
  "example_entry = [(''created_at'', JStr ''1970-01-01T00:00:00Z''), (''event_id'', JStr ''e1''),
     (''event_type'', JStr ''t''), (''outbox_id'', JStr ''o1''), (''payload'', JStr ''1''), (''retry'', JStr ''0''),
     (''source'', JStr ''s'')]"

definition rescheduled_db :: db where
  "rescheduled_db = \<lparr>
     events = [\<lparr>ev_id = ''e1'', ev_event_type = ''t'', ev_source = ''s'', ev_payload = ''1'', ev_created_at = 0,
       ev_idempotency_key = Some ''k1'', ev_request_hash =
         Some ''7b226576656e745f74797065223a2274222c22736f75726365223a2273222c227061796c6f6164223a317d''\<rparr>],
     outbox = [\<lparr>ob_id = ''o1'', ob_event_id = ''e1'', ob_status = ''pending'', ob_attempt_count = 1,
       ob_next_attempt_at = 0, ob_published_at = None,
       ob_last_error = Some ''publish outbox o1 event e1 to Redis stream s: timeout'',
       ob_created_at = 0, ob_updated_at = 0\<rparr>],
     history = [\<lparr>h_id = 1, h_event_id = ''e1'', h_status = ''STORED'', h_details = ''{}'', h_created_at = 0\<rparr>,
       \<lparr>h_id = 2, h_event_id = ''e1'', h_status = ''PENDING_PUBLICATION'', h_details = ''{}'', h_created_at = 0\<rparr>],
     attempts = [], dlq = [], history_seq = 3, attempts_seq = 1\<rparr>"

lemma first_publication:
  "snd (lossy_publish (ReplyLost (ErrNew ''timeout'')) 0 (example_db, [])) = (rescheduled_db, [(example_entry, False)])"
  unfolding rescheduled_db_def example_entry_def by code_simp

lemma second_publication:
  "case snd (lossy_publish (Replied ''1-0'') 0 (rescheduled_db, [(example_entry, False)])) of (d, s) \<Rightarrow>
     lost_copies ''e1'' s = 1 \<and> map ob_status (outbox d) = [''published''] \<and>
     list_ex (\<lambda>r. ob_event_id r = ''e1'' \<and> ob_status r = ''published'') (outbox d)"
  by code_simp

theorem published_once_unless_lost_witness:
  "case snd (lossy_publish (Replied ''1-0'') 0 (snd (lossy_publish (ReplyLost (ErrNew ''timeout'')) 0 (example_db, [])))) of
     (d, s) \<Rightarrow> copies ''e1'' s = 2 \<and> map ob_status (outbox d) = [''published'']"
proof -
  let ?step = "copy_step (\<lambda>p. server Some p \<and> no_faults p)"
  have trim: "TrimSpace ''s'' = ''s''" by code_simp
  have pb: "NewPublisher (Some (lossy_xadd reply)) ''s'' = Inr \<lparr>pb_client = Some (lossy_xadd reply), pb_stream = ''s''\<rparr>"
    for reply by (simp add: NewPublisher_def trim)
  have publish: "?step (d, s) (d', s')" if "snd (lossy_publish reply t (d, s)) = (d', s')" for reply t d s d' s'
  proof -
    have "lossy_publish reply t (d, s) = (fst (lossy_publish reply t (d, s)), d', s')"
      using that by (simp only: prod.collapse flip: that)
    then obtain r where "PublishNextOutboxEvent (quiet_pg ''e1'' ''o1'' t) True
        (Some (Publish (Some \<lparr>pb_client = Some (lossy_xadd reply), pb_stream = ''s''\<rparr>))) 1 2 d s = (r, d', s')" by simp
    from copy_step.publish [OF _ pb this] show ?thesis by (simp add: quiet_server)
  qed
  have "?step (empty_db, []) (example_db, [])" by (rule copy_step.ingest [OF _ example_first]) simp
  moreover note publish [OF first_publication]
  moreover obtain d s where c: "snd (lossy_publish (Replied ''1-0'') 0 (rescheduled_db, [(example_entry, False)])) = (d, s)"
    by force
  moreover note publish [OF c]
  ultimately have reach: "?step\<^sup>*\<^sup>* (empty_db, []) (d, s)" by (meson converse_rtranclp_into_rtranclp rtranclp.rtrancl_refl)
  from published_once_unless_lost [OF this, of "''e1''"] second_publication
  have "copies ''e1'' s = 2 \<and> map ob_status (outbox d) = [''published'']" unfolding c by simp
  then show ?thesis unfolding first_publication c by simp
qed

end
