(* ===== verification/Mock_Destination.thy ===== *)
theory Mock_Destination
  imports Http_Api
begin

text \<open>
  The mock destination of \<open>cmd/mock-destination/main.go\<close>: a receipt service that can be told to
  fail, and that counts what it is sent. The mutex makes every access to the state one step,
  so a handler is a function on the state of the server. Counters are 64-bit integers that wrap.

  The counters add up in every run (\<open>mock_counters_add_up\<close>); on the receipts the server is a set
  of idempotency keys (\<open>receipts_refine_key_set\<close>), and so accepts a key as new at most once
  (\<open>mock_accepts_key_once\<close>).
\<close>

section \<open>The server\<close>

definition modeHealthy :: bytes where "modeHealthy = ''healthy''"
definition modeTemporaryFailure :: bytes where "modeTemporaryFailure = ''temporary_failure''"
definition modeValidationFailure :: bytes where "modeValidationFailure = ''validation_failure''"

lemmas mode_consts = modeHealthy_def modeTemporaryFailure_def modeValidationFailure_def

record receiptServer =
  rs_mode :: bytes
  rs_failNext :: int
  rs_seenKeys :: "bytes list"
  rs_total :: int
  rs_successful :: int
  rs_duplicates :: int
  rs_failed :: int

record receiptRequest =
  rr_InvoiceID :: bytes
  rr_Amount :: int
  rr_Currency :: bytes

record modeRequest =
  mr_Mode :: bytes
  mr_FailNext :: int

definition newReceiptServer :: receiptServer where
  "newReceiptServer = \<lparr>rs_mode = modeHealthy, rs_failNext = 0, rs_seenKeys = [], rs_total = 0,
     rs_successful = 0, rs_duplicates = 0, rs_failed = 0\<rparr>"

definition applyReceipt :: "bytes \<Rightarrow> receiptServer \<Rightarrow> (int \<times> bool) \<times> receiptServer" where
  "applyReceipt idempotencyKey s0 =
     (let s = s0\<lparr>rs_total := wrap64 (rs_total s0 + 1)\<rparr> in
      if 0 < rs_failNext s then
        ((500, False), s\<lparr>rs_failNext := rs_failNext s - 1, rs_failed := wrap64 (rs_failed s + 1)\<rparr>)
      else if rs_mode s = modeTemporaryFailure then
        ((500, False), s\<lparr>rs_failed := wrap64 (rs_failed s + 1)\<rparr>)
      else if rs_mode s = modeValidationFailure then
        ((400, False), s\<lparr>rs_failed := wrap64 (rs_failed s + 1)\<rparr>)
      else if idempotencyKey \<noteq> [] then
        (if idempotencyKey \<in> set (rs_seenKeys s) then
           ((200, True), s\<lparr>rs_duplicates := wrap64 (rs_duplicates s + 1)\<rparr>)
         else
           ((200, False), s\<lparr>rs_seenKeys := idempotencyKey # rs_seenKeys s,
                            rs_successful := wrap64 (rs_successful s + 1)\<rparr>))
      else ((200, False), s\<lparr>rs_successful := wrap64 (rs_successful s + 1)\<rparr>))"

definition recordFailure :: "receiptServer \<Rightarrow> receiptServer" where
  "recordFailure s = s\<lparr>rs_total := wrap64 (rs_total s + 1), rs_failed := wrap64 (rs_failed s + 1)\<rparr>"

definition validateModeRequest :: "modeRequest \<Rightarrow> error option" where
  "validateModeRequest req =
     (if mr_FailNext req < 0 then Some (ErrNew ''fail_next must be nonnegative'')
      else if mr_Mode req = modeHealthy \<or> mr_Mode req = modeTemporaryFailure \<or>
              mr_Mode req = modeValidationFailure then None
      else Some (ErrNew ''unsupported mode''))"

section \<open>Handlers\<close>

definition decodeReceiptRequest :: "(bytes \<times> json \<times> bytes) list \<Rightarrow> receiptRequest option" where
  "decodeReceiptRequest ms =
     (case get_string ''invoice_id'' (plain_members ms) of None \<Rightarrow> None | Some i \<Rightarrow>
      case get_int ''amount'' (plain_members ms) of None \<Rightarrow> None | Some a \<Rightarrow>
      case get_string ''currency'' (plain_members ms) of None \<Rightarrow> None | Some c \<Rightarrow>
      Some \<lparr>rr_InvoiceID = i, rr_Amount = a, rr_Currency = c\<rparr>)"

definition decodeModeRequest :: "(bytes \<times> json \<times> bytes) list \<Rightarrow> modeRequest option" where
  "decodeModeRequest ms =
     (case get_string ''mode'' (plain_members ms) of None \<Rightarrow> None | Some m \<Rightarrow>
      case get_int ''fail_next'' (plain_members ms) of None \<Rightarrow> None | Some n \<Rightarrow>
      Some \<lparr>mr_Mode = m, mr_FailNext = n\<rparr>)"

text \<open>\<open>json.NewDecoder(r.Body).Decode(&req)\<close>: the first value of the body, whatever follows it.\<close>

definition decode_body :: "((bytes \<times> json \<times> bytes) list \<Rightarrow> 'a option) \<Rightarrow> Request \<Rightarrow> 'a option" where
  "decode_body f r =
     (case read_value (req_BodyError r) (req_Body r) of
        ReadVal v rest \<Rightarrow> decode_struct f v (req_Body r)
      | _ \<Rightarrow> None)"

definition str_map :: "(bytes \<times> bytes) list \<Rightarrow> json" where
  "str_map kvs = JObj (go_map (map (\<lambda>(k, v). (k, JStr v)) kvs))"

definition mock_writeJSON :: "int \<Rightarrow> json \<Rightarrow> Response" where
  "mock_writeJSON status value = json_response status (Some value)"

definition acceptedResponse :: "bytes \<Rightarrow> bool \<Rightarrow> json" where
  "acceptedResponse invoiceID duplicate = JObj (go_map [(''status'', JStr ''accepted''),
     (''invoice_id'', JStr invoiceID), (''duplicate'', JBool duplicate)])"

definition handleReceipts :: "receiptServer handler" where
  "handleReceipts r s =
     (if req_Method r \<noteq> ''POST'' then (method_not_allowed ''POST'', s)
      else
        case decode_body decodeReceiptRequest r of
          None \<Rightarrow>
            (mock_writeJSON 400 (str_map [(''status'', ''failed''), (''error'', ''invalid JSON body'')]),
             recordFailure s)
        | Some req \<Rightarrow>
        if TrimSpace (rr_InvoiceID req) = [] then
          (mock_writeJSON 400 (str_map [(''status'', ''failed''), (''error'', ''invoice_id is required'')]),
           recordFailure s)
        else
          case applyReceipt (TrimSpace (header_get (req_Header r) ''Idempotency-Key'')) s of
            ((status, duplicate), s1) \<Rightarrow>
              (if status = 200 then
                 mock_writeJSON 200 (acceptedResponse (rr_InvoiceID req) duplicate)
               else if status = 400 then
                 mock_writeJSON 400 (str_map [(''status'', ''failed''), (''error'', ''validation failure'')])
               else
                 mock_writeJSON 500 (str_map [(''status'', ''failed''), (''error'', ''temporary failure'')]),
               s1))"

definition handleControlMode :: "receiptServer handler" where
  "handleControlMode r s =
     (if req_Method r \<noteq> ''POST'' then (method_not_allowed ''POST'', s)
      else
        case decode_body decodeModeRequest r of
          None \<Rightarrow>
            (mock_writeJSON 400 (str_map [(''status'', ''failed''), (''error'', ''invalid JSON body'')]), s)
        | Some req \<Rightarrow>
        case validateModeRequest req of
          Some err \<Rightarrow>
            (mock_writeJSON 400 (str_map [(''status'', ''failed''), (''error'', error_text err)]), s)
        | None \<Rightarrow>
            (mock_writeJSON 200 (str_map [(''status'', ''updated''), (''mode'', mr_Mode req)]),
             s\<lparr>rs_mode := mr_Mode req, rs_failNext := mr_FailNext req\<rparr>))"

definition statsResponse :: "receiptServer \<Rightarrow> json" where
  "statsResponse s =
     (let num = (\<lambda>i. JNum (Itoa i)) in
      JObj [(''mode'', JStr (rs_mode s)), (''remaining_forced_failures'', num (rs_failNext s)),
            (''total_requests'', num (rs_total s)), (''successful_receipts'', num (rs_successful s)),
            (''duplicate_requests'', num (rs_duplicates s)), (''failed_requests'', num (rs_failed s))])"

definition handleStats :: "receiptServer handler" where
  "handleStats r s =
     (if req_Method r \<noteq> ''GET'' then (method_not_allowed ''GET'', s)
      else (mock_writeJSON 200 (statsResponse s), s))"

definition mock_routes :: "(bytes \<Rightarrow> Request \<Rightarrow> Response) \<Rightarrow> receiptServer handler" where
  "mock_routes redirect =
     serve_mux redirect [(''/receipts'', handleReceipts), (''/control/mode'', handleControlMode),
                         (''/stats'', handleStats)]"

definition mock_dashboardOrigins :: "bytes list" where
  "mock_dashboardOrigins = [''http://localhost:5173'', ''http://127.0.0.1:5173'']"

text \<open>What \<open>main\<close> serves.\<close>

definition mock_serve :: "(bytes \<Rightarrow> Request \<Rightarrow> Response) \<Rightarrow> receiptServer handler" where
  "mock_serve redirect = WithCORS (mock_routes redirect) mock_dashboardOrigins"

text \<open>A run: the states after a list of requests.\<close>

fun mock_run :: "(bytes \<Rightarrow> Request \<Rightarrow> Response) \<Rightarrow> Request list \<Rightarrow> receiptServer \<Rightarrow> receiptServer" where
  "mock_run redirect [] s = s"
| "mock_run redirect (r # rs) s = mock_run redirect rs (snd (mock_serve redirect r s))"

section \<open>Invariant\<close>

definition mock_inv :: "receiptServer \<Rightarrow> bool" where
  "mock_inv s \<longleftrightarrow>
     rs_mode s \<in> {modeHealthy, modeTemporaryFailure, modeValidationFailure} \<and>
     0 \<le> rs_failNext s \<and> is_int64 (rs_failNext s) \<and> distinct (rs_seenKeys s) \<and> [] \<notin> set (rs_seenKeys s) \<and>
     rs_total s = wrap64 (rs_successful s + rs_duplicates s + rs_failed s)"

lemma wrap64_add: "wrap64 (wrap64 a + b) = wrap64 (a + b)"
proof -
  have "((a + 2 ^ 63) mod 2 ^ 64 + b) mod 2 ^ 64 = (a + b + 2 ^ 63) mod (2 ^ 64 :: int)"
    by (simp add: mod_simps add.assoc add.commute [of b])
  then show ?thesis by (simp add: wrap64_def add.commute add.left_commute)
qed

lemma wrap64_eqI: "a = wrap64 b \<Longrightarrow> c = wrap64 d \<Longrightarrow> wrap64 (a + c) = wrap64 (b + d)"
  by (simp add: wrap64_add) (metis add.commute wrap64_add)

lemma count_one:
  assumes "t = wrap64 (a + b + c)"
  shows "wrap64 (t + 1) = wrap64 (wrap64 (a + 1) + b + c)" "wrap64 (t + 1) = wrap64 (a + wrap64 (b + 1) + c)"
    "wrap64 (t + 1) = wrap64 (a + b + wrap64 (c + 1))"
proof -
  have w: "wrap64 (x + wrap64 y) = wrap64 (x + y)" for x y
    by (metis add.commute wrap64_add)
  have "wrap64 (t + 1) = wrap64 (a + b + c + 1)" using assms by (simp add: wrap64_add)
  moreover have "wrap64 (wrap64 (a + 1) + b + c) = wrap64 (a + b + c + 1)"
    using wrap64_add [of "a + 1" "b + c"] by (simp add: ac_simps)
  moreover have "wrap64 (a + wrap64 (b + 1) + c) = wrap64 (a + b + c + 1)"
    using wrap64_add [of "b + 1" "a + c"] by (simp add: ac_simps)
  moreover have "wrap64 (a + b + wrap64 (c + 1)) = wrap64 (a + b + c + 1)"
    using w [of "a + b" "c + 1"] by (simp add: ac_simps)
  ultimately show "wrap64 (t + 1) = wrap64 (wrap64 (a + 1) + b + c)"
    "wrap64 (t + 1) = wrap64 (a + wrap64 (b + 1) + c)" "wrap64 (t + 1) = wrap64 (a + b + wrap64 (c + 1))"
    by simp_all
qed

lemma applyReceipt_inv:
  assumes "mock_inv s" "applyReceipt key s = (res, s')"
  shows "mock_inv s'"
proof -
  have t: "rs_total s = wrap64 (rs_successful s + rs_duplicates s + rs_failed s)"
    using assms(1) by (simp add: mock_inv_def)
  show ?thesis using assms
    by (simp add: applyReceipt_def mock_inv_def Let_def split: if_splits)
      (elim conjE, hypsubst, use count_one [OF t] in \<open>auto simp: is_int64_def\<close>)+
qed

lemma recordFailure_inv: "mock_inv s \<Longrightarrow> mock_inv (recordFailure s)"
  by (auto simp: recordFailure_def mock_inv_def count_one(3))

lemma get_int_range: "get_int name kvs = Some i \<Longrightarrow> is_int64 i"
proof -
  have "fold_field put_int a vs = Some i \<Longrightarrow> is_int64 a \<Longrightarrow> is_int64 i" for a vs
    by (induction vs arbitrary: a) (auto simp: put_int_def Atoi_range split: option.splits json.splits)
  then show "get_int name kvs = Some i \<Longrightarrow> is_int64 i" by (simp add: get_int_def)
qed

lemma handleControlMode_inv:
  assumes "mock_inv s" "handleControlMode r s = (rsp, s')"
  shows "mock_inv s'"
proof (cases "decode_body decodeModeRequest r")
  case (Some req)
  then have "is_int64 (mr_FailNext req)"
    by (auto simp: decode_body_def decode_struct_def decodeModeRequest_def get_int_range
        split: read.splits json.splits option.splits)
  then show ?thesis using assms Some
    by (auto simp: handleControlMode_def validateModeRequest_def mock_inv_def split: if_splits)
qed (use assms in \<open>auto simp: handleControlMode_def split: if_splits\<close>)

lemma handleReceipts_inv: "mock_inv s \<Longrightarrow> handleReceipts r s = (rsp, s') \<Longrightarrow> mock_inv s'"
  by (auto simp: handleReceipts_def split: if_splits option.splits prod.splits
      dest: applyReceipt_inv recordFailure_inv)

text \<open>The dispatch of a request.\<close>

lemma mock_serve_cases:
  assumes "mock_serve redirect r s = (rsp, s')"
  obtains (none) "s' = s" "req_Path r \<noteq> ''/receipts'' \<or> rsp_Status rsp \<noteq> 200"
  | (receipts) rsp0 where "req_Path r = ''/receipts''" "handleReceipts r s = (rsp0, s')"
      "rsp_Status rsp = rsp_Status rsp0" "rsp_Body rsp = rsp_Body rsp0"
  | (mode) rsp0 where "req_Path r = ''/control/mode''" "handleControlMode r s = (rsp0, s')"
  | (stats) rsp0 where "req_Path r = ''/stats''" "handleStats r s = (rsp0, s')"
proof -
  have clean: "cleanPath ''/receipts'' = ''/receipts''" by code_simp
  show thesis
  proof (cases "req_Path r = ''/receipts''")
    case True
    then show thesis using assms none receipts
      by (auto simp: mock_serve_def WithCORS_def mock_routes_def serve_mux_def pattern_matches_def clean
          Let_def split: if_splits prod.splits)
  next
    case False
    then show thesis using assms none mode stats
      by (auto simp: mock_serve_def WithCORS_def mock_routes_def serve_mux_def pattern_matches_def
          Let_def split: if_splits prod.splits)
  qed
qed

lemma mock_serve_inv: "mock_inv s \<Longrightarrow> mock_serve redirect r s = (rsp, s') \<Longrightarrow> mock_inv s'"
  by (erule mock_serve_cases)
    (auto intro: handleReceipts_inv handleControlMode_inv simp: handleStats_def split: if_splits)

lemma mock_run_inv: "mock_inv s \<Longrightarrow> mock_inv (mock_run redirect rs s)"
  by (induction rs arbitrary: s) (auto intro: mock_serve_inv surjective_pairing)

section \<open>Properties\<close>

text \<open>
  The statistics of the mock destination add up. After any requests, the number of receipts is the
  sum of the accepted, the duplicate and the failed ones (as 64-bit integers), the mode is one
  of the three modes, the number of forced failures is not negative, and no key is kept twice.
\<close>

theorem mock_counters_add_up:
  "mock_inv (mock_run redirect rs newReceiptServer)"
  by (rule mock_run_inv) (simp add: mock_inv_def newReceiptServer_def)

text \<open>
  C28: The receipts of the mock destination refine a set of idempotency keys. A receipt that is
  processed is answered either with a failure, which leaves the set of keys as it is and only
  happens in a failing mode or while failures are forced, or with 200: then its key, if it has
  one, is in the set afterwards, and the answer calls it a duplicate if and only if it was in the
  set before.
\<close>

theorem receipts_refine_key_set:
  assumes "req_Method r = ''POST''" "decode_body decodeReceiptRequest r = Some req"
    and "TrimSpace (rr_InvoiceID req) \<noteq> []" "handleReceipts r s = (rsp, s')"
    and "k = TrimSpace (header_get (req_Header r) ''Idempotency-Key'')"
  shows "if 0 < rs_failNext s \<or> rs_mode s = modeTemporaryFailure \<or> rs_mode s = modeValidationFailure
    then rsp_Status rsp \<in> {400, 500} \<and> set (rs_seenKeys s') = set (rs_seenKeys s)
    else rsp = mock_writeJSON 200 (acceptedResponse (rr_InvoiceID req) (k \<noteq> [] \<and> k \<in> set (rs_seenKeys s))) \<and>
      set (rs_seenKeys s') = set (rs_seenKeys s) \<union> ({k} - {[]})"
  using assms
  by (auto simp: handleReceipts_def applyReceipt_def mock_writeJSON_def json_response_def Let_def
      split: if_splits)

text \<open>An example: two receipts with the same key.\<close>

definition example_receipt :: Request where
  "example_receipt = \<lparr>req_Method = ''POST'', req_Path = ''/receipts'', req_Query = [],
     req_Header = [(''Idempotency-Key'', ''k1'')],
     req_Body = [CHR ''{'', CHR 0x22] @ ''invoice_id'' @ [CHR 0x22, CHR '':'', CHR 0x22] @ ''i1'' @ [CHR 0x22, CHR ''}''],
     req_BodyError = None\<rparr>"

theorem receipts_refine_key_set_witness:
  "fst (handleReceipts example_receipt newReceiptServer) = mock_writeJSON 200 (acceptedResponse ''i1'' False)"
proof -
  obtain rsp s where run: "handleReceipts example_receipt newReceiptServer = (rsp, s)" by (metis surj_pair)
  have req: "decode_body decodeReceiptRequest example_receipt =
      Some \<lparr>rr_InvoiceID = ''i1'', rr_Amount = 0, rr_Currency = []\<rparr>" by code_simp
  have "TrimSpace ''i1'' = ''i1''" by code_simp
  then show ?thesis using receipts_refine_key_set [OF _ req _ run refl] run
    by (simp add: example_receipt_def newReceiptServer_def mode_consts)
qed

text \<open>A receipt that was accepted as a new one with the key \<open>k\<close>.\<close>

definition fresh_receipt :: "bytes \<Rightarrow> Request \<Rightarrow> Response \<Rightarrow> bool" where
  "fresh_receipt k r rsp \<longleftrightarrow>
     req_Path r = ''/receipts'' \<and> TrimSpace (header_get (req_Header r) ''Idempotency-Key'') = k \<and>
     rsp_Status rsp = 200 \<and> (\<exists>i. rsp_Body rsp = encode_json (Some (acceptedResponse i False)))"

fun mock_answers :: "(bytes \<Rightarrow> Request \<Rightarrow> Response) \<Rightarrow> Request list \<Rightarrow> receiptServer \<Rightarrow> Response list" where
  "mock_answers redirect [] s = []"
| "mock_answers redirect (r # rs) s =
     (case mock_serve redirect r s of (rsp, s1) \<Rightarrow> rsp # mock_answers redirect rs s1)"

lemma accepted_duplicate:
  "encode_json (Some (acceptedResponse i d)) = encode_json (Some (acceptedResponse j False)) \<Longrightarrow> \<not> d"
proof -
  have "\<not> ''status'' < ''invoice_id''" "\<not> ''invoice_id'' < ''duplicate''" "\<not> ''status'' < ''duplicate''"
    by code_simp+
  then have "acceptedResponse i d = JObj [(''duplicate'', JBool d), (''invoice_id'', JStr i), (''status'', JStr ''accepted'')]"
    for i d by (simp add: acceptedResponse_def)
  then show "encode_json (Some (acceptedResponse i d)) = encode_json (Some (acceptedResponse j False)) \<Longrightarrow> \<not> d"
    by (cases d) (simp_all add: encode_json_def)
qed

lemma handleReceipts_keys:
  assumes "handleReceipts r s = (rsp, s')"
  shows "set (rs_seenKeys s) \<subseteq> set (rs_seenKeys s')"
  using assms by (auto simp: handleReceipts_def applyReceipt_def recordFailure_def Let_def
      split: if_splits option.splits)

lemma handleReceipts_fresh:
  assumes "handleReceipts r s = (rsp, s')" "rsp_Status rsp = 200"
    "rsp_Body rsp = encode_json (Some (acceptedResponse i False))"
    "TrimSpace (header_get (req_Header r) ''Idempotency-Key'') = k" "k \<noteq> []"
  shows "k \<notin> set (rs_seenKeys s) \<and> k \<in> set (rs_seenKeys s')"
  using assms
  by (auto simp: handleReceipts_def applyReceipt_def mock_writeJSON_def json_response_def
      method_not_allowed_def Let_def split: if_splits option.splits dest: accepted_duplicate)

lemma mock_serve_keys:
  assumes "mock_serve redirect r s = (rsp, s')" "k \<noteq> []"
  shows "set (rs_seenKeys s) \<subseteq> set (rs_seenKeys s') \<and>
    (fresh_receipt k r rsp \<longrightarrow> k \<notin> set (rs_seenKeys s) \<and> k \<in> set (rs_seenKeys s'))"
  using assms(1)
proof (cases rule: mock_serve_cases)
  case (receipts rsp0)
  then show ?thesis using handleReceipts_keys [OF receipts(2)] handleReceipts_fresh [OF receipts(2)] assms(2)
    by (auto simp: fresh_receipt_def)
qed (auto simp: fresh_receipt_def handleControlMode_def handleStats_def split: if_splits option.splits)

lemma fresh_count:
  assumes "k \<noteq> []"
  shows "length (filter (\<lambda>(r, rsp). fresh_receipt k r rsp) (zip rs (mock_answers redirect rs s)))
    \<le> (if k \<in> set (rs_seenKeys s) then 0 else 1)"
proof (induction rs arbitrary: s)
  case (Cons r rs)
  obtain rsp s1 where step: "mock_serve redirect r s = (rsp, s1)" by (metis surj_pair)
  show ?case using mock_serve_keys [OF step assms] Cons [of s1] step by (auto split: if_splits)
qed simp

text \<open>
  The mock destination detects every duplicate. In any sequence of requests to the server, whatever
  modes are set in between, at most one receipt with a given idempotency key is accepted as a
  new one.
\<close>

theorem mock_accepts_key_once:
  assumes "k \<noteq> []"
  shows "length (filter (\<lambda>(r, rsp). fresh_receipt k r rsp)
    (zip rs (mock_answers redirect rs newReceiptServer))) \<le> 1"
  using fresh_count [OF assms, of rs redirect newReceiptServer] by (simp add: newReceiptServer_def)

theorem mock_accepts_key_once_witness:
  "length (filter (\<lambda>(r, rsp). fresh_receipt ''k1'' r rsp) (zip [example_receipt, example_receipt]
     (mock_answers (\<lambda>p r. status_only 301) [example_receipt, example_receipt] newReceiptServer))) \<le> 1"
  by (rule mock_accepts_key_once) simp

end
