(* ===== verification/Delivery_Destination.thy ===== *)
theory Delivery_Destination
  imports Delivery_Worker Mock_Destination
begin

text \<open>
  The delivery worker and the mock destination together: the webhook calls of
  \<open>internal/deliveryworker/worker.go\<close> answered by the server of \<open>cmd/mock-destination/main.go\<close> over a network
  that loses requests and answers. The worker retries what it did not see succeed, so an event
  may arrive more than once; its identifier travels as the idempotency key.
\<close>

section \<open>The network between them\<close>

datatype fate = Answered | AnswerLost error | RequestLost error

text \<open>The request as the endpoint \<open>/receipts\<close> receives it.\<close>

definition receipt_request :: "HttpRequest \<Rightarrow> Request" where
  "receipt_request q = \<lparr>req_Method = rq_Method q, req_Path = ''/receipts'', req_Query = [],
     req_Header = rq_Header q, req_Body = rq_Body q, req_BodyError = None\<rparr>"

definition mock_client ::
    "(bytes \<Rightarrow> Request \<Rightarrow> Response) \<Rightarrow> (nat \<Rightarrow> fate) \<Rightarrow> HttpRequest \<Rightarrow> receiptServer \<times> nat \<Rightarrow>
     (error + HttpResponse) \<times> receiptServer \<times> nat" where
  "mock_client redirect fate q st =
     (case st of (s, n) \<Rightarrow>
      case mock_serve redirect (receipt_request q) s of (rsp, s1) \<Rightarrow>
      case fate n of
        RequestLost e \<Rightarrow> (Inl e, s, Suc n)
      | AnswerLost e \<Rightarrow> (Inl e, s1, Suc n)
      | Answered \<Rightarrow> (Inr \<lparr>rs_StatusCode = rsp_Status rsp, rs_Status = Itoa (rsp_Status rsp)\<rparr>, s1, Suc n))"

text \<open>Deliveries of messages that name this endpoint, in any number and order, and changes of the mode in between.\<close>

datatype act = Control Request | Deliver XMessage

fun deliveries ::
    "(receiptServer \<times> nat) worker_env \<Rightarrow> (bytes \<Rightarrow> Request \<Rightarrow> Response) \<Rightarrow> act list \<Rightarrow> receiptServer \<times> nat \<Rightarrow>
     (XMessage \<times> processMessageResult \<times> error option) list \<times> receiptServer \<times> nat" where
  "deliveries env redirect [] st = ([], st)"
| "deliveries env redirect (Control r # acts) st =
     deliveries env redirect acts (snd (mock_serve redirect r (fst st)), snd st)"
| "deliveries env redirect (Deliver msg # acts) st =
     (case processMessageWithResult env msg st of (res, st1) \<Rightarrow>
      case deliveries env redirect acts st1 of (rs, st2) \<Rightarrow> ((msg, res) # rs, st2))"

definition act_ok :: "act \<Rightarrow> bool" where
  "act_ok a \<longleftrightarrow>
     (case a of
        Control r \<Rightarrow> req_Path r = ''/control/mode''
      | Deliver msg \<Rightarrow> field_string (xm_Values msg) ''event_type'' = Some ''webhook'' \<and> eventIDFromMessage msg \<noteq> [])"

section \<open>Each event counts once\<close>

text \<open>The number of successful receipts is the number of keys.\<close>

definition counted :: "receiptServer \<Rightarrow> bool" where
  "counted s \<longleftrightarrow> distinct (rs_seenKeys s) \<and> rs_successful s = wrap64 (int (length (rs_seenKeys s)))"

lemma webhook_key:
  assumes "eventIDFromMessage msg \<noteq> []"
  shows "TrimSpace (header_get (req_Header (receipt_request (webhookRequest msg url body))) ''Idempotency-Key'') =
    eventIDFromMessage msg"
  using assms by (auto simp: eventIDFromMessage_def receipt_request_def webhookRequest_def header_get_def
      split: option.splits)

lemma wrap64_add_right: "wrap64 (b + wrap64 a) = wrap64 (b + a)"
  using wrap64_add [of a b] by (simp add: add.commute)

lemma applyReceipt_counted:
  assumes "applyReceipt k s = ((status, dup), s')" "k \<noteq> []" "counted s"
  shows "counted s' \<and> set (rs_seenKeys s) \<subseteq> set (rs_seenKeys s') \<and> set (rs_seenKeys s') \<subseteq> insert k (set (rs_seenKeys s)) \<and>
    (status = 200 \<longrightarrow> k \<in> set (rs_seenKeys s')) \<and> status \<in> {200, 400, 500}"
  using assms by (auto simp: applyReceipt_def counted_def Let_def wrap64_add_right add.commute split: if_splits)

lemma handleReceipts_counted:
  assumes "handleReceipts r s = (rsp, s')" "req_Method r = ''POST''" "counted s"
    "TrimSpace (header_get (req_Header r) ''Idempotency-Key'') = k" "k \<noteq> []"
  shows "counted s' \<and> set (rs_seenKeys s) \<subseteq> set (rs_seenKeys s') \<and> set (rs_seenKeys s') \<subseteq> insert k (set (rs_seenKeys s)) \<and>
    (rsp_Status rsp = 200 \<longrightarrow> k \<in> set (rs_seenKeys s')) \<and> rsp_Status rsp \<in> {200, 400, 500}"
proof -
  obtain status dup s1 where a: "applyReceipt k s = ((status, dup), s1)" by (metis surj_pair)
  have "counted (recordFailure s)" "rs_seenKeys (recordFailure s) = rs_seenKeys s"
    using assms(3) by (simp_all add: counted_def recordFailure_def)
  then show ?thesis using assms a applyReceipt_counted [OF a assms(5,3)]
    by (auto simp: handleReceipts_def mock_writeJSON_def json_response_def split: option.splits if_splits)
qed

lemma receipt_served:
  assumes "req_Method r = ''POST''" "req_Path r = ''/receipts''" "mock_serve redirect r s = (rsp, s')"
  shows "\<exists>rsp0. handleReceipts r s = (rsp0, s') \<and> rsp_Status rsp = rsp_Status rsp0"
proof -
  have "cleanPath ''/receipts'' = ''/receipts''" by code_simp
  then show ?thesis using assms
    by (auto simp: mock_serve_def WithCORS_def mock_routes_def serve_mux_def pattern_matches_def
        Let_def split: if_splits prod.splits)
qed

text \<open>One delivery and one change of the mode.\<close>

lemma delivery_counted:
  assumes "processMessageWithResult env msg (s, n) = ((code, err), s', n')" "en_do env = mock_client redirect fate"
    "act_ok (Deliver msg)" "counted s"
  shows "counted s' \<and> set (rs_seenKeys s) \<subseteq> set (rs_seenKeys s') \<and>
    set (rs_seenKeys s') \<subseteq> insert (eventIDFromMessage msg) (set (rs_seenKeys s)) \<and>
    (err = None \<longrightarrow> eventIDFromMessage msg \<in> set (rs_seenKeys s'))"
proof -
  have ok: "field_string (xm_Values msg) ''event_type'' = Some ''webhook''" "eventIDFromMessage msg \<noteq> []"
    using assms(3) by (simp_all add: act_ok_def)
  have sent: "counted s1 \<and> set (rs_seenKeys s) \<subseteq> set (rs_seenKeys s1) \<and>
    set (rs_seenKeys s1) \<subseteq> insert (eventIDFromMessage msg) (set (rs_seenKeys s)) \<and>
    (rsp_Status rsp = 200 \<longrightarrow> eventIDFromMessage msg \<in> set (rs_seenKeys s1)) \<and> rsp_Status rsp \<in> {200, 400, 500}"
    if served: "mock_serve redirect (receipt_request (webhookRequest msg url body)) s = (rsp, s1)" for url body rsp s1
  proof -
    have r: "req_Method (receipt_request (webhookRequest msg url body)) = ''POST''"
      "req_Path (receipt_request (webhookRequest msg url body)) = ''/receipts''"
      by (simp_all add: receipt_request_def webhookRequest_def)
    obtain rsp0 where h: "handleReceipts (receipt_request (webhookRequest msg url body)) s = (rsp0, s1)"
      "rsp_Status rsp = rsp_Status rsp0" using receipt_served [OF r served] by blast
    show ?thesis using handleReceipts_counted [OF h(1) r(1) assms(4) webhook_key [OF ok(2)] ok(2)] h(2) by simp
  qed
  show ?thesis using assms(1,2,4) ok(1)
    by (auto simp: processMessageWithResult_def processWebhookMessageWithResult_def mock_client_def
        NewHTTPFailure_def ClassifyHTTPStatus_def Let_def
        split: option.splits prod.splits fate.splits if_splits dest!: sent)
qed

lemma control_counted:
  assumes "mock_serve redirect r s = (rsp, s')" "req_Path r = ''/control/mode''" "counted s"
  shows "counted s' \<and> rs_seenKeys s' = rs_seenKeys s"
  using assms(1)
  by (cases rule: mock_serve_cases)
    (use assms(2,3) in \<open>auto simp: handleControlMode_def handleStats_def counted_def split: if_splits option.splits\<close>)

lemma deliveries_counted:
  assumes "deliveries env redirect acts (s, n) = (results, s', n')" "en_do env = mock_client redirect fate"
    "\<forall>a \<in> set acts. act_ok a" "counted s"
  shows "counted s' \<and> set (rs_seenKeys s) \<subseteq> set (rs_seenKeys s') \<and>
    set (rs_seenKeys s') \<subseteq> set (rs_seenKeys s) \<union> eventIDFromMessage ` {msg. Deliver msg \<in> set acts} \<and>
    (\<forall>msg code. (msg, code, None) \<in> set results \<longrightarrow> eventIDFromMessage msg \<in> set (rs_seenKeys s'))"
  using assms
proof (induction acts arbitrary: s n results)
  case (Cons a acts)
  show ?case
  proof (cases a)
    case (Control r)
    obtain rsp s1 where step: "mock_serve redirect r s = (rsp, s1)" by (metis surj_pair)
    have c: "counted s1 \<and> rs_seenKeys s1 = rs_seenKeys s"
      using control_counted [OF step] Cons.prems(3,4) Control by (simp add: act_ok_def)
    then show ?thesis using Cons.IH [of s1 n results] Cons.prems Control step by auto
  next
    case (Deliver msg)
    obtain code err s1 n1 where step: "processMessageWithResult env msg (s, n) = ((code, err), s1, n1)"
      by (metis surj_pair)
    obtain rest where rest: "deliveries env redirect acts (s1, n1) = (rest, s', n')"
      "results = (msg, code, err) # rest" using Cons.prems(1) Deliver step by (auto split: prod.splits)
    have c: "counted s1 \<and> set (rs_seenKeys s) \<subseteq> set (rs_seenKeys s1) \<and>
        set (rs_seenKeys s1) \<subseteq> insert (eventIDFromMessage msg) (set (rs_seenKeys s)) \<and>
        (err = None \<longrightarrow> eventIDFromMessage msg \<in> set (rs_seenKeys s1))"
      using delivery_counted [OF step Cons.prems(2)] Cons.prems(3,4) Deliver by simp
    have "counted s' \<and> set (rs_seenKeys s1) \<subseteq> set (rs_seenKeys s') \<and>
        set (rs_seenKeys s') \<subseteq> set (rs_seenKeys s1) \<union> eventIDFromMessage ` {msg. Deliver msg \<in> set acts} \<and>
        (\<forall>msg code. (msg, code, None) \<in> set rest \<longrightarrow> eventIDFromMessage msg \<in> set (rs_seenKeys s'))"
      using Cons.IH [OF rest(1) Cons.prems(2)] Cons.prems(3) c by simp
    moreover have "eventIDFromMessage ` {m. Deliver m \<in> set (a # acts)} =
        insert (eventIDFromMessage msg) (eventIDFromMessage ` {m. Deliver m \<in> set acts})"
      using Deliver by auto
    ultimately show ?thesis using c rest(2) by auto
  qed
qed simp

text \<open>
  C13: Each event counts once at the destination. The worker delivers webhook messages to the mock
  destination, in any order and any number of times, over a network that loses requests and answers at will, while the modes
  of the destination change: the destination then counts exactly as many successful receipts as
  it has keys, every key is the identifier of an event that was delivered, and every event that the worker
  saw delivered is among them. So a repeated delivery of an event never counts twice.
\<close>

theorem events_counted_once:
  assumes "deliveries env redirect acts (newReceiptServer, 0) = (results, s, n)"
    and "en_do env = mock_client redirect fate" "\<forall>a \<in> set acts. act_ok a" "length acts < 2 ^ 63"
  shows "rs_successful s = int (card (set (rs_seenKeys s))) \<and>
    set (rs_seenKeys s) \<subseteq> eventIDFromMessage ` {msg. Deliver msg \<in> set acts} \<and>
    (\<forall>msg code. (msg, code, None) \<in> set results \<longrightarrow> eventIDFromMessage msg \<in> set (rs_seenKeys s))"
proof -
  have "counted newReceiptServer" by (simp add: counted_def newReceiptServer_def)
  from deliveries_counted [OF assms(1-3) this]
  have c: "counted s" "set (rs_seenKeys s) \<subseteq> eventIDFromMessage ` {msg. Deliver msg \<in> set acts}"
    "\<forall>msg code. (msg, code, None) \<in> set results \<longrightarrow> eventIDFromMessage msg \<in> set (rs_seenKeys s)"
    by (auto simp: newReceiptServer_def)
  have "eventIDFromMessage ` {msg. Deliver msg \<in> set acts} \<subseteq>
      (\<lambda>a. case a of Deliver msg \<Rightarrow> eventIDFromMessage msg | Control r \<Rightarrow> []) ` set acts" by force
  with c(2) have "set (rs_seenKeys s) \<subseteq>
      (\<lambda>a. case a of Deliver msg \<Rightarrow> eventIDFromMessage msg | Control r \<Rightarrow> []) ` set acts" by (rule order_trans)
  then have "card (set (rs_seenKeys s)) \<le> card (set acts)" by (rule surj_card_le [OF finite_set])
  also have "\<dots> \<le> length acts" by (rule card_length)
  finally have "card (set (rs_seenKeys s)) < 2 ^ 63" using assms(4) by linarith
  then have "is_int64 (int (card (set (rs_seenKeys s))))" by (auto simp: is_int64_def)
  then have "rs_successful s = int (card (set (rs_seenKeys s)))"
    using c(1) by (simp add: counted_def distinct_card)
  with c(2,3) show ?thesis by blast
qed

text \<open>An example: the answer to the first delivery is lost, and the event is delivered again.\<close>

definition lossy_env :: "(receiptServer \<times> nat) worker_env" where
  "lossy_env = \<lparr>en_now = (\<lambda>w. (0, w)), en_redis = idle_redis,
     en_do = mock_client (\<lambda>p r. status_only 301) (\<lambda>i. if i = 0 then AnswerLost (ErrNew ''timeout'') else Answered),
     en_url_error = (\<lambda>url. None), en_ctx = \<lparr>ctx_err = (\<lambda>w. False), ctx_wait = (\<lambda>d w. (True, w))\<rparr>, en_tick = (\<lambda>w. (True, w)), en_lib = plain_lib\<rparr>"

definition example_webhook :: XMessage where
  "example_webhook = \<lparr>xm_ID = ''1-0'', xm_Values = [(''event_id'', JStr ''e1''), (''event_type'', JStr ''webhook''),
     (''payload'', JStr (marshal (JObj [(''data'', JObj [(''invoice_id'', JStr ''i1'')]),
        (''url'', JStr ''http://mock/receipts'')])))]\<rparr>"

theorem events_counted_once_witness:
  "(case deliveries lossy_env (\<lambda>p r. status_only 301) [Deliver example_webhook, Deliver example_webhook]
      (newReceiptServer, 0) of
    (results, s, n) \<Rightarrow> map (snd \<circ> snd) results =
        [Some (NewRetryableFailure (Some (ErrWrap ''deliver webhook request: '' (ErrNew ''timeout'') []))), None] \<and>
      rs_successful s = int (card (set (rs_seenKeys s))) \<and> ''e1'' \<in> set (rs_seenKeys s))"
proof -
  let ?acts = "[Deliver example_webhook, Deliver example_webhook]"
  obtain results s n where run: "deliveries lossy_env (\<lambda>p r. status_only 301) ?acts (newReceiptServer, 0) = (results, s, n)"
    by (metis surj_pair)
  have "map (snd \<circ> snd) (fst (deliveries lossy_env (\<lambda>p r. status_only 301) ?acts (newReceiptServer, 0))) =
      [Some (NewRetryableFailure (Some (ErrWrap ''deliver webhook request: '' (ErrNew ''timeout'') []))), None]"
    by code_simp
  moreover have "\<forall>a \<in> set ?acts. act_ok a" "eventIDFromMessage example_webhook = ''e1''" by code_simp+
  moreover have "map fst (fst (deliveries lossy_env (\<lambda>p r. status_only 301) ?acts (newReceiptServer, 0))) =
      [example_webhook, example_webhook]" by code_simp
  ultimately show ?thesis using run events_counted_once [OF run, of _] 
    by (auto simp: lossy_env_def)
qed

end
