(* ===== verification/Test_Postgres.thy ===== *)
theory Test_Postgres
  imports Go_Http
begin

text \<open>
  The databases of the integration tests, \<open>internal/testutil/postgres.go\<close>: a schema with a random
  name for each test, the migrations in it, and the cleanup that drops it. A test that ends early
  (\<open>t.Skip\<close>, \<open>t.Fatalf\<close>) is a value of \<open>test_end\<close>; deferred calls run before it is returned. The
  search for the repository root may not return as far as the code goes, so it is a partial function. What PostgreSQL,
  the operating system and the random source answer are the records \<open>test_server\<close> and \<open>test_os\<close>.
\<close>

section \<open>Paths\<close>

text \<open>\<open>filepath.Clean\<close>, \<open>Dir\<close> and \<open>Join\<close> on Unix.\<close>

definition clean_step :: "bool \<Rightarrow> bytes list \<Rightarrow> bytes \<Rightarrow> bytes list" where
  "clean_step rooted segs seg =
     (if seg = [] \<or> seg = ''.'' then segs
      else if seg = ''..'' then
        (if segs \<noteq> [] \<and> last segs \<noteq> ''..'' then butlast segs
         else if rooted then segs else segs @ [seg])
      else segs @ [seg])"

definition join_slash :: "bytes list \<Rightarrow> bytes" where
  "join_slash segs = tl (concat (map (\<lambda>seg. CHR ''/'' # seg) segs))"

definition filepath_Clean :: "bytes \<Rightarrow> bytes" where
  "filepath_Clean path =
     (let rooted = prefix ''/'' path;
          segs = foldl (clean_step rooted) [] (split_on (CHR ''/'') path);
          out = (if rooted then ''/'' else []) @ join_slash segs
      in if out = [] then ''.'' else out)"

definition filepath_Dir :: "bytes \<Rightarrow> bytes" where
  "filepath_Dir path = filepath_Clean (rev (dropWhile (\<lambda>c. c \<noteq> CHR ''/'') (rev path)))"

definition filepath_Join :: "bytes \<Rightarrow> bytes \<Rightarrow> bytes" where
  "filepath_Join a b =
     (if a = [] \<and> b = [] then []
      else if a = [] then filepath_Clean b
      else if b = [] then filepath_Clean a
      else filepath_Clean (a @ ''/'' @ b))"

definition filepath_Base :: "bytes \<Rightarrow> bytes" where
  "filepath_Base path =
     (if path = [] then ''.''
      else
        let s = rev (dropWhile (\<lambda>c. c = CHR ''/'') (rev path)) in
        if s = [] then ''/'' else rev (takeWhile (\<lambda>c. c \<noteq> CHR ''/'') (rev s)))"

section \<open>The repository\<close>

datatype test_end = Skip bytes | Fatal bytes

text \<open>\<open>os.Stat\<close> says whether a path is a directory, if it exists.\<close>

record test_os =
  os_Getenv :: "bytes \<Rightarrow> bytes"
  os_Getwd :: "error + bytes"
  os_Stat :: "bytes \<Rightarrow> bool option"
  os_Glob :: "bytes \<Rightarrow> error + bytes list"
  os_ReadFile :: "bytes \<Rightarrow> error + bytes"

definition fileExists :: "test_os \<Rightarrow> bytes \<Rightarrow> bool" where
  "fileExists os path \<longleftrightarrow> (case os_Stat os path of None \<Rightarrow> False | Some isDir \<Rightarrow> \<not> isDir)"

definition dirExists :: "test_os \<Rightarrow> bytes \<Rightarrow> bool" where
  "dirExists os path \<longleftrightarrow> (case os_Stat os path of None \<Rightarrow> False | Some isDir \<Rightarrow> isDir)"

definition isRoot :: "test_os \<Rightarrow> bytes \<Rightarrow> bool" where
  "isRoot os dir \<longleftrightarrow>
     fileExists os (filepath_Join dir ''go.mod'') \<and> dirExists os (filepath_Join dir ''migrations'')"

partial_function (option) searchUp :: "test_os \<Rightarrow> bytes \<Rightarrow> (test_end + bytes) option" where
  "searchUp os dir =
     (if isRoot os dir then Some (Inr (filepath_Join dir ''migrations''))
      else
        let parent = filepath_Dir dir in
        if parent = dir
        then Some (Inl (Fatal ''could not find repository root containing go.mod and migrations''))
        else searchUp os parent)"

declare searchUp.simps [code]

definition findMigrationsDir :: "test_os \<Rightarrow> (test_end + bytes) option" where
  "findMigrationsDir os =
     (case os_Getwd os of
        Inl e \<Rightarrow> Some (Inl (Fatal (''get working directory: '' @ error_text e)))
      | Inr dir \<Rightarrow> searchUp os dir)"

section \<open>The server\<close>

datatype test_stmt =
    LockUUID
  | CreateExtension
  | MoveExtension
  | UnlockUUID
  | CreateSchema
  | DropSchema
  | RunMigration bytes

text \<open>The schemas with their contents, the schema that has the objects of the extension \<open>uuid-ossp\<close>, the advisory
  locks with the connections that hold them, whether the admin pool is open, and the lines of \<open>t.Logf\<close>.\<close>

record 's test_db =
  td_schemas :: "(bytes \<times> 's) list"
  td_extension :: "bytes option"
  td_locks :: "(nat \<times> int) list"
  td_admin :: bool
  td_logs :: "bytes list"

text \<open>The faults of statements and of the configuration, the connection of the pool a statement runs on, the
  clock, the random source, what the objects of the extension add to a schema and leave when they are moved away,
  and the effect of a script, run in a schema, on all schemas and the extension.\<close>

record 's test_server =
  ts_fault :: "test_stmt \<Rightarrow> error option"
  ts_conn :: "test_stmt \<Rightarrow> nat"
  ts_newPool :: "bytes \<Rightarrow> error option"
  ts_parseConfig :: "bytes \<Rightarrow> error option"
  ts_newWithConfig :: "bytes \<Rightarrow> error option"
  ts_UnixNano :: int
  ts_rand :: "error + bytes"
  ts_empty :: 's
  ts_install :: "'s \<Rightarrow> 's"
  ts_remove :: "'s \<Rightarrow> 's"
  ts_exec :: "bytes \<Rightarrow> bytes \<Rightarrow> (bytes \<times> 's) list \<times> bytes option \<Rightarrow> error + ((bytes \<times> 's) list \<times> bytes option)"

text \<open>A quoted identifier of PostgreSQL at the beginning of a text: a doubled quote stands for a quote;
  what follows the first 63 bytes is dropped.\<close>

fun ident_body :: "bytes \<Rightarrow> (bytes \<times> bytes) option" where
  "ident_body [] = None"
| "ident_body (c # s) =
     (if c \<noteq> CHR 0x22 then map_option (\<lambda>(n, t). (c # n, t)) (ident_body s)
      else
        case s of
          [] \<Rightarrow> Some ([], [])
        | d # t \<Rightarrow>
            if d = CHR 0x22 then map_option (\<lambda>(n, u). (CHR 0x22 # n, u)) (ident_body t)
            else Some ([], s))"

definition pg_ident :: "bytes \<Rightarrow> (bytes \<times> bytes) option" where
  "pg_ident s =
     (case s of
        [] \<Rightarrow> None
      | c # t \<Rightarrow>
          if c \<noteq> CHR 0x22 then None
          else
            case ident_body t of
              None \<Rightarrow> None
            | Some (n, rest) \<Rightarrow> if n = [] then None else Some (take 63 n, rest))"

definition syntax_error :: error where "syntax_error = ErrNew ''SQLSTATE 42601''"

text \<open>\<open>CREATE SCHEMA\<close> and \<open>DROP SCHEMA IF EXISTS ... CASCADE\<close>, given the text after these words.\<close>

definition create_schema :: "'s test_server \<Rightarrow> bytes \<Rightarrow> 's test_db \<Rightarrow> error + 's test_db" where
  "create_schema sv text d =
     (case ts_fault sv CreateSchema of
        Some e \<Rightarrow> Inl e
      | None \<Rightarrow>
      case pg_ident text of
        Some (n, []) \<Rightarrow>
          if n \<in> fst ` set (td_schemas d) then Inl (ErrNew ''SQLSTATE 42P06'')
          else Inr (d\<lparr>td_schemas := td_schemas d @ [(n, ts_empty sv)]\<rparr>)
      | _ \<Rightarrow> Inl syntax_error)"

definition drop_schema :: "'s test_server \<Rightarrow> bytes \<Rightarrow> 's test_db \<Rightarrow> error + 's test_db" where
  "drop_schema sv text d =
     (case ts_fault sv DropSchema of
        Some e \<Rightarrow> Inl e
      | None \<Rightarrow>
      case pg_ident text of
        Some (n, rest) \<Rightarrow>
          if rest = '' CASCADE'' then
            Inr (d\<lparr>td_schemas := filter (\<lambda>p. fst p \<noteq> n) (td_schemas d),
                   td_extension := (if td_extension d = Some n then None else td_extension d)\<rparr>)
          else Inl syntax_error
      | None \<Rightarrow> Inl syntax_error)"

text \<open>A script runs in the first schema of the search path that exists.\<close>

definition target_schema :: "bytes \<Rightarrow> 's test_db \<Rightarrow> bytes option" where
  "target_schema path d =
     (case pg_ident path of
        Some (n, rest) \<Rightarrow>
          if rest \<noteq> '', public'' then None
          else find (\<lambda>m. m \<in> fst ` set (td_schemas d)) [n, ''public'']
      | None \<Rightarrow> None)"

definition run_script :: "'s test_server \<Rightarrow> bytes \<Rightarrow> bytes \<Rightarrow> bytes \<Rightarrow> 's test_db \<Rightarrow> error + 's test_db" where
  "run_script sv file path sql d =
     (case ts_fault sv (RunMigration file) of
        Some e \<Rightarrow> Inl e
      | None \<Rightarrow>
      case target_schema path d of
        None \<Rightarrow> Inl (ErrNew ''SQLSTATE 3F000'')
      | Some n \<Rightarrow>
      case ts_exec sv sql n (td_schemas d, td_extension d) of
        Inl e \<Rightarrow> Inl e
      | Inr (ss, ext) \<Rightarrow> Inr (d\<lparr>td_schemas := ss, td_extension := ext\<rparr>))"

text \<open>\<open>CREATE EXTENSION IF NOT EXISTS "uuid-ossp" WITH SCHEMA public\<close> and \<open>ALTER EXTENSION "uuid-ossp" SET SCHEMA public\<close>.\<close>

definition in_schema :: "bytes \<Rightarrow> ('s \<Rightarrow> 's) \<Rightarrow> (bytes \<times> 's) list \<Rightarrow> (bytes \<times> 's) list" where
  "in_schema n f ss = map (\<lambda>(m, t). if m = n then (m, f t) else (m, t)) ss"

definition create_extension :: "'s test_server \<Rightarrow> 's test_db \<Rightarrow> error + 's test_db" where
  "create_extension sv d =
     (case ts_fault sv CreateExtension of
        Some e \<Rightarrow> Inl e
      | None \<Rightarrow>
      if td_extension d \<noteq> None then Inr d
      else if ''public'' \<notin> fst ` set (td_schemas d) then Inl (ErrNew ''SQLSTATE 3F000'')
      else Inr (d\<lparr>td_schemas := in_schema ''public'' (ts_install sv) (td_schemas d),
                  td_extension := Some ''public''\<rparr>))"

definition move_extension :: "'s test_server \<Rightarrow> 's test_db \<Rightarrow> error + 's test_db" where
  "move_extension sv d =
     (case ts_fault sv MoveExtension of
        Some e \<Rightarrow> Inl e
      | None \<Rightarrow>
      case td_extension d of
        None \<Rightarrow> Inl (ErrNew ''SQLSTATE 42704'')
      | Some n \<Rightarrow>
          if ''public'' \<notin> fst ` set (td_schemas d) then Inl (ErrNew ''SQLSTATE 3F000'')
          else if n = ''public'' then Inr d
          else Inr (d\<lparr>td_schemas := in_schema ''public'' (ts_install sv) (in_schema n (ts_remove sv) (td_schemas d)),
                      td_extension := Some ''public''\<rparr>))"

section \<open>The helper\<close>

definition lockID :: int where "lockID = 0x6576656e7472616c"

definition ensureUUIDExtension :: "'s test_server \<Rightarrow> 's test_db \<Rightarrow> test_end option \<times> 's test_db" where
  "ensureUUIDExtension sv d =
     (case ts_fault sv LockUUID of
        Some e \<Rightarrow> (Some (Fatal (''lock uuid extension setup: '' @ error_text e)), d)
      | None \<Rightarrow>
      let d1 = d\<lparr>td_locks := (ts_conn sv LockUUID, lockID) # td_locks d\<rparr>;
          unlock = (\<lambda>d. case ts_fault sv UnlockUUID of
            Some e \<Rightarrow> d\<lparr>td_logs := td_logs d @ [''unlock uuid extension setup: '' @ error_text e]\<rparr>
          | None \<Rightarrow> d\<lparr>td_locks := remove1 (ts_conn sv UnlockUUID, lockID) (td_locks d)\<rparr>)
      in
      case create_extension sv d1 of
        Inl e \<Rightarrow> (Some (Fatal (''create uuid-ossp extension: '' @ error_text e)), unlock d1)
      | Inr d2 \<Rightarrow>
      case move_extension sv d2 of
        Inl e \<Rightarrow> (Some (Fatal (''move uuid-ossp extension to public schema: '' @ error_text e)), unlock d2)
      | Inr d3 \<Rightarrow> (None, unlock d3))"

definition newSafeIntegrationSchemaName :: "'s test_server \<Rightarrow> test_end + bytes" where
  "newSafeIntegrationSchemaName sv =
     (case ts_rand sv of
        Inl e \<Rightarrow> Inl (Fatal (''generate schema suffix: '' @ error_text e))
      | Inr randomBytes \<Rightarrow>
          Inr (''eventrail_test_'' @ Itoa (ts_UnixNano sv) @ ''_'' @ hex_encode randomBytes))"

definition quotePostgresIdentifier :: "bytes \<Rightarrow> bytes" where
  "quotePostgresIdentifier identifier =
     [CHR 0x22] @ concat (map (\<lambda>c. if c = CHR 0x22 then [c, c] else [c]) identifier) @ [CHR 0x22]"

fun runMigrations ::
    "test_os \<Rightarrow> 's test_server \<Rightarrow> bytes \<Rightarrow> bytes list \<Rightarrow> 's test_db \<Rightarrow> test_end option \<times> 's test_db" where
  "runMigrations os sv path [] d = (None, d)"
| "runMigrations os sv path (file # files) d =
     (case os_ReadFile os file of
        Inl e \<Rightarrow> (Some (Fatal (''read migration '' @ filepath_Base file @ '': '' @ error_text e)), d)
      | Inr sql \<Rightarrow>
      case run_script sv file path sql d of
        Inl e \<Rightarrow> (Some (Fatal (''apply migration '' @ filepath_Base file @ '': '' @ error_text e)), d)
      | Inr d1 \<Rightarrow> runMigrations os sv path files d1)"

text \<open>\<open>applyMigrations\<close>; \<open>None\<close> if it does not return.\<close>

definition applyMigrations ::
    "test_os \<Rightarrow> 's test_server \<Rightarrow> bytes \<Rightarrow> 's test_db \<Rightarrow> (test_end option \<times> 's test_db) option" where
  "applyMigrations os sv path d =
     (case findMigrationsDir os of
        None \<Rightarrow> None
      | Some (Inl e) \<Rightarrow> Some (Some e, d)
      | Some (Inr migrationsDir) \<Rightarrow>
      case os_Glob os (filepath_Join migrationsDir ''*.sql'') of
        Inl e \<Rightarrow> Some (Some (Fatal (''list migrations: '' @ error_text e)), d)
      | Inr files \<Rightarrow>
          if files = [] then Some (Some (Fatal (''no migration files found in '' @ migrationsDir)), d)
          else Some (runMigrations os sv path (sort files) d))"

text \<open>The outcome is the end of the test or the schema of the pool; beside it is the registered cleanup, the
  name of the schema to drop.\<close>

definition NewPostgresPool ::
    "test_os \<Rightarrow> 's test_server \<Rightarrow> 's test_db \<Rightarrow> ((test_end + bytes) \<times> bytes option \<times> 's test_db) option" where
  "NewPostgresPool os sv d =
     (let dsn = os_Getenv os ''TEST_POSTGRES_DSN'' in
      if dsn = []
      then Some (Inl (Skip ''TEST_POSTGRES_DSN is not set; skipping PostgreSQL integration test''), None, d)
      else
        case ts_newPool sv dsn of
          Some e \<Rightarrow> Some (Inl (Fatal (''create admin PostgreSQL pool: '' @ error_text e)), None, d)
        | None \<Rightarrow>
        case ensureUUIDExtension sv (d\<lparr>td_admin := True\<rparr>) of
          (Some e, d1) \<Rightarrow> Some (Inl e, None, d1)
        | (None, d1) \<Rightarrow>
        case newSafeIntegrationSchemaName sv of
          Inl e \<Rightarrow> Some (Inl e, None, d1)
        | Inr schemaName \<Rightarrow>
        let quotedSchemaName = quotePostgresIdentifier schemaName in
        case create_schema sv quotedSchemaName d1 of
          Inl e \<Rightarrow>
            Some (Inl (Fatal (''create test schema '' @ schemaName @ '': '' @ error_text e)), None,
              d1\<lparr>td_admin := False, td_locks := []\<rparr>)
        | Inr d2 \<Rightarrow>
        case ts_parseConfig sv dsn of
          Some e \<Rightarrow>
            Some (Inl (Fatal (''parse TEST_POSTGRES_DSN: '' @ error_text e)), Some schemaName, d2)
        | None \<Rightarrow>
        case ts_newWithConfig sv dsn of
          Some e \<Rightarrow>
            Some (Inl (Fatal (''create test PostgreSQL pool: '' @ error_text e)), Some schemaName, d2)
        | None \<Rightarrow>
        case applyMigrations os sv (quotedSchemaName @ '', public'') d2 of
          None \<Rightarrow> None
        | Some (Some e, d3) \<Rightarrow> Some (Inl e, Some schemaName, d3)
        | Some (None, d3) \<Rightarrow> Some (Inr schemaName, Some schemaName, d3))"

text \<open>The function given to \<open>t.Cleanup\<close>.\<close>

definition runCleanup :: "'s test_server \<Rightarrow> bytes \<Rightarrow> 's test_db \<Rightarrow> 's test_db" where
  "runCleanup sv schemaName d =
     (case drop_schema sv (quotePostgresIdentifier schemaName @ '' CASCADE'') d of
        Inl e \<Rightarrow> d\<lparr>td_logs := td_logs d @ [''drop test schema '' @ schemaName @ '': '' @ error_text e],
          td_admin := False, td_locks := []\<rparr>
      | Inr d1 \<Rightarrow> d1\<lparr>td_admin := False, td_locks := []\<rparr>)"

section \<open>The advisory lock\<close>

text \<open>The lock on the setup of the extension is released when both calls run on the same connection of the
  pool. On different ones it stays until the admin pool is closed.\<close>

lemma extension_locks:
  "create_extension sv d = Inr d' \<Longrightarrow> td_locks d' = td_locks d"
  "move_extension sv d = Inr d' \<Longrightarrow> td_locks d' = td_locks d"
  by (auto simp: create_extension_def move_extension_def split: option.splits if_splits)

lemma uuid_lock_released:
  assumes "ts_conn sv UnlockUUID = ts_conn sv LockUUID" "ts_fault sv UnlockUUID = None"
  shows "td_locks (snd (ensureUUIDExtension sv d)) = td_locks d"
  using assms by (auto simp: ensureUUIDExtension_def Let_def split: option.splits sum.splits dest!: extension_locks)

lemma uuid_lock_kept:
  assumes "ts_conn sv UnlockUUID \<noteq> ts_conn sv LockUUID" "ts_fault sv LockUUID = None" "td_locks d = []"
  shows "td_locks (snd (ensureUUIDExtension sv d)) = [(ts_conn sv LockUUID, lockID)]"
  using assms by (auto simp: ensureUUIDExtension_def Let_def split: option.splits sum.splits dest!: extension_locks)

section \<open>Quoting and names\<close>

lemma ident_body_quoted:
  assumes "rest = [] \<or> hd rest \<noteq> CHR 0x22"
  shows "ident_body (concat (map (\<lambda>c. if c = CHR 0x22 then [c, c] else [c]) s) @ CHR 0x22 # rest) = Some (s, rest)"
  using assms by (induction s) (auto split: list.splits)

lemma pg_ident_quoted:
  assumes "s \<noteq> []" "rest = [] \<or> hd rest \<noteq> CHR 0x22"
  shows "pg_ident (quotePostgresIdentifier s @ rest) = Some (take 63 s, rest)"
  using assms ident_body_quoted [OF assms(2)] by (simp add: pg_ident_def quotePostgresIdentifier_def)

lemma length_nat_digits: "n < 10 ^ k \<Longrightarrow> 0 < k \<Longrightarrow> length (nat_digits n) \<le> k"
proof (induction n arbitrary: k rule: nat_digits.induct)
  case (1 n)
  show ?case
  proof (cases "n < 10")
    case True
    then show ?thesis using 1(3) by (subst nat_digits.simps) simp
  next
    case False
    obtain j where k: "k = Suc j" using 1(3) by (cases k) auto
    have "0 < j" using False 1(2) k by (cases j) auto
    with False 1 k show ?thesis by (subst nat_digits.simps) (auto simp: less_mult_imp_div_less mult.commute)
  qed
qed

lemma length_Itoa: "is_int64 i \<Longrightarrow> length (Itoa i) \<le> 20"
proof -
  assume i: "is_int64 i"
  then have "nat \<bar>i\<bar> < 10 ^ 19" by (auto simp: is_int64_def)
  then show ?thesis using length_nat_digits [of "nat \<bar>i\<bar>" 19] by (auto simp: Itoa_def)
qed

lemma length_hex_encode: "length (hex_encode s) = 2 * length s"
  by (induction s) (simp_all add: hex_encode_def)

lemma schema_name_length:
  assumes "newSafeIntegrationSchemaName sv = Inr n" "is_int64 (ts_UnixNano sv)"
    "\<And>bs. ts_rand sv = Inr bs \<Longrightarrow> length bs = 8"
  shows "n \<noteq> [] \<and> length n \<le> 52"
  using assms length_Itoa [OF assms(2)]
  by (auto simp: newSafeIntegrationSchemaName_def length_hex_encode split: sum.splits)

section \<open>Isolation\<close>

text \<open>The two states have the extension in the same schema and differ at most in the schema \<open>n\<close>.\<close>

definition only_schema :: "bytes \<Rightarrow> 's test_db \<Rightarrow> 's test_db \<Rightarrow> bool" where
  "only_schema n d d' \<longleftrightarrow> td_extension d' = td_extension d \<and>
     filter (\<lambda>p. fst p \<noteq> n) (td_schemas d') = filter (\<lambda>p. fst p \<noteq> n) (td_schemas d)"

text \<open>A script that, once the extension exists, changes the schema it runs in and nothing else: it names no
  schema, and \<open>CREATE EXTENSION IF NOT EXISTS\<close> does nothing for an extension that exists.\<close>

definition local_script :: "'s test_server \<Rightarrow> bytes \<Rightarrow> bool" where
  "local_script sv sql \<longleftrightarrow>
     (\<forall>n ss ext ss' ext'. ts_exec sv sql n (ss, Some ext) = Inr (ss', ext') \<longrightarrow>
        ext' = Some ext \<and> map fst ss' = map fst ss \<and>
        filter (\<lambda>p. fst p \<noteq> n) ss' = filter (\<lambda>p. fst p \<noteq> n) ss)"

text \<open>The schemas with the extension in \<open>public\<close>, installed there or moved there.\<close>

definition uuid_in_public :: "'s test_server \<Rightarrow> 's test_db \<Rightarrow> (bytes \<times> 's) list" where
  "uuid_in_public sv d =
     (case td_extension d of
        None \<Rightarrow> in_schema ''public'' (ts_install sv) (td_schemas d)
      | Some n \<Rightarrow>
          if n = ''public'' then td_schemas d
          else in_schema ''public'' (ts_install sv) (in_schema n (ts_remove sv) (td_schemas d)))"

lemma only_schema_refl: "only_schema n d d"
  by (simp add: only_schema_def)

lemma only_schema_trans: "only_schema n d d1 \<Longrightarrow> only_schema n d1 d2 \<Longrightarrow> only_schema n d d2"
  by (simp add: only_schema_def)

lemma run_script_schemas:
  assumes "run_script sv file (quotePostgresIdentifier n @ '', public'') sql d = Inr d'" "local_script sv sql"
    "n \<noteq> []" "length n \<le> 63" "n \<in> fst ` set (td_schemas d)" "td_extension d \<noteq> None"
  shows "only_schema n d d' \<and> map fst (td_schemas d') = map fst (td_schemas d)"
proof -
  have t: "target_schema (quotePostgresIdentifier n @ '', public'') d = Some n"
    using assms(3-5) pg_ident_quoted [of n "'', public''"] by (simp add: target_schema_def)
  obtain ext where ext: "td_extension d = Some ext" using assms(6) by auto
  obtain ss' ext' where run: "ts_exec sv sql n (td_schemas d, Some ext) = Inr (ss', ext')"
    "d' = d\<lparr>td_schemas := ss', td_extension := ext'\<rparr>"
    using assms(1) by (auto simp: run_script_def t ext split: option.splits sum.splits)
  then show ?thesis using assms(2) ext unfolding local_script_def only_schema_def by fastforce
qed

lemma runMigrations_schemas:
  "runMigrations os sv (quotePostgresIdentifier n @ '', public'') files d = (e, d') \<Longrightarrow>
   \<forall>file sql. os_ReadFile os file = Inr sql \<longrightarrow> local_script sv sql \<Longrightarrow> n \<noteq> [] \<Longrightarrow> length n \<le> 63 \<Longrightarrow>
   n \<in> fst ` set (td_schemas d) \<Longrightarrow> td_extension d \<noteq> None \<Longrightarrow> only_schema n d d'"
proof (induction files arbitrary: d)
  case Nil
  then show ?case by (simp add: only_schema_def)
next
  case (Cons x files)
  show ?case
  proof (cases "os_ReadFile os x")
    case (Inl e)
    then show ?thesis using Cons.prems(1) by (simp add: only_schema_def)
  next
    case (Inr sql)
    have l: "local_script sv sql" using Cons.prems(2) Inr by blast
    show ?thesis
    proof (cases "run_script sv x (quotePostgresIdentifier n @ '', public'') sql d")
      case (Inl e)
      then show ?thesis using Cons.prems(1) Inr by (simp add: only_schema_def)
    next
      case (Inr d1)
      from run_script_schemas [OF this l Cons.prems(3-6)]
      have d1: "only_schema n d d1" "map fst (td_schemas d1) = map fst (td_schemas d)" by auto
      have "n \<in> fst ` set (td_schemas d1)" using Cons.prems(5) d1(2) by (metis list.set_map)
      moreover have "td_extension d1 \<noteq> None" using Cons.prems(6) d1(1) by (simp add: only_schema_def)
      ultimately have "only_schema n d1 d'"
        using Cons.IH [of d1] Cons.prems Inr \<open>os_ReadFile os x = Inr sql\<close> by simp
      then show ?thesis by (rule only_schema_trans [OF d1(1)])
    qed
  qed
qed

lemma applyMigrations_schemas:
  assumes "applyMigrations os sv (quotePostgresIdentifier n @ '', public'') d = Some (e, d')"
    "\<forall>file sql. os_ReadFile os file = Inr sql \<longrightarrow> local_script sv sql" "n \<noteq> []" "length n \<le> 63"
    "n \<in> fst ` set (td_schemas d)" "td_extension d \<noteq> None"
  shows "only_schema n d d'"
  using assms runMigrations_schemas [OF _ assms(2-6)]
  by (auto simp: applyMigrations_def only_schema_def split: option.splits sum.splits if_splits)

text \<open>The setup of the extension either has no effect or puts the extension into \<open>public\<close>.\<close>

lemma ensureUUID_schemas:
  assumes "ensureUUIDExtension sv d = (e, d')"
  shows "(td_schemas d', td_extension d') = (uuid_in_public sv d, Some ''public'') \<or>
    e \<noteq> None \<and> (td_schemas d', td_extension d') = (td_schemas d, td_extension d)"
  using assms
  by (auto simp: ensureUUIDExtension_def create_extension_def move_extension_def uuid_in_public_def Let_def
      split: option.splits sum.splits if_splits)

lemma fst_in_schema [simp]: "fst ` set (in_schema n f ss) = fst ` set ss"
  by (induction ss) (auto simp: in_schema_def)

lemma fst_uuid_in_public [simp]: "fst ` set (uuid_in_public sv d) = fst ` set (td_schemas d)"
  by (simp add: uuid_in_public_def split: option.split)

lemma drop_own:
  assumes "ts_fault sv DropSchema = None" "n \<noteq> []" "length n \<le> 63"
  shows "td_schemas (runCleanup sv n d) = filter (\<lambda>p. fst p \<noteq> n) (td_schemas d) \<and>
    td_extension (runCleanup sv n d) = (if td_extension d = Some n then None else td_extension d)"
  using assms pg_ident_quoted [of n "'' CASCADE''"] by (simp add: runCleanup_def drop_schema_def)

lemma created_schema:
  assumes "create_schema sv (quotePostgresIdentifier n) d = Inr d'" "n \<noteq> []" "length n \<le> 63"
  shows "only_schema n d d' \<and> n \<in> fst ` set (td_schemas d')"
  using assms pg_ident_quoted [of n "[]"]
  by (auto simp: create_schema_def only_schema_def split: option.splits if_splits)

lemma NewPostgresPool_schemas:
  assumes "NewPostgresPool os sv d = Some (res, cleanup, d1)" "newSafeIntegrationSchemaName sv = Inr n"
    "n \<noteq> []" "length n \<le> 63" "\<forall>file sql. os_ReadFile os file = Inr sql \<longrightarrow> local_script sv sql"
  shows "cleanup = None \<and> isl res \<and> (td_schemas d1, td_extension d1) \<in>
      {(td_schemas d, td_extension d), (uuid_in_public sv d, Some ''public'')} \<or>
    cleanup = Some n \<and> (\<exists>d0. td_schemas d0 = uuid_in_public sv d \<and> td_extension d0 = Some ''public'' \<and> only_schema n d0 d1)"
proof (cases "os_Getenv os ''TEST_POSTGRES_DSN'' = [] \<or> ts_newPool sv (os_Getenv os ''TEST_POSTGRES_DSN'') \<noteq> None")
  case True
  then show ?thesis using assms(1) by (auto simp: NewPostgresPool_def Let_def split: option.splits if_splits)
next
  case False
  obtain e d0 where u: "ensureUUIDExtension sv (d\<lparr>td_admin := True\<rparr>) = (e, d0)" by force
  have pub: "uuid_in_public sv (d\<lparr>td_admin := True\<rparr>) = uuid_in_public sv d"
    by (simp add: uuid_in_public_def split: option.split)
  show ?thesis
  proof (cases e)
    case (Some x)
    then show ?thesis using assms(1) False u ensureUUID_schemas [OF u]
      by (auto simp: NewPostgresPool_def Let_def pub)
  next
    case None
    have d0: "td_schemas d0 = uuid_in_public sv d" "td_extension d0 = Some ''public''"
      using ensureUUID_schemas [OF u] None by (auto simp: pub)
    show ?thesis
    proof (cases "create_schema sv (quotePostgresIdentifier n) d0")
      case (Inl x)
      then show ?thesis using assms(1,2) False u None d0 by (auto simp: NewPostgresPool_def Let_def)
    next
      case (Inr d2)
      have d2: "only_schema n d0 d2" "n \<in> fst ` set (td_schemas d2)" "td_extension d2 \<noteq> None"
        using created_schema [OF Inr assms(3,4)] d0(2) by (auto simp: only_schema_def)
      have "cleanup = Some n \<and> only_schema n d2 d1"
        using assms(1,2) False u None Inr applyMigrations_schemas [OF _ assms(5,3,4) d2(2,3)]
        by (auto simp: NewPostgresPool_def Let_def only_schema_refl split: option.splits)
      then show ?thesis using d0 d2(1) only_schema_trans by blast
    qed
  qed
qed

text \<open>
  C26: A test leaves nothing behind but the extension. If the migration scripts change only the schema they run in (once
  \<open>uuid-ossp\<close> exists), then whatever fails in the setup of a test database, and whatever the test does inside its own
  schema, the registered cleanup leaves the schemas and their contents as they were, except that the objects of
  \<open>uuid-ossp\<close> are now in \<open>public\<close>, installed there or moved there from another schema. Without a registered cleanup
  the setup has failed, no schema was created, and at most the extension was put into \<open>public\<close>. The random name fits
  PostgreSQL's limit for identifiers and survives the quoting, so the schema that is dropped is the one that was created.
\<close>

theorem test_schema_isolated:
  assumes "NewPostgresPool os sv d = Some (res, cleanup, d1)" "newSafeIntegrationSchemaName sv = Inr n"
    and "is_int64 (ts_UnixNano sv)" "\<And>bs. ts_rand sv = Inr bs \<Longrightarrow> length bs = 8"
    and "\<forall>file sql. os_ReadFile os file = Inr sql \<longrightarrow> local_script sv sql"
    and "n \<notin> fst ` set (td_schemas d)" "only_schema n d1 d2" "ts_fault sv DropSchema = None"
  shows "case cleanup of
      None \<Rightarrow> isl res \<and> (td_schemas d1, td_extension d1) \<in>
        {(td_schemas d, td_extension d), (uuid_in_public sv d, Some ''public'')}
    | Some m \<Rightarrow> m = n \<and>
        (td_schemas (runCleanup sv m d2), td_extension (runCleanup sv m d2)) = (uuid_in_public sv d, Some ''public'')"
proof -
  have n: "n \<noteq> []" "length n \<le> 63" using schema_name_length [OF assms(2-4)] by auto
  have "n \<noteq> ''public''" using assms(2) by (auto simp: newSafeIntegrationSchemaName_def split: sum.splits)
  moreover have "n \<notin> fst ` set (uuid_in_public sv d)" using assms(6) by simp
  then have "filter (\<lambda>p. fst p \<noteq> n) (uuid_in_public sv d) = uuid_in_public sv d"
    by (intro filter_True ballI) (metis image_eqI)
  ultimately show ?thesis
    using NewPostgresPool_schemas [OF assms(1,2) n assms(5)] drop_own [OF assms(8) n, of d2] assms(7)
    by (auto simp: only_schema_def)
qed

section \<open>The search for the repository root\<close>

definition plain_seg :: "bytes \<Rightarrow> bool" where
  "plain_seg seg \<longleftrightarrow> seg \<noteq> [] \<and> seg \<noteq> ''.'' \<and> seg \<noteq> ''..'' \<and> CHR ''/'' \<notin> set seg"

definition abs_path :: "bytes list \<Rightarrow> bytes" where
  "abs_path segs = CHR ''/'' # join_slash segs"

lemma split_segments:
  assumes "\<And>s. s \<in> set (s0 # segs) \<Longrightarrow> c \<notin> set s"
  shows "split_on c (s0 @ concat (map (\<lambda>seg. c # seg) segs)) = s0 # segs"
  using assms by (induction segs arbitrary: s0) (simp_all add: split_on_none split_on_append)

lemma clean_plain: "\<forall>s \<in> set segs. plain_seg s \<Longrightarrow> foldl (clean_step True) acc segs = acc @ segs"
  by (induction segs arbitrary: acc) (auto simp: clean_step_def plain_seg_def)

lemma clean_blank: "\<forall>s \<in> set rest. s = [] \<Longrightarrow> foldl (clean_step True) acc rest = acc"
  by (induction rest) (auto simp: clean_step_def)

lemma Clean_plain:
  assumes "\<forall>s \<in> set segs. plain_seg s" "segs @ rest \<noteq> []" "\<forall>s \<in> set rest. s = []"
  shows "filepath_Clean (concat (map (\<lambda>seg. CHR ''/'' # seg) (segs @ rest))) = abs_path segs"
proof -
  let ?p = "concat (map (\<lambda>seg. CHR ''/'' # seg) (segs @ rest))"
  have "CHR ''/'' \<notin> set s" if "s \<in> set ([] # segs @ rest)" for s
    using that assms(1,3) by (cases "s = []") (auto simp: plain_seg_def)
  then have "split_on (CHR ''/'') ([] @ ?p) = [] # segs @ rest" by (rule split_segments)
  moreover have "foldl (clean_step True) [] ([] # segs @ rest) = segs"
    using clean_plain [OF assms(1), of "[]"] clean_blank [OF assms(3)] by (simp add: clean_step_def)
  moreover have "prefix ''/'' ?p" using assms(2) by (cases "segs @ rest") auto
  ultimately show ?thesis by (simp add: filepath_Clean_def abs_path_def)
qed

lemma abs_path_concat: "segs \<noteq> [] \<Longrightarrow> abs_path segs = concat (map (\<lambda>seg. CHR ''/'' # seg) segs)"
  by (cases segs) (simp_all add: abs_path_def join_slash_def)

lemma Dir_abs_path:
  assumes "\<forall>s \<in> set segs. plain_seg s" "plain_seg s"
  shows "filepath_Dir (abs_path (segs @ [s])) = abs_path segs"
proof -
  let ?p = "concat (map (\<lambda>seg. CHR ''/'' # seg) segs)"
  have "CHR ''/'' \<notin> set s" using assms(2) by (simp add: plain_seg_def)
  then have "dropWhile (\<lambda>c. c \<noteq> CHR ''/'') (rev (?p @ CHR ''/'' # s)) = CHR ''/'' # rev ?p"
    by (simp add: dropWhile_append)
  moreover have "abs_path (segs @ [s]) = ?p @ CHR ''/'' # s" by (simp add: abs_path_concat)
  moreover have "filepath_Clean (?p @ ''/'') = abs_path segs" using Clean_plain [OF assms(1), of "[[]]"] by simp
  ultimately show ?thesis by (simp add: filepath_Dir_def)
qed

lemma Dir_root: "filepath_Dir (abs_path []) = abs_path []"
  by code_simp

lemma Join_abs_path:
  assumes "\<forall>s \<in> set segs. plain_seg s" "plain_seg name"
  shows "filepath_Join (abs_path segs) name = abs_path (segs @ [name])"
proof (cases "segs = []")
  case True
  have "split_on (CHR ''/'') ([] @ concat (map (\<lambda>seg. CHR ''/'' # seg) [[], name])) = [[], [], name]"
    by (rule split_segments) (use assms(2) in \<open>auto simp: plain_seg_def\<close>)
  then show ?thesis using assms(2) clean_plain [of "[name]" "[]"] True
    by (simp add: filepath_Join_def filepath_Clean_def abs_path_def join_slash_def plain_seg_def clean_step_def)
next
  case False
  have "filepath_Clean (concat (map (\<lambda>seg. CHR ''/'' # seg) ((segs @ [name]) @ []))) = abs_path (segs @ [name])"
    by (rule Clean_plain) (use assms in auto)
  then show ?thesis using False assms(2)
    by (simp add: filepath_Join_def abs_path_concat plain_seg_def)
qed

lemma abs_path_inject:
  assumes "\<forall>s \<in> set segs. plain_seg s" "plain_seg s"
  shows "abs_path segs \<noteq> abs_path (segs @ [s])"
  by (cases "segs = []") (use assms(2) in \<open>auto simp: abs_path_concat abs_path_def join_slash_def plain_seg_def\<close>)

text \<open>The directories from the working directory up to the root.\<close>

definition ancestors :: "bytes list \<Rightarrow> bytes list list" where
  "ancestors segs = map (\<lambda>k. take k segs) (rev [0..<Suc (length segs)])"

lemma ancestors_Nil: "ancestors [] = [[]]"
  by (simp add: ancestors_def)

lemma ancestors_snoc: "ancestors (segs @ [s]) = (segs @ [s]) # ancestors segs"
  by (auto simp: ancestors_def)

lemma searchUp_finds:
  "\<forall>s \<in> set segs. plain_seg s \<Longrightarrow>
   searchUp os (abs_path segs) = Some (case find (\<lambda>a. isRoot os (abs_path a)) (ancestors segs) of
     Some a \<Rightarrow> Inr (abs_path (a @ [''migrations'']))
   | None \<Rightarrow> Inl (Fatal ''could not find repository root containing go.mod and migrations''))"
proof (induction segs rule: rev_induct)
  case Nil
  have m: "filepath_Join (abs_path []) ''migrations'' = abs_path [''migrations'']"
    using Join_abs_path [of "[]" "''migrations''"] by (simp add: plain_seg_def)
  show ?case by (subst searchUp.simps) (simp add: ancestors_Nil Dir_root m)
next
  case (snoc s segs)
  then have ok: "\<forall>s \<in> set segs. plain_seg s" "plain_seg s" by auto
  have m: "filepath_Join (abs_path (segs @ [s])) ''migrations'' = abs_path ((segs @ [s]) @ [''migrations''])"
    using snoc.prems by (intro Join_abs_path) (simp_all add: plain_seg_def)
  show ?case using snoc.IH [OF ok(1)] abs_path_inject [OF ok]
    by (subst searchUp.simps) (simp add: ancestors_snoc m Dir_abs_path [OF ok])
qed

text \<open>
  C27: The search for the migrations returns and finds the nearest repository. From every absolute working
  directory, \<open>findMigrationsDir\<close> returns, with the directory \<open>migrations\<close> of the first of the working directory
  and its parents that has a file \<open>go.mod\<close> and a directory \<open>migrations\<close>, or with a failure if there is none.
\<close>

theorem migrations_dir_found:
  assumes "os_Getwd os = Inr (abs_path segs)" "list_all plain_seg segs"
  shows "findMigrationsDir os = Some (case find (\<lambda>a. isRoot os (abs_path a)) (ancestors segs) of
     Some a \<Rightarrow> Inr (abs_path (a @ [''migrations'']))
   | None \<Rightarrow> Inl (Fatal ''could not find repository root containing go.mod and migrations''))"
  using assms searchUp_finds [of segs os] by (simp add: findMigrationsDir_def list_all_iff)

text \<open>A checkout in \<open>/r\<close>, seen from a package of it.\<close>

definition example_os :: test_os where
  "example_os = \<lparr>os_Getenv = (\<lambda>_. ''dsn''), os_Getwd = Inr ''/r/internal/x'',
     os_Stat = map_of [(''/r/go.mod'', False), (''/r/migrations'', True)],
     os_Glob = (\<lambda>_. Inr [''/r/migrations/2.sql'', ''/r/migrations/1.sql'']), os_ReadFile = (\<lambda>f. Inr f)\<rparr>"

definition example_test_server :: "bytes list test_server" where
  "example_test_server = \<lparr>ts_fault = (\<lambda>_. None), ts_conn = (\<lambda>_. 0), ts_newPool = (\<lambda>_. None),
     ts_parseConfig = (\<lambda>_. None), ts_newWithConfig = (\<lambda>_. None), ts_UnixNano = 7, ts_rand = Inr ''abcdefgh'',
     ts_empty = [], ts_install = (\<lambda>t. t @ [''uuid-ossp'']), ts_remove = removeAll ''uuid-ossp'',
     ts_exec = (\<lambda>sql n (ss, ext). Inr (in_schema n (\<lambda>t. t @ [sql]) ss, ext))\<rparr>"

definition example_test_db :: "bytes list test_db" where
  "example_test_db = \<lparr>td_schemas = [(''public'', [])], td_extension = None, td_locks = [], td_admin = False,
     td_logs = []\<rparr>"

theorem migrations_dir_found_witness: "findMigrationsDir example_os = Some (Inr ''/r/migrations'')"
proof -
  have "os_Getwd example_os = Inr (abs_path [''r'', ''internal'', ''x''])" by code_simp
  moreover have "list_all plain_seg [''r'', ''internal'', ''x'']" by code_simp
  moreover have "(case find (\<lambda>a. isRoot example_os (abs_path a)) (ancestors [''r'', ''internal'', ''x'']) of
     Some a \<Rightarrow> Inr (abs_path (a @ [''migrations'']))
   | None \<Rightarrow> Inl (Fatal ''could not find repository root containing go.mod and migrations'')) =
     Inr ''/r/migrations''" by code_simp
  ultimately show ?thesis using migrations_dir_found by metis
qed

lemma in_schema_other: "map fst (in_schema n f ss) = map fst ss"
  "filter (\<lambda>p. fst p \<noteq> n) (in_schema n f ss) = filter (\<lambda>p. fst p \<noteq> n) ss"
  by (induction ss) (auto simp: in_schema_def split: if_splits)

theorem test_schema_isolated_witness:
  "case NewPostgresPool example_os example_test_server example_test_db of
     Some (Inr n, Some m, d1) \<Rightarrow> n = m \<and> length (td_schemas d1) = 2 \<and>
       td_schemas (runCleanup example_test_server m d1) = [(''public'', [''uuid-ossp''])]
   | _ \<Rightarrow> False"
  (is "case ?run of Some (Inr n, Some m, d1) \<Rightarrow> ?P n m d1 | _ \<Rightarrow> False")
proof -
  have ev: "case ?run of Some (Inr n, Some m, d1) \<Rightarrow> n = m \<and> length (td_schemas d1) = 2 | _ \<Rightarrow> False" by code_simp
  then obtain n m d1 where run: "?run = Some (Inr n, Some m, d1)"
    by (cases ?run) (auto split: sum.splits option.splits, metis sumE)
  obtain k where k: "newSafeIntegrationSchemaName example_test_server = Inr k" "k \<noteq> ''public''"
    by (simp add: newSafeIntegrationSchemaName_def example_test_server_def)
  have "is_int64 (ts_UnixNano example_test_server)" by code_simp
  moreover have "length bs = 8" if "ts_rand example_test_server = Inr bs" for bs
    using that by (simp add: example_test_server_def) auto
  moreover have "local_script example_test_server sql" for sql
    by (simp add: local_script_def example_test_server_def in_schema_other)
  moreover have "k \<notin> fst ` set (td_schemas example_test_db)" using k(2) by (simp add: example_test_db_def)
  moreover have "only_schema k d1 d1" by (rule only_schema_refl)
  moreover have "ts_fault example_test_server DropSchema = None" by (simp add: example_test_server_def)
  moreover have "uuid_in_public example_test_server example_test_db = [(''public'', [''uuid-ossp''])]" by code_simp
  ultimately have "td_schemas (runCleanup example_test_server m d1) = [(''public'', [''uuid-ossp''])]"
    using test_schema_isolated [OF run k(1), of d1] by auto
  then show ?thesis using ev run by simp
qed

end
