(* ===== verification/Spec2Isabelle.thy ===== *)
theory Spec2Isabelle
  imports Program Stream_Copies Delivery_Destination Test_Postgres
begin

text \<open>
  \<^bold>\<open>EventRail.\<close> EventRail stores events that clients post over HTTP, publishes them to a Redis stream
  through a transactional outbox, and delivers them to webhooks with retries and a dead-letter queue.
  This library models its Go code (under \<open>src/\<close>) as functions on explicit state and proves what makes the
  parts correct.

  \<^bold>\<open>The parts and how they interact.\<close>
  A client posts an event (\<open>internal/httpapi/event_handler.go\<close>); \<open>internal/ingestion\<close> stores it together
  with an outbox row and its first two statuses in one transaction. The outbox runner
  (\<open>internal/outbox\<close>) claims due rows and appends them to the stream
  (\<open>internal/broker/redisstream\<close>). The delivery worker (\<open>internal/deliveryworker\<close>) reads the stream,
  calls the webhook, classifies failures (\<open>internal/delivery\<close>), schedules retries in a sorted set or moves
  the message to a dead-letter stream, and records every outcome in the tables through
  \<open>internal/operations\<close>. The other handlers of \<open>internal/httpapi\<close> and \<open>cmd/api\<close> show the state, redrive
  dead-lettered events, replay stored ones and ask an AI service for explanations.
  \<open>cmd/mock-destination\<close> is a destination for demonstrations; \<open>migrations\<close> creates the tables;
  \<open>internal/testutil\<close> creates a schema for each integration test.

  \<^bold>\<open>Theories.\<close>
  \<^item> \<open>Go_Base\<close>, \<open>Go_Json\<close>, \<open>Go_Time\<close>, \<open>Go_Http\<close>: the prelude. What the code uses of Go's standard library:
    64-bit integers, strings as bytes with UTF-8, \<open>strconv\<close>, errors with \<open>errors.Is\<close>; JSON values with decoder,
    encoder and their round trip; times in RFC 3339; requests, responses and the decoding of structs.
  \<^item> \<open>Database\<close>: the tables of \<open>migrations/*.sql\<close> as lists of rows with the constraints of the schema. The
    record \<open>pg\<close> has what PostgreSQL decides: the clock, new identifiers, which statement fails and
    whether a failed commit took effect.
  \<^item> \<open>Config_Load\<close>: \<open>internal/config/config.go\<close>. \<open>Migrations\<close>: \<open>migrations/migrate.go\<close>.
  \<^item> \<open>Ingestion_Store\<close>: \<open>internal/ingestion/store.go\<close> and \<open>request_hash.go\<close>. \<open>Operations_Store\<close>:
    \<open>internal/operations/store.go\<close>. \<open>Outbox_Publisher\<close>, \<open>Outbox_Runner\<close>, \<open>Redis_Publisher\<close>:
    \<open>internal/outbox/publisher.go\<close> and \<open>runner.go\<close>, \<open>internal/broker/redisstream/publisher.go\<close>.
  \<^item> \<open>Event_Lifecycle\<close>, \<open>Event_Machine\<close>: the invariant of the tables (\<open>lifecycle_ok\<close>) and the abstract event
    machine, the step relation \<open>sys_step\<close> whose steps are the transactions of the program in any
    order, with a log of the publications that the broker reported as accepted.
  \<^item> \<open>Delivery_Failure\<close>, \<open>Delivery_Worker\<close>: \<open>internal/delivery/failure.go\<close> and
    \<open>internal/deliveryworker/worker.go\<close>. \<open>Worker_Recording\<close>: the worker with its recorder; the locales
    \<open>recorder_contract\<close> and \<open>acking_worker\<close> are the interfaces.
  \<^item> \<open>Http_Api\<close>, \<open>Event_Handler\<close>, \<open>Operational_Handlers\<close>, \<open>AI_Client\<close>, \<open>Event_Explain\<close>: the files of
    \<open>internal/httpapi\<close>; the locales \<open>persist_contract\<close> and \<open>dlq_store_contract\<close> are the stores the handlers call,
    interpreted on the ingestion store and the operations store. \<open>Replay_Handler\<close>:
    \<open>cmd/api/replay_handler.go\<close>. \<open>Mock_Destination\<close>: \<open>cmd/mock-destination/main.go\<close>.
    \<open>Delivery_Destination\<close>: the webhook calls of the worker answered by that server, over a network that loses
    requests and answers. \<open>Test_Postgres\<close>: \<open>internal/testutil/postgres.go\<close>.
  \<^item> \<open>Api_Main\<close>, \<open>Api_Requests\<close>: \<open>cmd/api/main.go\<close>, its routes and its start, and what requests do.
  \<^item> \<open>Stream_Copies\<close>: the transactions with a stream whose answers can be lost, counting the entries it accepted.
    \<open>Stream_View\<close>: what the stream has received, as the locale \<open>stream_view\<close> on the network, interpreted on a
    network with a record of the accepted entries. \<open>Program\<close>: the run of \<open>main\<close>, the step relation
    \<open>main_step\<close>. Its steps are the arrival and the answer of a request, a round of one of the three loops, the
    failure of the listener, the signal, the end of the shutdown, and the return after all loops have
    returned; its state (\<open>main_state\<close>) has the phase of \<open>main\<close>, which loops run, and the accepted requests. What a round sees
    of the context is arbitrary once the context is cancelled. A run is simulated by the event machine,
    with its log on the stream.

  \<^bold>\<open>How code becomes definitions.\<close>
  A struct is a record, an error a value of the type \<open>error\<close>, a function that can fail returns a sum with the
  error on the left, and every early return is a branch. Functions that act on the world take and return
  its state; what they call outside the repository (Redis, HTTP clients, the clock, the context, SHA-256, the
  order in which Go visits a map) is an argument. An SQL statement is a function on the tables, and
  a transaction that fails leaves the tables as they were unless its commit was applied. Numbers are
  wrapped to 64 bits where Go wraps them. A panic is \<open>None\<close>.

  \<^bold>\<open>What the theorems show.\<close>
  The tables are consistent in every reachable state and their logs only grow; ingestion is atomic and
  idempotent, from the bytes of the request to the tables; published rows were accepted by the broker,
  once if no statement fails and no answer is lost, and due rows are published in order; the worker acknowledges a
  message only after its outcome is recorded; a redrive happens at most once; a replay covers its range
  once and in order; a created event can be read back; only two kinds of requests change the tables;
  migrations run once and in order; only checked explanations are passed on, and the snapshot for an explanation
  has exact counters and fixed texts in place of errors with listed words; every resource has one method. Every
  request is one step of the event machine, a run of the whole program is a run of that machine, and whatever the program's tables call published was accepted by the stream. The program
  stops in order and can always stop. The worker and the mock destination together count each event once,
  whatever the network loses. A test leaves nothing behind but the extension it needs.

  \<^bold>\<open>Bounds and fuel.\<close>
  The JSON parser takes fuel of two times the length of its input plus two, which is enough because every
  call consumes input (\<open>parse_fuel_enough\<close>). \<open>runStreamWorker\<close> and \<open>retryPump\<close> take the number of rounds,
  and statements about them hold for every number. The outbox loop \<open>Run\<close> is a partial function that returns
  exactly when its context is cancelled. The pages of a replay are counted, and the theorem says how many are
  enough.

  \<^bold>\<open>Not modelled.\<close>
  Log lines, and the server's timeouts for idle and slow connections; percent-escapes in paths, and time zones other than
  UTC for the server's clock. In \<open>main_step\<close> a whole request and a whole round of a loop are each one step, so
  orders in which goroutines interleave inside them are not covered there; the event machine \<open>sys_step\<close> has single
  transactions as its steps, in any order. The migrations act on a schema of their own beside the tables
  (\<open>main_setup\<close>), and rows with equal times are ordered by insertion, which SQL leaves open. In \<open>Test_Postgres\<close> the
  waiting for a lock that another session holds is not modelled, and what a script does is an argument. The AI service
  (Python), the dashboard (TypeScript) and the scripts are separate programs.
\<close>

section \<open>The whole program\<close>

text \<open>
  C1: The program refines the event machine. Whatever order requests, outbox rounds, rounds of the stream
  worker and rounds of the retry pump come in after a successful start, and whatever fails, the tables are
  in a state that the event machine reaches from where the program started (the machine leaves open what
  the network does). So tables that were consistent stay consistent, and no event, status or attempt is
  lost.
\<close>

theorem program_refines_machine:
  assumes "main_setup environ newPool files sv srv env (m, w0) = (Inr a, m', w1)"
    and "\<And>n. server u (srv n)" "main_reach srv env api a (main_started w1) s" "w = ms_world s"
  shows "(\<exists>log. sys_reach (server u) (wd_db w0, wd_net w0, []) (wd_db w, wd_net w, log)) \<and>
    (lifecycle_ok u (wd_db w0) \<longrightarrow> lifecycle_ok u (wd_db w) \<and> extends (wd_db w0) (wd_db w))"
proof -
  obtain log where "sys_reach (server u) (wd_db w0, wd_net w0, []) (wd_db w, wd_net w, log)"
    using unrecorded.program_simulated [OF assms(1-3), of "[]"] assms(4) by (auto simp: app_reaches_def on_stream_def)
  then show ?thesis
    using sys_reach_lifecycle [of "server u" _ _ u] sys_reach_extends [of "server u" _ _ u] by fastforce
qed

theorem program_refines_machine_witness:
  "case main_setup [''POSTGRES_DSN'' \<mapsto> ''postgres://db'', ''REDIS_ADDR'' \<mapsto> ''redis:6379''] (\<lambda>_. None)
       example_files quiet_migrations (\<lambda>_. example_server) example_env
       (\<lparr>md_applied = None, md_schema = []\<rparr>, example_world) of
     (res, m, w1) \<Rightarrow>
       (case res of
          Inl e \<Rightarrow> False
        | Inr a \<Rightarrow> lifecycle_ok Some
            (wd_db (snd (runRound (en_ctx (world_env (sees uncancelled example_env))) (app_runner a) w1))))"
  (is "case ?run of (res, m, w1) \<Rightarrow> ?P res w1")
proof -
  have "\<not> isl (fst ?run)" by code_simp
  then obtain a m w1 where run: "?run = (Inr a, m, w1)" by (cases ?run; cases "fst ?run") auto
  let ?w = "snd (runRound (en_ctx (world_env (sees uncancelled example_env))) (app_runner a) w1)"
  obtain s where "main_reach (\<lambda>_. example_server) example_env example_api a (main_started w1) s" "?w = ms_world s"
    by (metis outbox_round)
  moreover have "lifecycle_ok Some (wd_db example_world)"
    using Persist_lifecycle [OF lifecycle_empty example_servers(1), of plain_lib example_request "''k1''"]
    by (simp add: example_first example_world_def)
  ultimately have "lifecycle_ok Some (wd_db ?w)"
    using program_refines_machine [OF run example_servers(1)] by blast
  with run show ?thesis by simp
qed

text \<open>
  C2: What the tables call published is on the stream. Add to the network a record of the entries
  that \<open>XADD\<close> accepted on \<open>eventrail.events\<close>. After a successful start, whatever order requests and
  rounds come in and whatever fails, the event of every published outbox row and of every redriven
  dead-letter record is in that record, if this was so at the start; so it holds across restarts.
\<close>

theorem published_on_stream:
  assumes "main_setup environ newPool files sv srv (recorded_env env) (m, w0) = (Inr a, m', w1)"
    and "\<And>n. server u (srv n)" "main_reach srv (recorded_env env) (recorded_api api) a (main_started w1) s"
    and "lifecycle_ok u (wd_db w0)" "published_on (wd_db w0) (snd (wd_net w0))" "w = ms_world s"
  shows "published_on (wd_db w) (snd (wd_net w))"
  using program_published [OF assms(1-5)] assms(6) by simp

definition recorded_world :: "(nat \<times> bytes list) world" where
  "recorded_world = \<lparr>wd_net = (0, []), wd_db = example_db, wd_tx = 0, wd_acks = []\<rparr>"

theorem published_on_stream_witness:
  "case main_setup [''POSTGRES_DSN'' \<mapsto> ''postgres://db'', ''REDIS_ADDR'' \<mapsto> ''redis:6379''] (\<lambda>_. None)
       example_files quiet_migrations (\<lambda>_. example_server) (recorded_env example_env)
       (\<lparr>md_applied = None, md_schema = []\<rparr>, recorded_world) of
     (res, m, w1) \<Rightarrow>
       (case res of
          Inl e \<Rightarrow> False
        | Inr a \<Rightarrow>
            (case snd (runRound (en_ctx (world_env (sees uncancelled (recorded_env example_env)))) (app_runner a) w1) of w \<Rightarrow>
             map ob_status (outbox (wd_db w)) = [''published''] \<and> published_on (wd_db w) (snd (wd_net w))))"
  (is "case ?run of (res, m, w1) \<Rightarrow> ?P res w1")
proof -
  have run1: "case ?run of (res, m, w1) \<Rightarrow> (case res of Inl e \<Rightarrow> False | Inr a \<Rightarrow> map ob_status (outbox (wd_db
      (snd (runRound (en_ctx (world_env (sees uncancelled (recorded_env example_env)))) (app_runner a) w1)))) = [''published''])"
    by code_simp
  then obtain a m w1 where run: "?run = (Inr a, m, w1)" by (cases ?run; cases "fst ?run") auto
  let ?w = "snd (runRound (en_ctx (world_env (sees uncancelled (recorded_env example_env)))) (app_runner a) w1)"
  obtain s where "main_reach (\<lambda>_. example_server) (recorded_env example_env) (recorded_api example_api) a (main_started w1) s" "?w = ms_world s"
    by (metis outbox_round)
  moreover have "lifecycle_ok Some (wd_db recorded_world)"
    using Persist_lifecycle [OF lifecycle_empty example_servers(1), of plain_lib example_request "''k1''"]
    by (simp add: example_first recorded_world_def)
  moreover have "published_on (wd_db recorded_world) (snd (wd_net recorded_world))" by code_simp
  ultimately have "published_on (wd_db ?w) (snd (wd_net ?w))"
    using published_on_stream [OF run example_servers(1)] by blast
  with run run1 show ?thesis by simp
qed

text \<open>
  C7: The program stops in order. The outbox loop, the stream loop and the retry pump run until \<open>main\<close>
  cancels the application's context, whatever fails in them. When \<open>main\<close> has returned, all three
  have returned and the server no longer listens, and if the server was shut down within its time, no
  accepted request was left without an answer.
\<close>

theorem main_stops_in_order:
  assumes "main_reach srv env api a (main_started w) s"
  shows "(\<not> ms_cancelled s \<longrightarrow> ms_outbox s \<and> ms_stream s \<and> ms_pump s) \<and>
    (ms_phase s = Returned clean \<longrightarrow> ms_cancelled s \<and> \<not> ms_outbox s \<and> \<not> ms_stream s \<and> \<not> ms_pump s \<and>
       \<not> ms_listening s \<and> (clean \<longrightarrow> ms_inflight s = []))"
  using main_reach_ok [OF assms] by (auto simp: main_ok_def)

theorem main_stops_in_order_witness:
  "\<exists>s. main_reach (\<lambda>_. example_server) example_env example_api example_app (main_started example_world) s \<and>
     ms_phase s = Returned True \<and> \<not> ms_outbox s \<and> \<not> ms_stream s \<and> \<not> ms_pump s \<and> ms_inflight s = []"
proof -
  let ?reach = "main_reach (\<lambda>_. example_server) example_env example_api example_app (main_started example_world)"
  have "ms_phase (main_started example_world) = Serving" by (simp add: main_started_def)
  from signal_returns [OF this] obtain s where s: "?reach s" "ms_phase s = Returned True" by blast
  with main_stops_in_order [OF s(1), of True] show ?thesis by blast
qed

text \<open>
  C25: The program can always stop. From every state in which the process has not panicked and \<open>main\<close> has
  not returned, there is a run in which \<open>main\<close> returns, and as long as it has not begun to wait for the
  loops there is one in which every accepted request is answered first.
\<close>

theorem main_can_return:
  assumes "main_reach srv env api a (main_started w) s" "running s"
  shows "\<exists>s' clean. main_reach srv env api a s s' \<and> ms_phase s' = Returned clean \<and>
    (ms_phase s = Serving \<or> ms_phase s = ShuttingDown \<longrightarrow> clean)"
proof (cases "ms_phase s")
  case Serving
  then show ?thesis using signal_returns by blast
next
  case ShuttingDown
  then show ?thesis using shutdown_returns by blast
next
  case (Waiting clean)
  then have "ms_cancelled s" using main_reach_ok [OF assms(1)] by (simp add: main_ok_def)
  with Waiting show ?thesis using wait_returns by fastforce
qed (use assms(2) in \<open>simp_all add: running_def\<close>)

theorem main_can_return_witness:
  "\<exists>s clean. main_reach (\<lambda>_. example_server) example_env example_api example_app (main_started example_world) s \<and>
     ms_phase s = Returned clean"
proof -
  have "running (main_started example_world)" by (simp add: running_def main_started_def)
  from main_can_return [OF main_reach_refl this] show ?thesis by blast
qed

end
